(* ===== verification/Ordered_Maps.thy ===== *)
theory Ordered_Maps
  imports Prelude
begin

text \<open>
  Rust's \<open>BTreeMap\<close>, the container of the mempool, the cache, the orphan pool and the
  database tables. The locale \<open>ordered_map\<close> is the contract its clients use: what a lookup
  returns after an insertion or a removal, and that iteration is in strictly ascending key
  order. The sizes and sums of a map after an update follow from the contract alone. The
  model is an association list sorted by key, and the interpretation \<open>bt\<close> discharges the
  contract for it.
\<close>

section \<open>The contract\<close>

locale ordered_map =
  fixes empty :: "'m"
    and get :: "'m \<Rightarrow> 'k::linorder \<Rightarrow> 'v option"
    and insert :: "'k \<Rightarrow> 'v \<Rightarrow> 'm \<Rightarrow> 'm"
    and remove :: "'k \<Rightarrow> 'm \<Rightarrow> 'm"
    and entries :: "'m \<Rightarrow> ('k \<times> 'v) list"
    and invar :: "'m \<Rightarrow> bool"
  assumes invar_empty: "invar empty"
    and invar_insert: "invar m \<Longrightarrow> invar (insert k v m)"
    and invar_remove: "invar m \<Longrightarrow> invar (remove k m)"
    and get_empty: "get empty k = None"
    and get_insert: "invar m \<Longrightarrow> get (insert k v m) k' = (if k' = k then Some v else get m k')"
    and get_remove: "invar m \<Longrightarrow> get (remove k m) k' = (if k' = k then None else get m k')"
    and entries_sorted: "invar m \<Longrightarrow> sorted_wrt (<) (map fst (entries m))"
    and get_entries: "invar m \<Longrightarrow> get m k = Some v \<longleftrightarrow> (k, v) \<in> set (entries m)"
begin

lemma distinct_keys: "invar m \<Longrightarrow> distinct (map fst (entries m))"
  using entries_sorted strict_sorted_iff by blast

lemma distinct_entries: "invar m \<Longrightarrow> distinct (entries m)"
  using distinct_keys distinct_map by blast

lemma get_None_iff: "invar m \<Longrightarrow> get m k = None \<longleftrightarrow> k \<notin> fst ` set (entries m)"
  using get_entries [of m k] by (cases "get m k") force+

lemma entries_ext:
  assumes "invar m" "invar m'" and "\<And>k. get m k = get m' k"
  shows "entries m = entries m'"
proof (rule map_sorted_distinct_set_unique [where f = fst])
  have eq: "set (entries m) = set (entries m')"
    using assms by (auto simp: get_entries [symmetric])
  then show "inj_on fst (set (entries m) \<union> set (entries m'))"
    using distinct_keys [OF assms(1)] by (simp add: eq [symmetric] distinct_map)
  show "set (entries m) = set (entries m')" by (rule eq)
qed (use assms(1,2) [THEN entries_sorted] in \<open>simp_all add: strict_sorted_iff\<close>)

lemma mset_entries: "invar m \<Longrightarrow> mset (entries m) = mset_set (set (entries m))"
  by (simp add: distinct_entries mset_set_set)

lemma mset_entries_insert_fresh:
  assumes "invar m" "get m k = None"
  shows "mset (entries (insert k v m)) = add_mset (k, v) (mset (entries m))"
proof -
  have "set (entries (insert k v m)) = Set.insert (k, v) (set (entries m))"
  proof (rule set_eqI)
    fix e :: "'k \<times> 'v"
    obtain k' v' where e: "e = (k', v')" by (cases e)
    have "e \<in> set (entries (insert k v m)) \<longleftrightarrow> get (insert k v m) k' = Some v'"
      using assms(1) e by (simp add: get_entries invar_insert)
    also have "\<dots> \<longleftrightarrow> e \<in> Set.insert (k, v) (set (entries m))"
      using assms e by (auto simp: get_insert get_entries [symmetric])
    finally show "e \<in> set (entries (insert k v m)) \<longleftrightarrow> e \<in> Set.insert (k, v) (set (entries m))" .
  qed
  moreover have "(k, v) \<notin> set (entries m)"
    using assms by (simp add: get_entries [symmetric])
  ultimately show ?thesis
    using assms(1) by (simp add: mset_entries invar_insert)
qed

lemma mset_entries_remove:
  assumes "invar m" "get m k = Some v"
  shows "mset (entries m) = add_mset (k, v) (mset (entries (remove k m)))"
proof -
  have "set (entries m) = Set.insert (k, v) (set (entries (remove k m)))"
  proof (rule set_eqI)
    fix e :: "'k \<times> 'v"
    obtain k' v' where e: "e = (k', v')" by (cases e)
    show "e \<in> set (entries m) \<longleftrightarrow> e \<in> Set.insert (k, v) (set (entries (remove k m)))"
      using assms e by (auto simp: get_remove invar_remove get_entries [symmetric])
  qed
  moreover have "(k, v) \<notin> set (entries (remove k m))"
    using assms by (simp add: get_remove invar_remove get_entries [symmetric])
  ultimately show ?thesis
    using assms(1) by (simp add: mset_entries invar_remove)
qed

lemma length_insert_fresh:
  "invar m \<Longrightarrow> get m k = None \<Longrightarrow> length (entries (insert k v m)) = Suc (length (entries m))"
  using mset_entries_insert_fresh [of m k v] by (metis size_add_mset size_mset)

lemma length_remove:
  "invar m \<Longrightarrow> get m k = Some v \<Longrightarrow> length (entries m) = Suc (length (entries (remove k m)))"
  using mset_entries_remove [of m k v] by (metis size_add_mset size_mset)

lemma remove_absent: "invar m \<Longrightarrow> get m k = None \<Longrightarrow> entries (remove k m) = entries m"
  by (rule entries_ext) (auto simp: invar_remove get_remove)

lemma length_remove_le: "invar m \<Longrightarrow> length (entries (remove k m)) \<le> length (entries m)"
  by (cases "get m k") (auto simp: remove_absent dest: length_remove)

lemma length_insert_replace:
  assumes "invar m" "get m k = Some v'"
  shows "length (entries (insert k v m)) = length (entries m)"
proof -
  have "entries (insert k v m) = entries (insert k v (remove k m))"
    using assms by (intro entries_ext) (auto simp: invar_insert invar_remove get_insert get_remove)
  then have "length (entries (insert k v m)) = Suc (length (entries (remove k m)))"
    using assms by (simp add: length_insert_fresh invar_remove get_remove)
  with assms show ?thesis by (simp add: length_remove)
qed

lemma length_insert_le: "invar m \<Longrightarrow> length (entries (insert k v m)) \<le> Suc (length (entries m))"
  by (cases "get m k") (auto simp: length_insert_fresh length_insert_replace)

lemma sum_insert_fresh:
  fixes f :: "'k \<times> 'v \<Rightarrow> nat"
  assumes "invar m" "get m k = None"
  shows "sum_list (map f (entries (insert k v m))) = f (k, v) + sum_list (map f (entries m))"
  by (simp add: sum_list_map_mset mset_entries_insert_fresh [OF assms])

lemma sum_remove:
  fixes f :: "'k \<times> 'v \<Rightarrow> nat"
  assumes "invar m" "get m k = Some v"
  shows "sum_list (map f (entries m)) = f (k, v) + sum_list (map f (entries (remove k m)))"
  by (simp add: sum_list_map_mset mset_entries_remove [OF assms])

lemma first_key_least:
  assumes "invar m" "entries m = e # es" "get m k \<noteq> None"
  shows "fst e \<le> k"
proof -
  from assms(3) obtain v where "get m k = Some v" by auto
  then have "(k, v) \<in> set (entries m)" using assms(1) by (simp add: get_entries)
  then have "k = fst e \<or> k \<in> set (map fst es)" using assms(2) by force
  with entries_sorted [OF assms(1)] show ?thesis
    unfolding assms(2) by (auto intro: less_imp_le)
qed

end

section \<open>The model: an association list in key order\<close>

type_synonym ('k, 'v) btree = "('k \<times> 'v) list"

definition bt_wf :: "('k::linorder, 'v) btree \<Rightarrow> bool" where
  "bt_wf m \<longleftrightarrow> sorted_wrt (<) (map fst m)"

definition bt_get :: "('k::linorder, 'v) btree \<Rightarrow> 'k \<Rightarrow> 'v option" where
  "bt_get m k = map_of m k"

fun bt_insert :: "'k::linorder \<Rightarrow> 'v \<Rightarrow> ('k, 'v) btree \<Rightarrow> ('k, 'v) btree" where
  "bt_insert k v [] = [(k, v)]"
| "bt_insert k v (e # m) =
     (if k < fst e then (k, v) # e # m
      else if fst e < k then e # bt_insert k v m
      else (k, v) # m)"

definition bt_remove :: "'k::linorder \<Rightarrow> ('k, 'v) btree \<Rightarrow> ('k, 'v) btree" where
  "bt_remove k m = filter (\<lambda>e. fst e \<noteq> k) m"

definition bt_has :: "('k::linorder, 'v) btree \<Rightarrow> 'k \<Rightarrow> bool" where
  "bt_has m k \<longleftrightarrow> bt_get m k \<noteq> None"

lemma set_bt_insert_keys: "fst ` set (bt_insert k v m) = Set.insert k (fst ` set m)"
  by (induction m) (auto simp: not_less order_antisym)

lemma bt_wf_insert: "bt_wf m \<Longrightarrow> bt_wf (bt_insert k v m)"
  unfolding bt_wf_def
proof (induction m)
  case (Cons e m)
  then have "\<forall>x \<in> fst ` set m. fst e < x" and m: "sorted_wrt (<) (map fst m)"
    by simp_all
  then have "\<forall>x \<in> fst ` set (bt_insert k v m). fst e < x" if "fst e < k"
    using that by (simp only: set_bt_insert_keys ball_simps)
  moreover have "\<forall>x \<in> fst ` set m. k < x" if "k \<le> fst e"
    using that \<open>\<forall>x \<in> fst ` set m. fst e < x\<close> by fastforce
  ultimately show ?case using Cons.prems Cons.IH [OF m] by (auto simp: not_less)
qed simp

lemma bt_wf_remove: "bt_wf m \<Longrightarrow> bt_wf (bt_remove k m)"
  by (simp add: bt_wf_def bt_remove_def sorted_wrt_map sorted_wrt_filter)

lemma bt_get_insert: "bt_get (bt_insert k v m) k' = (if k' = k then Some v else bt_get m k')"
  unfolding bt_get_def by (induction m) auto

lemma bt_get_remove: "bt_get (bt_remove k m) k' = (if k' = k then None else bt_get m k')"
  unfolding bt_get_def bt_remove_def by (induction m) auto

lemma bt_get_entries: "bt_wf m \<Longrightarrow> bt_get m k = Some v \<longleftrightarrow> (k, v) \<in> set m"
  unfolding bt_get_def bt_wf_def by (metis map_of_eq_Some_iff strict_sorted_iff)

lemma bt_wf_Nil [simp]: "bt_wf []" and bt_get_Nil [simp]: "bt_get [] k = None"
  by (simp_all add: bt_wf_def bt_get_def)

lemma bt_wf_sorted: "bt_wf m \<Longrightarrow> sorted_wrt (<) (map fst m)"
  by (simp add: bt_wf_def)

interpretation bt: ordered_map "[]" bt_get bt_insert bt_remove "\<lambda>m. m" bt_wf
  by unfold_locales
    (simp_all add: bt_wf_insert bt_wf_remove bt_get_insert bt_get_remove bt_get_entries
      bt_wf_sorted)

lemmas bt_simps [simp] = bt_get_insert bt_get_remove bt_wf_insert bt_wf_remove

lemma length_bt_remove_less: "e \<in> set m \<Longrightarrow> length (bt_remove (fst e) m) < length m"
  unfolding bt_remove_def by (metis (mono_tags, lifting) length_filter_less)

lemma set_bt_remove: "set (bt_remove k m) = {e \<in> set m. fst e \<noteq> k}"
  by (simp add: bt_remove_def)

section \<open>Building a map from a list\<close>

lemma bt_get_map_of: "bt_get m k = map_of m k"
  by (simp add: bt_get_def)

lemma bt_get_fold_insert_find:
  "bt_get (fold (\<lambda>x. bt_insert (f x) (g x)) xs m) k =
   (case find (\<lambda>x. f x = k) (rev xs) of Some x \<Rightarrow> Some (g x) | None \<Rightarrow> bt_get m k)"
  by (induction xs rule: rev_induct) auto

lemmas bt_get_fold_find = bt_get_fold_insert_find [where g = "\<lambda>x. x"]

lemma bt_wf_fold_bt_insert: "bt_wf m \<Longrightarrow> bt_wf (fold (\<lambda>x. bt_insert (f x) (g x)) xs m)"
  by (induction xs arbitrary: m) auto

lemma find_SomeD: "find Q xs = Some x \<Longrightarrow> Q x \<and> x \<in> set xs"
  by (induction xs) (auto split: if_splits)

lemma find_keyed:
  assumes "\<forall>e \<in> set es. f (snd e) = fst e" "distinct (map fst es)"
  shows "find (\<lambda>x. f x = k) (rev (map snd es)) = map_of es k"
proof (cases "map_of es k")
  case None
  then have "\<forall>e \<in> set es. fst e \<noteq> k" by (auto simp: map_of_eq_None_iff)
  with None assms(1) show ?thesis by (auto simp: find_None_iff)
next
  case (Some v)
  have uniq: "x = v" if "x \<in> snd ` set es" "f x = k" for x
    using that assms Some by (auto simp: map_of_eq_Some_iff) (metis eq_key_imp_eq_value fst_conv map_of_SomeD Some snd_conv)
  have "f v = k" "v \<in> snd ` set es"
    using map_of_SomeD [OF Some] assms(1) by force+
  then obtain x where "find (\<lambda>x. f x = k) (rev (map snd es)) = Some x"
    by (cases "find (\<lambda>x. f x = k) (rev (map snd es))") (auto simp: find_None_iff)
  moreover from this have "f x = k" "x \<in> snd ` set es"
    by (auto simp: find_Some_iff) (metis length_rev nth_mem rev_map set_map set_rev length_map)
  ultimately show ?thesis using uniq Some by simp
qed

text \<open>Inserting the values of a map under their own keys rebuilds the map.\<close>

lemma bt_get_fold_values:
  assumes "bt_wf m" "\<forall>e \<in> set m. f (snd e) = fst e"
  shows "bt_get (fold (\<lambda>x. bt_insert (f x) (g x)) (map snd m) []) k = map_option g (bt_get m k)"
  using find_keyed [OF assms(2) bt.distinct_keys [OF assms(1)], of k]
  by (simp add: bt_get_fold_insert_find bt_get_map_of [symmetric] split: option.split)

end
