(* ===== verification/Params.thy ===== *)
theory Params
  imports Ordered_Maps
begin

text \<open>
  The node's own constants, \<open>node/src/runtime/mod.rs\<close> module \<open>params\<close>. The constants that
  module re-exports from the \<open>paqus\<close> crate are parameters of the definitions that use them.
\<close>

definition P2P_WIRE_FORMAT_VERSION :: u8 where "P2P_WIRE_FORMAT_VERSION = 4"

definition STORAGE_VERSION :: u8 where "STORAGE_VERSION = 1"

definition LOW_FEE_EXPIRY_SECS :: u64 where "LOW_FEE_EXPIRY_SECS = 0"

definition MEMPOOL_EXPIRY_SECS :: u64 where "MEMPOOL_EXPIRY_SECS = 0"

definition MAX_MEMPOOL_TXS :: usize where "MAX_MEMPOOL_TXS = 1000"

definition MAX_MEMPOOL_BYTES :: usize where "MAX_MEMPOOL_BYTES = 10 * 1024 * 1024"

definition MAX_NETWORK_MESSAGE_SIZE :: usize where "MAX_NETWORK_MESSAGE_SIZE = 8 * 1024 * 1024"

definition FEE_RATE_UNIT_BYTES :: usize where "FEE_RATE_UNIT_BYTES = 1"

definition BASE_FEE :: u64 where "BASE_FEE = 16"

definition MIN_RELAY_FEE_FLOOR :: u64 where "MIN_RELAY_FEE_FLOOR = 0"

definition DEFAULT_MIN_RELAY_FEE :: u64 where "DEFAULT_MIN_RELAY_FEE = MIN_RELAY_FEE_FLOOR"

definition DEFAULT_MARKET_FEE :: u64 where "DEFAULT_MARKET_FEE = 0"

definition DYNAMIC_MARKET_FEE_MAX_MULTIPLIER :: u64 where
  "DYNAMIC_MARKET_FEE_MAX_MULTIPLIER = 8"

named_theorems params

lemmas node_params [params] =
  P2P_WIRE_FORMAT_VERSION_def STORAGE_VERSION_def LOW_FEE_EXPIRY_SECS_def MEMPOOL_EXPIRY_SECS_def
  MAX_MEMPOOL_TXS_def MAX_MEMPOOL_BYTES_def MAX_NETWORK_MESSAGE_SIZE_def FEE_RATE_UNIT_BYTES_def
  BASE_FEE_def MIN_RELAY_FEE_FLOOR_def DEFAULT_MIN_RELAY_FEE_def DEFAULT_MARKET_FEE_def
  DYNAMIC_MARKET_FEE_MAX_MULTIPLIER_def

end
