(* ===== verification/Protocol.thy ===== *)
theory Protocol
  imports Params
begin

text \<open>
  The boundary to the \<open>paqus\<close> protocol crate, which this repository imports and does not
  contain. Its types (transactions, blocks, the ledger) stay type variables, its functions
  are the fields of parameter records that the definitions of the node take as an argument,
  and nothing is assumed of them here. What the node's source itself spells out of the crate
  is spelled out: the enum variants it matches on, the struct fields it reads. An error enum
  has the variants the source names and one constructor for the rest.
\<close>

section \<open>Error enums, with the variants the node's source names\<close>

datatype codec_error = CodecInvalidBlock | CodecEncodeFailed | CodecOther nat

datatype transaction_error = TransactionError nat

datatype block_error =
  BlockInvalidTransaction | BlockInvalidStateRoot | BlockInvalidCoinbase
| BlockInvalidGenesisAllocation | BlockOther nat

datatype consensus_error =
  ConsensusInvalidHeight | ConsensusInvalidPreviousHash | ConsensusInvalidBlock block_error
| ConsensusSerialization codec_error | ConsensusOther nat

datatype ledger_error =
  LedgerDuplicateBlock | LedgerInvalidStateRoot | LedgerFinalityViolation
| LedgerInvalidConsensus consensus_error | LedgerInvalidBlock block_error
| LedgerInvalidBlockHeight | LedgerInvalidPreviousHash | LedgerInvalidParent | LedgerOther nat

datatype genesis_error =
  GenesisHashMismatch hash hash | GenesisCodec codec_error | GenesisLedger ledger_error
| GenesisOther nat

datatype fork_choice_error =
  ForkMissingParent | ForkDuplicateBlock | ForkSerialization codec_error | ForkOther nat

datatype rollback_proof_error = RollbackProofError nat

section \<open>Transactions as the source matches on them\<close>

datatype output_target = Address address | BlockMiner

record transfer_output =
  out_to :: output_target
  out_amount :: u64

datatype qcash_kind =
  Withdraw u64
| Redeem address "hash list"
| RecoverRedeem address "hash list"

datatype transaction_family = FamilyBatchTransfer | FamilyQCash

text \<open>
  \<open>SignedProtocolTransaction\<close> has two variants; the first carries the sender, the outputs and
  the \<open>last_state\<close> of a batch transfer, the second the signer, the kind (with the coin ids of
  its inputs) and the \<open>last_state\<close> of a QCash transaction.
\<close>

datatype protocol_tx =
  BatchTransfer address "transfer_output list" hash
| QCash address qcash_kind hash

section \<open>The crate's functions\<close>

record 'tx tx_api =
  tx_view :: "'tx \<Rightarrow> protocol_tx"
  target_address :: "output_target \<Rightarrow> address option"
  tx_to_bytes :: "'tx \<Rightarrow> codec_error + bytes"
  tx_hash :: "'tx \<Rightarrow> codec_error + hash"
  tx_signer :: "'tx \<Rightarrow> address"
  tx_family :: "'tx \<Rightarrow> transaction_family"
  tx_virtual_size :: "'tx \<Rightarrow> codec_error + usize"
  tx_block_miner_bounty :: "'tx \<Rightarrow> u64"
  tx_valid_at :: "'tx \<Rightarrow> u64 \<Rightarrow> bool"

text \<open>
  The ledger operations that stage transactions take \<open>&mut self\<close>: they return the ledger they
  leave behind, on failure too.
\<close>

record ('tx, 'ldg) ledger_api = "'tx tx_api" +
  tip_height :: "'ldg \<Rightarrow> u64 option"
  apply_signed_transaction_at :: "'ldg \<Rightarrow> 'tx \<Rightarrow> u64 \<Rightarrow> 'ldg \<times> (ledger_error + unit)"
  apply_signed_qcash_transaction :: "'ldg \<Rightarrow> 'tx \<Rightarrow> u64 \<Rightarrow> 'ldg \<times> (ledger_error + unit)"

text \<open>
  A block is an opaque value with the accessors the node calls; \<open>blk_transactions\<close> is the
  field \<open>body.transactions\<close>, which the block builder also writes.
\<close>

record ('tx, 'ldg, 'blk) block_api = "('tx, 'ldg) ledger_api" +
  blk_hash :: "'blk \<Rightarrow> codec_error + hash"
  blk_height :: "'blk \<Rightarrow> u64"
  blk_transaction_count :: "'blk \<Rightarrow> usize"
  blk_transactions :: "'blk \<Rightarrow> 'tx list"
  blk_set_transactions :: "'tx list \<Rightarrow> 'blk \<Rightarrow> 'blk"
  blk_refresh_commitments :: "'blk \<Rightarrow> 'blk \<times> (codec_error + unit)"
  blk_serialized_size :: "'blk \<Rightarrow> codec_error + usize"
  blk_weight :: "'blk \<Rightarrow> codec_error + usize"
  max_block_size :: usize
  max_block_weight :: usize

text \<open>
  What the node reads of blocks, headers, accounts and ledgers beyond the mempool: block and
  header fields, the canonical codec, the account state, and the maps of \<open>ledger.chain\<close>.
\<close>

record ('tx, 'ldg, 'blk, 'hdr, 'acct) chain_api = "('tx, 'ldg, 'blk) block_api" +
  blk_header :: "'blk \<Rightarrow> 'hdr"
  blk_previous_hash :: "'blk \<Rightarrow> hash"
  blk_state_root :: "'blk \<Rightarrow> hash"
  blk_is_genesis :: "'blk \<Rightarrow> bool"
  blk_miner_address :: "'blk \<Rightarrow> address"
  blk_has_coinbase :: "'blk \<Rightarrow> bool"
  blk_validate_structure :: "'blk \<Rightarrow> block_error + unit"
  block_bytes :: "'blk \<Rightarrow> codec_error + bytes"
  decode_block :: "bytes \<Rightarrow> codec_error + 'blk"
  hdr_hash :: "'hdr \<Rightarrow> codec_error + hash"
  hdr_height :: "'hdr \<Rightarrow> u64"
  hdr_previous_hash :: "'hdr \<Rightarrow> hash"
  hdr_state_root :: "'hdr \<Rightarrow> hash"
  hdr_difficulty :: "'hdr \<Rightarrow> u32"
  acct_address :: "'acct \<Rightarrow> address"
  ldg_accounts :: "'ldg \<Rightarrow> (address, 'acct) btree"
  ldg_account :: "'ldg \<Rightarrow> address \<Rightarrow> 'acct option"
  ldg_blocks :: "'ldg \<Rightarrow> (u64, 'blk) btree"
  ldg_headers :: "'ldg \<Rightarrow> (u64, 'hdr) btree"
  ldg_block :: "'ldg \<Rightarrow> u64 \<Rightarrow> 'blk option"
  ldg_header :: "'ldg \<Rightarrow> u64 \<Rightarrow> 'hdr option"
  ldg_tip_hash :: "'ldg \<Rightarrow> hash option"
  ldg_checkpoint_height :: "'ldg \<Rightarrow> u64 option"
  hash_bytes :: "bytes \<Rightarrow> hash"
  canonical_issue_bytes :: "bytes \<Rightarrow> hash \<Rightarrow> hash \<Rightarrow> codec_error + bytes"
  canonical_context_bytes :: "bytes \<Rightarrow> 'hdr list \<Rightarrow> 'hdr list \<Rightarrow> hash \<Rightarrow> codec_error + bytes"
  hash_size :: nat

end
