(* ===== verification/Sample.thy ===== *)
theory Sample
  imports Protocol
begin

text \<open>
  A small concrete chain that instantiates the parameters of the development, so that theorems
  with hypotheses can be applied to computed values. A transaction has one-byte fields, a ledger
  is the list of the transactions applied to it, and a block is its height, its parent and its
  transactions.
\<close>

datatype sample_tx =
  STx (st_id: u8) (st_signer: u8) (st_state: u8) (st_bounty: u64) (st_coins: "u8 list")

datatype sample_header = SHdr (sh_id: u8) (sh_parent: u8) (sh_height: u64)

datatype sample_block =
  SBlk (sb_id: u8) (sb_parent: u8) (sb_height: u64) (sb_txs: "sample_tx list")

datatype sample_ledger = SLdg (sl_applied: "u8 list") (sl_chain: "sample_block list")

datatype sample_account = SAcct (sa_address: u8) (sa_balance: u64)

definition sample_view :: "sample_tx \<Rightarrow> protocol_tx" where
  "sample_view t =
     (if st_coins t = []
      then BatchTransfer [st_signer t] [\<lparr>out_to = BlockMiner, out_amount = st_bounty t\<rparr>] [st_state t]
      else QCash [st_signer t] (Redeem [st_signer t] (map (\<lambda>c. [c]) (st_coins t))) [st_state t])"

definition sample_apply :: "sample_ledger \<Rightarrow> sample_tx \<Rightarrow> u64 \<Rightarrow> sample_ledger \<times> (ledger_error + unit)" where
  "sample_apply l t h =
     (if st_id t \<in> set (sl_applied l) then (l, Inl (LedgerOther 0))
      else (SLdg (st_id t # sl_applied l) (sl_chain l), Inr ()))"

fun sample_target :: "output_target \<Rightarrow> address option" where
  "sample_target (Address a) = Some a"
| "sample_target BlockMiner = None"

definition sample_header :: "sample_block \<Rightarrow> sample_header" where
  "sample_header b = SHdr (sb_id b) (sb_parent b) (sb_height b)"

definition sample_tx_bytes :: "sample_tx \<Rightarrow> bytes" where
  "sample_tx_bytes t = [st_id t, st_signer t, st_state t, ucast (st_bounty t)]"

fun sample_decode_txs :: "bytes \<Rightarrow> sample_tx list option" where
  "sample_decode_txs [] = Some []"
| "sample_decode_txs (a # b # c # d # bs) =
     map_option ((#) (STx a b c (ucast d) [])) (sample_decode_txs bs)"
| "sample_decode_txs _ = None"

definition sample_block_bytes :: "sample_block \<Rightarrow> codec_error + bytes" where
  "sample_block_bytes b =
     (if (\<forall>t \<in> set (sb_txs b). st_coins t = [] \<and> st_bounty t < 256) \<and> sb_height b < 256
      then Inr (sb_id b # sb_parent b # ucast (sb_height b) # concat (map sample_tx_bytes (sb_txs b)))
      else Inl CodecEncodeFailed)"

fun sample_decode_block :: "bytes \<Rightarrow> codec_error + sample_block" where
  "sample_decode_block (i # p # h # bs) =
     (case sample_decode_txs bs of
        None \<Rightarrow> Inl CodecInvalidBlock
      | Some ts \<Rightarrow> Inr (SBlk i p (ucast h) ts))"
| "sample_decode_block _ = Inl CodecInvalidBlock"

definition sample_blocks :: "sample_ledger \<Rightarrow> (u64, sample_block) btree" where
  "sample_blocks l = fold (\<lambda>b. bt_insert (sb_height b) b) (sl_chain l) []"

definition sample_accounts :: "sample_ledger \<Rightarrow> (address, sample_account) btree" where
  "sample_accounts l = fold (\<lambda>i. bt_insert [i] (SAcct i 1)) (sl_applied l) []"

definition sample_api ::
  "(sample_tx, sample_ledger, sample_block, sample_header, sample_account) chain_api" where
  "sample_api = \<lparr>
     tx_view = sample_view,
     target_address = sample_target,
     tx_to_bytes = (\<lambda>t. Inr ([st_id t, st_signer t, st_state t] @ st_coins t)),
     tx_hash = (\<lambda>t. Inr [st_id t]),
     tx_signer = (\<lambda>t. [st_signer t]),
     tx_family = (\<lambda>t. if st_coins t = [] then FamilyBatchTransfer else FamilyQCash),
     tx_virtual_size = (\<lambda>t. Inr 1),
     tx_block_miner_bounty = st_bounty,
     tx_valid_at = (\<lambda>t h. True),
     tip_height = (\<lambda>l. if sl_chain l = [] then None else Some (sb_height (last (sl_chain l)))),
     apply_signed_transaction_at = sample_apply,
     apply_signed_qcash_transaction = sample_apply,
     blk_hash = (\<lambda>b. Inr [sb_id b]),
     blk_height = sb_height,
     blk_transaction_count = (\<lambda>b. of_nat (length (sb_txs b))),
     blk_transactions = sb_txs,
     blk_set_transactions = (\<lambda>ts b. SBlk (sb_id b) (sb_parent b) (sb_height b) ts),
     blk_refresh_commitments = (\<lambda>b. (b, Inr ())),
     blk_serialized_size = (\<lambda>b. Inr (10 * of_nat (length (sb_txs b)))),
     blk_weight = (\<lambda>b. Inr (of_nat (length (sb_txs b)))),
     max_block_size = 20,
     max_block_weight = 5,
     blk_header = sample_header,
     blk_previous_hash = (\<lambda>b. [sb_parent b]),
     blk_state_root = (\<lambda>b. [1]),
     blk_is_genesis = (\<lambda>b. sb_height b = 0),
     blk_miner_address = (\<lambda>b. [9]),
     blk_has_coinbase = (\<lambda>b. sb_height b \<noteq> 0),
     blk_validate_structure = (\<lambda>b. Inr ()),
     block_bytes = sample_block_bytes,
     decode_block = sample_decode_block,
     hdr_hash = (\<lambda>h. Inr [sh_id h]),
     hdr_height = sh_height,
     hdr_previous_hash = (\<lambda>h. [sh_parent h]),
     hdr_state_root = (\<lambda>h. [1]),
     hdr_difficulty = (\<lambda>h. 1),
     acct_address = (\<lambda>a. [sa_address a]),
     ldg_accounts = sample_accounts,
     ldg_account = (\<lambda>l. bt_get (sample_accounts l)),
     ldg_blocks = sample_blocks,
     ldg_headers = (\<lambda>l. map (\<lambda>(h, b). (h, sample_header b)) (sample_blocks l)),
     ldg_block = (\<lambda>l. bt_get (sample_blocks l)),
     ldg_header = (\<lambda>l h. map_option sample_header (bt_get (sample_blocks l) h)),
     ldg_tip_hash = (\<lambda>l. if sl_chain l = [] then None else Some [sb_id (last (sl_chain l))]),
     ldg_checkpoint_height = (\<lambda>l. None),
     hash_bytes = (\<lambda>bs. bs),
     canonical_issue_bytes = (\<lambda>tag b t. Inr (tag @ b @ t)),
     canonical_context_bytes = (\<lambda>tag l c a. Inr (tag @ map sh_id l @ map sh_id c @ a)),
     hash_size = 1\<rparr>"

lemma ucast_u8_u64: "(x :: u64) < 256 \<Longrightarrow> ucast (ucast x :: u8) = x"
  by (simp add: word_uint_eq_iff unsigned_ucast_eq unsigned_take_bit_eq take_bit_int_eq_self
      word_less_def)

lemma sample_decode_block_bytes:
  "block_bytes sample_api b = Inr bs \<Longrightarrow> decode_block sample_api bs = Inr b"
proof -
  have txs: "\<forall>t \<in> set ts. st_coins t = [] \<and> st_bounty t < 256 \<Longrightarrow>
      sample_decode_txs (concat (map sample_tx_bytes ts)) = Some ts" for ts
  proof (induction ts)
    case (Cons t ts)
    then show ?case by (cases t) (auto simp: sample_tx_bytes_def ucast_u8_u64)
  qed simp
  show "block_bytes sample_api b = Inr bs \<Longrightarrow> decode_block sample_api bs = Inr b"
    by (cases b) (auto simp: sample_api_def sample_block_bytes_def txs ucast_u8_u64 split: if_splits)
qed

end
