(* ===== verification/Mempool.thy ===== *)
theory Mempool
  imports Sample "HOL-Library.Sublist"
begin

text \<open>
  The transaction pool, \<open>node/src/runtime/mempool\<close>: admission with eviction by fee rate,
  removal, expiry, the fee market, and the selection of transactions for a candidate block.
  The pool keeps four maps and a byte counter; \<open>mempool_ok\<close> says how they agree and every
  operation keeps it. The system clock is an argument \<open>now\<close> of the operations that read it.
\<close>

section \<open>Data\<close>

datatype mempool_error =
  DuplicateTransaction | FeeTooLow | MempoolFull | DuplicateBlockMinerFeeOutput
| InvalidTransaction transaction_error | InvalidLedgerState ledger_error | CashCoinReserved
| Serialization codec_error | FeeOverflow

record mempool_config =
  max_transactions :: usize
  max_bytes :: usize
  transaction_ttl_secs :: u64
  low_fee_ttl_secs :: u64
  min_relay_fee :: u64
  market_fee :: u64

record 'tx mempool =
  mp_transactions :: "(hash, 'tx) btree"
  mp_by_signer_state :: "(address \<times> hash, hash) btree"
  mp_reserved_coins :: "(hash, hash) btree"
  mp_inserted_at :: "(hash, u64) btree"
  mp_total_bytes :: usize
  mp_config :: mempool_config

record fee_market_snapshot =
  snap_min_relay_fee_rate :: u64
  snap_configured_market_fee_rate :: u64
  snap_recommended_fee_rate :: u64
  snap_pressure_bps :: u64
  snap_transaction_count :: nat
  snap_total_bytes :: usize
  snap_max_transactions :: usize
  snap_max_bytes :: usize
  snap_next_block_clearing_fee_rate :: u64
  snap_median_fee_rate :: u64
  snap_p75_fee_rate :: u64
  snap_p90_fee_rate :: u64

definition mempool_config_default :: mempool_config where
  "mempool_config_default =
     \<lparr>max_transactions = MAX_MEMPOOL_TXS, max_bytes = MAX_MEMPOOL_BYTES,
      transaction_ttl_secs = MEMPOOL_EXPIRY_SECS, low_fee_ttl_secs = LOW_FEE_EXPIRY_SECS,
      min_relay_fee = DEFAULT_MIN_RELAY_FEE, market_fee = DEFAULT_MARKET_FEE\<rparr>"

definition with_config :: "mempool_config \<Rightarrow> 'tx mempool" where
  "with_config c = \<lparr>mp_transactions = [], mp_by_signer_state = [], mp_reserved_coins = [],
     mp_inserted_at = [], mp_total_bytes = 0, mp_config = c\<rparr>"

definition mempool_new :: "'tx mempool" where
  "mempool_new = with_config mempool_config_default"

section \<open>Views of a transaction\<close>

definition fee_rate :: "u64 \<Rightarrow> usize \<Rightarrow> u64" where
  "fee_rate fee virtual_size =
     (if virtual_size = 0 then - 1 else sat_mul fee FEE_RATE_UNIT_BYTES div virtual_size)"

definition miner_bounty_rate :: "('tx, 'z) tx_api_scheme \<Rightarrow> 'tx \<Rightarrow> mempool_error + u64" where
  "miner_bounty_rate P t =
     rbind (map_err Serialization (tx_virtual_size P t))
       (\<lambda>virtual_size. Inr (fee_rate (tx_block_miner_bounty P t) virtual_size))"

definition block_miner_output_count :: "('tx, 'z) tx_api_scheme \<Rightarrow> 'tx \<Rightarrow> nat" where
  "block_miner_output_count P t =
     (case tx_view P t of
        BatchTransfer _ outputs _ \<Rightarrow> length (filter (\<lambda>out. out_to out = BlockMiner) outputs)
      | QCash _ _ _ \<Rightarrow> 0)"

definition protocol_last_state :: "('tx, 'z) tx_api_scheme \<Rightarrow> 'tx \<Rightarrow> hash" where
  "protocol_last_state P t =
     (case tx_view P t of BatchTransfer _ _ last_state \<Rightarrow> last_state
      | QCash _ _ last_state \<Rightarrow> last_state)"

definition redeem_coin_ids :: "('tx, 'z) tx_api_scheme \<Rightarrow> 'tx \<Rightarrow> hash list" where
  "redeem_coin_ids P t =
     (case tx_view P t of
        QCash _ kind _ \<Rightarrow>
          (case kind of Redeem _ inputs \<Rightarrow> inputs | RecoverRedeem _ inputs \<Rightarrow> inputs
           | Withdraw _ \<Rightarrow> [])
      | BatchTransfer _ _ _ \<Rightarrow> [])"

definition apply_extension ::
  "('tx, 'ldg, 'z) ledger_api_scheme \<Rightarrow> 'ldg \<Rightarrow> 'tx \<Rightarrow> u64 \<Rightarrow> 'ldg \<times> (mempool_error + unit)" where
  "apply_extension P staged t height =
     (let (staged', r) =
        (case tx_view P t of
           BatchTransfer _ _ _ \<Rightarrow> apply_signed_transaction_at P staged t height
         | QCash _ _ _ \<Rightarrow> apply_signed_qcash_transaction P staged t height)
      in (staged', map_err InvalidLedgerState r))"

section \<open>Operations\<close>

definition mp_contains :: "'tx mempool \<Rightarrow> hash \<Rightarrow> bool" where
  "mp_contains mp h \<longleftrightarrow> bt_has (mp_transactions mp) h"

definition mp_get :: "'tx mempool \<Rightarrow> hash \<Rightarrow> 'tx option" where
  "mp_get mp h = bt_get (mp_transactions mp) h"

definition mp_values :: "'tx mempool \<Rightarrow> 'tx list" where
  "mp_values mp = map snd (mp_transactions mp)"

definition transactions_for_family ::
  "('tx, 'z) tx_api_scheme \<Rightarrow> 'tx mempool \<Rightarrow> transaction_family \<Rightarrow> 'tx list" where
  "transactions_for_family P mp family = filter (\<lambda>t. tx_family P t = family) (mp_values mp)"

fun release_coins :: "hash \<Rightarrow> hash list \<Rightarrow> (hash, hash) btree \<Rightarrow> (hash, hash) btree" where
  "release_coins h [] rc = rc"
| "release_coins h (c # cs) rc =
     release_coins h cs (if bt_get rc c = Some h then bt_remove c rc else rc)"

definition remove ::
  "('tx, 'z) tx_api_scheme \<Rightarrow> hash \<Rightarrow> 'tx mempool \<Rightarrow> 'tx mempool \<times> (mempool_error + 'tx option)" where
  "remove P h mp =
     (case bt_get (mp_transactions mp) h of
        None \<Rightarrow> (mp, Inr None)
      | Some t \<Rightarrow>
          (let mp1 = mp\<lparr>mp_transactions := bt_remove h (mp_transactions mp),
                        mp_inserted_at := bt_remove h (mp_inserted_at mp)\<rparr>
           in case tx_to_bytes P t of
                Inl e \<Rightarrow> (mp1, Inl (Serialization e))
              | Inr bs \<Rightarrow>
                  (mp1\<lparr>mp_total_bytes := sat_sub (mp_total_bytes mp) (of_nat (length bs)),
                       mp_by_signer_state :=
                         bt_remove (tx_signer P t, protocol_last_state P t) (mp_by_signer_state mp),
                       mp_reserved_coins :=
                         release_coins h (redeem_coin_ids P t) (mp_reserved_coins mp)\<rparr>,
                   Inr (Some t))))"

definition fee_candidates ::
  "('tx, 'z) tx_api_scheme \<Rightarrow> 'tx mempool \<Rightarrow> (hash \<times> u64 \<times> u64) list" where
  "fee_candidates P mp =
     List.map_filter
       (\<lambda>(h, t). case miner_bounty_rate P t of
          Inl _ \<Rightarrow> None
        | Inr rate \<Rightarrow>
            Some (h, rate, case bt_get (mp_inserted_at mp) h of None \<Rightarrow> 0 | Some at \<Rightarrow> at))
       (mp_transactions mp)"

definition lowest_fee_candidate ::
  "('tx, 'z) tx_api_scheme \<Rightarrow> 'tx mempool \<Rightarrow> (hash \<times> u64 \<times> u64) option" where
  "lowest_fee_candidate P mp = min_by_key (\<lambda>(h, rate, at). (rate, at, h)) (fee_candidates P mp)"

definition over_capacity :: "usize \<Rightarrow> 'tx mempool \<Rightarrow> bool" where
  "over_capacity incoming_size mp \<longleftrightarrow>
     unat (max_transactions (mp_config mp)) \<le> length (mp_transactions mp) \<or>
     max_bytes (mp_config mp) < sat_add (mp_total_bytes mp) incoming_size"

lemma fee_candidates_key:
  "(h, rate, at) \<in> set (fee_candidates P mp) \<Longrightarrow>
   \<exists>t. (h, t) \<in> set (mp_transactions mp) \<and> miner_bounty_rate P t = Inr rate"
  by (auto simp: fee_candidates_def map_filter_def split: sum.splits)

lemma lowest_fee_candidate_Some:
  assumes "lowest_fee_candidate P mp = Some (h, rate, at)"
  shows "\<exists>t. (h, t) \<in> set (mp_transactions mp) \<and> miner_bounty_rate P t = Inr rate"
  using min_by_key_Some [OF assms [unfolded lowest_fee_candidate_def]]
  by (blast intro: fee_candidates_key)

lemma remove_shrinks:
  assumes "remove P h mp = (mp', Inr r)" "(h, t) \<in> set (mp_transactions mp)"
  shows "length (mp_transactions mp') < length (mp_transactions mp)"
proof -
  have "bt_get (mp_transactions mp) h \<noteq> None"
    using weak_map_of_SomeI [OF assms(2)] by (auto simp: bt_get_def)
  with assms(1) have "mp_transactions mp' = bt_remove h (mp_transactions mp)"
    by (auto simp: remove_def Let_def split: sum.splits option.splits)
  then show ?thesis
    using length_bt_remove_less [OF assms(2)] by simp
qed

function evict_loop ::
  "('tx, 'z) tx_api_scheme \<Rightarrow> u64 \<Rightarrow> usize \<Rightarrow> 'tx mempool \<Rightarrow> 'tx mempool \<times> (mempool_error + unit)" where
  "evict_loop P incoming_rate incoming_size mp =
     (if over_capacity incoming_size mp then
        (case lowest_fee_candidate P mp of
           None \<Rightarrow> (mp, Inl MempoolFull)
         | Some (victim_hash, victim_rate, _) \<Rightarrow>
             if incoming_rate \<le> victim_rate then (mp, Inl FeeTooLow)
             else sbind (remove P victim_hash mp)
                    (\<lambda>mp' _. evict_loop P incoming_rate incoming_size mp'))
      else (mp, Inr ()))"
  by pat_completeness auto
termination
  by (relation "measure (\<lambda>(P, r, s, mp). length (mp_transactions mp))")
    (auto dest!: lowest_fee_candidate_Some intro: remove_shrinks)

declare evict_loop.simps [simp del]

definition evict_for_capacity ::
  "('tx, 'z) tx_api_scheme \<Rightarrow> 'tx \<Rightarrow> usize \<Rightarrow> 'tx mempool \<Rightarrow> 'tx mempool \<times> (mempool_error + unit)" where
  "evict_for_capacity P incoming incoming_size mp =
     (case miner_bounty_rate P incoming of
        Inl e \<Rightarrow> (mp, Inl e)
      | Inr incoming_rate \<Rightarrow> evict_loop P incoming_rate incoming_size mp)"

fun stage_pending ::
  "('tx, 'ldg, 'z) ledger_api_scheme \<Rightarrow> u64 \<Rightarrow> 'ldg \<Rightarrow> 'tx list \<Rightarrow> mempool_error + 'ldg" where
  "stage_pending P height staged [] = Inr staged"
| "stage_pending P height staged (t # ts) =
     (case apply_extension P staged t height of
        (_, Inl e) \<Rightarrow> Inl e
      | (staged', Inr _) \<Rightarrow> stage_pending P height staged' ts)"

definition next_height :: "u64 option \<Rightarrow> u64" where
  "next_height tip = (case tip of Some h \<Rightarrow> sat_add h 1 | None \<Rightarrow> 0)"

definition pending_order ::
  "('tx, 'z) tx_api_scheme \<Rightarrow> 'tx list \<Rightarrow> 'tx list" where
  "pending_order P = sort_key (\<lambda>t. (tx_signer P t, res_ok (tx_hash P t)))"

definition commit_insert ::
  "('tx, 'z) tx_api_scheme \<Rightarrow> u64 \<Rightarrow> hash \<Rightarrow> 'tx \<Rightarrow> usize \<Rightarrow> 'tx mempool \<Rightarrow> 'tx mempool" where
  "commit_insert P now h t transaction_size mp =
     mp\<lparr>mp_reserved_coins :=
          fold (\<lambda>c. bt_insert c h) (redeem_coin_ids P t) (mp_reserved_coins mp),
        mp_by_signer_state :=
          bt_insert (tx_signer P t, protocol_last_state P t) h (mp_by_signer_state mp),
        mp_transactions := bt_insert h t (mp_transactions mp),
        mp_inserted_at := bt_insert h now (mp_inserted_at mp),
        mp_total_bytes := sat_add (mp_total_bytes mp) transaction_size\<rparr>"

definition admit ::
  "('tx, 'ldg, 'z) ledger_api_scheme \<Rightarrow> u64 \<Rightarrow> 'ldg \<Rightarrow> hash \<Rightarrow> 'tx \<Rightarrow> usize \<Rightarrow> 'tx mempool \<Rightarrow>
   'tx mempool \<times> (mempool_error + hash)" where
  "admit P now ledger h t transaction_size mp =
     (if \<exists>c \<in> set (redeem_coin_ids P t). bt_has (mp_reserved_coins mp) c
      then (mp, Inl CashCoinReserved)
      else case stage_pending P (next_height (tip_height P ledger)) ledger
                  (pending_order P (mp_values mp @ [t])) of
         Inl e \<Rightarrow> (mp, Inl e)
       | Inr _ \<Rightarrow> (commit_insert P now h t transaction_size mp, Inr h))"

definition insert_validated ::
  "('tx, 'ldg, 'z) ledger_api_scheme \<Rightarrow> u64 \<Rightarrow> 'ldg \<Rightarrow> 'tx \<Rightarrow> 'tx mempool \<Rightarrow>
   'tx mempool \<times> (mempool_error + hash)" where
  "insert_validated P now ledger t mp =
     (case tx_to_bytes P t of
        Inl e \<Rightarrow> (mp, Inl (Serialization e))
      | Inr bs \<Rightarrow>
     if unat (max_bytes (mp_config mp)) < length bs then (mp, Inl MempoolFull)
     else case tx_hash P t of
        Inl e \<Rightarrow> (mp, Inl (Serialization e))
      | Inr h \<Rightarrow>
     if 1 < block_miner_output_count P t then (mp, Inl DuplicateBlockMinerFeeOutput)
     else if bt_has (mp_transactions mp) h
       \<or> bt_has (mp_by_signer_state mp) (tx_signer P t, protocol_last_state P t)
     then (mp, Inl DuplicateTransaction)
     else sbind (evict_for_capacity P t (of_nat (length bs)) mp)
            (\<lambda>mp1 _. admit P now ledger h t (of_nat (length bs)) mp1))"

fun remove_all ::
  "('tx, 'z) tx_api_scheme \<Rightarrow> hash list \<Rightarrow> 'tx mempool \<Rightarrow> 'tx mempool \<times> (mempool_error + unit)" where
  "remove_all P [] mp = (mp, Inr ())"
| "remove_all P (h # hs) mp = sbind (remove P h mp) (\<lambda>mp' _. remove_all P hs mp')"

definition expired_hashes :: "u64 \<Rightarrow> 'tx mempool \<Rightarrow> hash list" where
  "expired_hashes now mp =
     filter (\<lambda>h. sat_add (case bt_get (mp_inserted_at mp) h of None \<Rightarrow> now | Some at \<Rightarrow> at)
                   (transaction_ttl_secs (mp_config mp)) \<le> now)
       (map fst (mp_transactions mp))"

definition evict_by_policy ::
  "('tx, 'z) tx_api_scheme \<Rightarrow> u64 \<Rightarrow> 'tx mempool \<Rightarrow> 'tx mempool \<times> (mempool_error + nat)" where
  "evict_by_policy P now mp =
     (if transaction_ttl_secs (mp_config mp) = 0 then (mp, Inr 0)
      else sbind (remove_all P (expired_hashes now mp) mp)
             (\<lambda>mp' _. (mp', Inr (length (expired_hashes now mp)))))"

definition remove_confirmed ::
  "('tx, 'ldg, 'blk, 'z) block_api_scheme \<Rightarrow> 'blk \<Rightarrow> 'tx mempool \<Rightarrow>
   'tx mempool \<times> (mempool_error + unit)" where
  "remove_confirmed P block mp =
     (case map_res (tx_hash P) (blk_transactions P block) of
        Inl e \<Rightarrow> (mp, Inl (Serialization e))
      | Inr hashes \<Rightarrow> remove_all P (remdups (sort hashes)) mp)"

section \<open>The fee market\<close>

definition occupancy_bps :: "usize \<Rightarrow> usize \<Rightarrow> u64" where
  "occupancy_bps used capacity =
     (if capacity = 0 then 10000
      else ucast (min (sat_mul (ucast used :: u128) 10000 div ucast capacity) 10000))"

definition mempool_pressure_bps :: "'tx mempool \<Rightarrow> u64" where
  "mempool_pressure_bps mp =
     max (occupancy_bps (mp_total_bytes mp) (max_bytes (mp_config mp)))
         (occupancy_bps (of_nat (length (mp_transactions mp))) (max_transactions (mp_config mp)))"

fun clearing_scan :: "usize \<Rightarrow> usize \<Rightarrow> u64 \<Rightarrow> (u64 \<times> usize) list \<Rightarrow> u64" where
  "clearing_scan target accumulated last_rate [] = last_rate"
| "clearing_scan target accumulated last_rate ((rate, virtual_size) # es) =
     (if target \<le> sat_add accumulated virtual_size then rate
      else clearing_scan target (sat_add accumulated virtual_size) rate es)"

definition weighted_clearing_rate :: "(u64 \<times> usize) list \<Rightarrow> usize \<Rightarrow> u64 option" where
  "weighted_clearing_rate entries target_weight =
     (case entries of [] \<Rightarrow> None
      | (rate, _) # _ \<Rightarrow> Some (clearing_scan target_weight 0 rate entries))"

fun percentile_scan :: "usize \<Rightarrow> usize \<Rightarrow> (u64 \<times> usize) list \<Rightarrow> u64 option" where
  "percentile_scan target accumulated [] = None"
| "percentile_scan target accumulated ((rate, virtual_size) # es) =
     (if target \<le> sat_add accumulated virtual_size then Some rate
      else percentile_scan target (sat_add accumulated virtual_size) es)"

definition total_virtual_size :: "(u64 \<times> usize) list \<Rightarrow> usize" where
  "total_virtual_size entries = fold (\<lambda>(_, virtual_size) acc. sat_add acc virtual_size) entries 0"

definition percentile_target :: "usize \<Rightarrow> u64 \<Rightarrow> usize" where
  "percentile_target total_size percentile =
     ucast (max (sat_add (sat_mul (ucast total_size :: u128) (ucast percentile)) 99 div 100) 1)"

definition weighted_percentile_rate :: "(u64 \<times> usize) list \<Rightarrow> u64 \<Rightarrow> u64 option" where
  "weighted_percentile_rate entries percentile =
     (if entries = [] then None
      else if total_virtual_size entries = 0 then Some (fst (hd entries))
      else case percentile_scan (percentile_target (total_virtual_size entries) percentile) 0 entries of
             Some rate \<Rightarrow> Some rate
           | None \<Rightarrow> Some (fst (last entries)))"

definition market_entries :: "('tx, 'z) tx_api_scheme \<Rightarrow> 'tx mempool \<Rightarrow> (u64 \<times> usize) list" where
  "market_entries P mp =
     sort_key (\<lambda>(rate, _). - uint rate)
       (List.map_filter
         (\<lambda>t. case tx_virtual_size P t of
            Inl _ \<Rightarrow> None
          | Inr virtual_size \<Rightarrow>
              (case miner_bounty_rate P t of
                 Inl _ \<Rightarrow> None
               | Inr rate \<Rightarrow> Some (rate, virtual_size)))
         (mp_values mp))"

definition unwrap_or :: "'a option \<Rightarrow> 'a \<Rightarrow> 'a" where
  "unwrap_or opt d = (case opt of Some x \<Rightarrow> x | None \<Rightarrow> d)"

definition fee_market_snapshot ::
  "('tx, 'ldg, 'blk, 'z) block_api_scheme \<Rightarrow> 'tx mempool \<Rightarrow> fee_market_snapshot" where
  "fee_market_snapshot P mp =
     (let base_rate = max (market_fee (mp_config mp)) (min_relay_fee (mp_config mp));
          pressure_bps = mempool_pressure_bps mp;
          premium = sat_mul (sat_mul base_rate DYNAMIC_MARKET_FEE_MAX_MULTIPLIER) pressure_bps div 10000;
          pressure_rate = sat_add base_rate premium;
          entries = market_entries P mp;
          clearing = unwrap_or (weighted_clearing_rate entries (max_block_weight P)) base_rate;
          median = unwrap_or (weighted_percentile_rate entries 50) base_rate;
          p75 = unwrap_or (weighted_percentile_rate entries 75) base_rate;
          p90 = unwrap_or (weighted_percentile_rate entries 90) base_rate
      in \<lparr>snap_min_relay_fee_rate = min_relay_fee (mp_config mp),
          snap_configured_market_fee_rate = market_fee (mp_config mp),
          snap_recommended_fee_rate = max (max (max base_rate pressure_rate) clearing) p75,
          snap_pressure_bps = pressure_bps,
          snap_transaction_count = length (mp_transactions mp),
          snap_total_bytes = mp_total_bytes mp,
          snap_max_transactions = max_transactions (mp_config mp),
          snap_max_bytes = max_bytes (mp_config mp),
          snap_next_block_clearing_fee_rate = clearing,
          snap_median_fee_rate = median,
          snap_p75_fee_rate = p75,
          snap_p90_fee_rate = p90\<rparr>)"

definition dynamic_market_fee_rate ::
  "('tx, 'ldg, 'blk, 'z) block_api_scheme \<Rightarrow> 'tx mempool \<Rightarrow> u64" where
  "dynamic_market_fee_rate P mp = snap_recommended_fee_rate (fee_market_snapshot P mp)"

section \<open>Building a block\<close>

definition selection_order :: "('tx, 'z) tx_api_scheme \<Rightarrow> 'tx list \<Rightarrow> 'tx list" where
  "selection_order P =
     sort_key (\<lambda>t. (- uint (case miner_bounty_rate P t of Inl _ \<Rightarrow> 0 | Inr rate \<Rightarrow> rate),
                    tx_signer P t, res_ok (tx_hash P t)))"

text \<open>One pass of the \<open>for\<close> loop over \<open>remaining\<close>; the result holds \<open>staged\<close>, \<open>candidates\<close>,
  \<open>deferred\<close> and \<open>progressed\<close>.\<close>

fun select_pass ::
  "('tx, 'ldg, 'z) ledger_api_scheme \<Rightarrow> u64 \<Rightarrow> usize \<Rightarrow> u64 \<Rightarrow> 'tx list \<Rightarrow>
   'ldg \<Rightarrow> 'tx list \<Rightarrow> 'tx list \<Rightarrow> bool \<Rightarrow>
   mempool_error + ('ldg \<times> 'tx list \<times> 'tx list \<times> bool)" where
  "select_pass P height limit min_rate [] staged candidates deferred progressed =
     Inr (staged, candidates, deferred, progressed)"
| "select_pass P height limit min_rate (t # ts) staged candidates deferred progressed =
     (if length candidates = unat limit
      then select_pass P height limit min_rate ts staged candidates (deferred @ [t]) progressed
      else case miner_bounty_rate P t of
        Inl e \<Rightarrow> Inl e
      | Inr rate \<Rightarrow>
          if rate < min_rate
          then select_pass P height limit min_rate ts staged candidates deferred progressed
          else if \<not> tx_valid_at P t height
          then select_pass P height limit min_rate ts staged candidates deferred progressed
          else (case apply_extension P staged t height of
              (staged', Inl _) \<Rightarrow>
                select_pass P height limit min_rate ts staged' candidates deferred progressed
            | (staged', Inr _) \<Rightarrow>
                select_pass P height limit min_rate ts staged' (candidates @ [t]) deferred True))"

lemma select_pass_deferred:
  "select_pass P height limit min_rate ts staged cs ds pr = Inr (staged', cs', ds', pr') \<Longrightarrow>
   length ds' \<le> length ds + length ts \<and>
   (pr' \<longrightarrow> pr \<or> length ds' < length ds + length ts)"
  by (induction ts arbitrary: staged cs ds pr)
    (fastforce split: if_splits sum.splits prod.splits)+

function select_loop ::
  "('tx, 'ldg, 'z) ledger_api_scheme \<Rightarrow> u64 \<Rightarrow> usize \<Rightarrow> u64 \<Rightarrow> 'tx list \<Rightarrow>
   'ldg \<Rightarrow> 'tx list \<Rightarrow> mempool_error + 'tx list" where
  "select_loop P height limit min_rate remaining staged candidates =
     (if remaining \<noteq> [] \<and> length candidates < unat limit then
        rbind (select_pass P height limit min_rate remaining staged candidates [] False)
          (\<lambda>(staged', candidates', deferred, progressed).
             if \<not> progressed then Inr candidates'
             else select_loop P height limit min_rate deferred staged' candidates')
      else Inr candidates)"
  by pat_completeness auto
termination
  by (relation "measure (\<lambda>(P, h, l, m, remaining, s, c). length remaining)")
    (auto dest!: select_pass_deferred)

declare select_loop.simps [simp del]

definition select_for_block ::
  "('tx, 'ldg, 'z) ledger_api_scheme \<Rightarrow> 'ldg \<Rightarrow> u64 \<Rightarrow> usize \<Rightarrow> u64 \<Rightarrow> 'tx mempool \<Rightarrow>
   mempool_error + 'tx list" where
  "select_for_block P ledger height limit min_rate mp =
     select_loop P height limit min_rate (selection_order P (mp_values mp)) ledger []"

definition refresh_block_fees_and_commitments ::
  "('tx, 'ldg, 'blk, 'z) block_api_scheme \<Rightarrow> 'blk \<Rightarrow> 'blk \<times> (mempool_error + unit)" where
  "refresh_block_fees_and_commitments P block =
     (let (block', r) = blk_refresh_commitments P block in (block', map_err Serialization r))"

definition block_too_large ::
  "('tx, 'ldg, 'blk, 'z) block_api_scheme \<Rightarrow> 'blk \<Rightarrow> mempool_error + bool" where
  "block_too_large P block =
     rbind (map_err Serialization (blk_serialized_size P block)) (\<lambda>serialized_size.
       if max_block_size P < serialized_size then Inr True
       else rbind (map_err Serialization (blk_weight P block)) (\<lambda>weight.
         Inr (max_block_weight P < weight)))"

fun append_loop ::
  "('tx, 'ldg, 'blk, 'z) block_api_scheme \<Rightarrow> 'tx list \<Rightarrow> 'blk \<Rightarrow> 'blk \<times> (mempool_error + unit)" where
  "append_loop P [] block = refresh_block_fees_and_commitments P block"
| "append_loop P (t # ts) block =
     sbind (refresh_block_fees_and_commitments P
              (blk_set_transactions P (blk_transactions P block @ [t]) block)) (\<lambda>block1 _.
       case block_too_large P block1 of
         Inl e \<Rightarrow> (block1, Inl e)
       | Inr True \<Rightarrow>
           sbind (refresh_block_fees_and_commitments P
                    (blk_set_transactions P (butlast (blk_transactions P block1)) block1))
             (\<lambda>block2 _. append_loop P ts block2)
       | Inr False \<Rightarrow> append_loop P ts block1)"

definition append_selected_to_block ::
  "('tx, 'ldg, 'blk, 'z) block_api_scheme \<Rightarrow> 'ldg \<Rightarrow> usize \<Rightarrow> u64 \<Rightarrow> 'tx mempool \<Rightarrow> 'blk \<Rightarrow>
   'blk \<times> (mempool_error + unit)" where
  "append_selected_to_block P ledger transaction_limit min_fee_rate mp block =
     (case select_for_block P ledger (blk_height P block)
             (sat_sub transaction_limit (blk_transaction_count P block)) min_fee_rate mp of
        Inl e \<Rightarrow> (block, Inl e)
      | Inr selected \<Rightarrow> append_loop P selected block)"

section \<open>Invariant\<close>

text \<open>
  What \<open>mempool_ok\<close> promises of a pool: every key is the hash of its transaction, the signer
  index and the coin reservations are exactly those of the pooled transactions, the arrival
  times are kept for the same keys, and the byte counter is the sum of the encoded sizes and
  never above the configured limit.
\<close>

definition tx_size :: "('tx, 'z) tx_api_scheme \<Rightarrow> 'tx \<Rightarrow> nat" where
  "tx_size P t = (case tx_to_bytes P t of Inl _ \<Rightarrow> 0 | Inr bs \<Rightarrow> length bs)"

definition entry_ok :: "('tx, 'z) tx_api_scheme \<Rightarrow> hash \<Rightarrow> 'tx \<Rightarrow> bool" where
  "entry_ok P h t \<longleftrightarrow>
     tx_hash P t = Inr h \<and> (\<exists>bs. tx_to_bytes P t = Inr bs) \<and> block_miner_output_count P t \<le> 1"

definition indexed ::
  "('h::linorder, 'tx) btree \<Rightarrow> ('tx \<Rightarrow> 'k set) \<Rightarrow> ('k::linorder, 'h) btree \<Rightarrow> bool" where
  "indexed txs keys ix \<longleftrightarrow>
     bt_wf ix \<and> (\<forall>k h. bt_get ix k = Some h \<longleftrightarrow> (\<exists>t. bt_get txs h = Some t \<and> k \<in> keys t))"

definition mempool_ok :: "('tx, 'z) tx_api_scheme \<Rightarrow> 'tx mempool \<Rightarrow> bool" where
  "mempool_ok P mp \<longleftrightarrow>
     bt_wf (mp_transactions mp) \<and> bt_wf (mp_inserted_at mp) \<and>
     (\<forall>h t. bt_get (mp_transactions mp) h = Some t \<longrightarrow> entry_ok P h t) \<and>
     (\<forall>h. bt_has (mp_inserted_at mp) h \<longleftrightarrow> bt_has (mp_transactions mp) h) \<and>
     indexed (mp_transactions mp) (\<lambda>t. {(tx_signer P t, protocol_last_state P t)})
       (mp_by_signer_state mp) \<and>
     indexed (mp_transactions mp) (\<lambda>t. set (redeem_coin_ids P t)) (mp_reserved_coins mp) \<and>
     unat (mp_total_bytes mp) = sum_list (map (tx_size P \<circ> snd) (mp_transactions mp)) \<and>
     mp_total_bytes mp \<le> max_bytes (mp_config mp) \<and>
     length (mp_transactions mp) \<le> unat (max_transactions (mp_config mp))"

section \<open>The indexes\<close>

lemma bt_get_release_coins:
  "bt_get (release_coins h cs rc) k =
     (if k \<in> set cs \<and> bt_get rc k = Some h then None else bt_get rc k)"
  by (induction cs arbitrary: rc) auto

lemma bt_wf_release_coins [simp]: "bt_wf rc \<Longrightarrow> bt_wf (release_coins h cs rc)"
  by (induction cs arbitrary: rc) auto

lemma bt_get_fold_insert:
  "bt_get (fold (\<lambda>c. bt_insert c h) cs rc) k = (if k \<in> set cs then Some h else bt_get rc k)"
  by (induction cs arbitrary: rc) auto

lemma bt_wf_fold_insert [simp]: "bt_wf rc \<Longrightarrow> bt_wf (fold (\<lambda>c. bt_insert c h) cs rc)"
  by (induction cs arbitrary: rc) auto

lemma indexed_lookup:
  "indexed txs keys ix \<Longrightarrow> bt_get txs h = Some t \<Longrightarrow> k \<in> keys t \<Longrightarrow> bt_get ix k = Some h"
  unfolding indexed_def by blast

lemma indexed_disjoint:
  assumes "indexed txs keys ix" "bt_get txs g = Some t" "bt_get txs h = Some u" "g \<noteq> h"
  shows "keys t \<inter> keys u = {}"
  using indexed_lookup [OF assms(1)] assms(2-4) by (metis disjoint_iff option.inject)

lemma indexed_remove:
  assumes "indexed txs keys ix" "bt_get txs h = Some t" "bt_wf ix'"
    and "\<And>k. bt_get ix' k = (if k \<in> keys t then None else bt_get ix k)"
  shows "indexed (bt_remove h txs) keys ix'"
  unfolding indexed_def
proof (intro conjI allI)
  fix k g
  show "bt_get ix' k = Some g \<longleftrightarrow> (\<exists>t. bt_get (bt_remove h txs) g = Some t \<and> k \<in> keys t)"
  proof (cases "k \<in> keys t")
    case True
    then have "bt_get txs g = Some u \<and> k \<in> keys u \<Longrightarrow> g = h" for u
      using indexed_lookup [OF assms(1)] assms(2) by (metis option.inject)
    with True assms(4) show ?thesis by auto
  next
    case False
    with assms(1,2,4) show ?thesis unfolding indexed_def by auto
  qed
qed (fact assms(3))

lemma indexed_insert:
  assumes "indexed txs keys ix" "bt_get txs h = None" "bt_wf ix'"
    and "\<And>k. bt_get ix' k = (if k \<in> keys t then Some h else bt_get ix k)"
    and "\<And>k. k \<in> keys t \<Longrightarrow> bt_get ix k = None"
  shows "indexed (bt_insert h t txs) keys ix'"
  unfolding indexed_def
proof (intro conjI allI)
  fix k g
  show "bt_get ix' k = Some g \<longleftrightarrow>
    (\<exists>u. bt_get (bt_insert h t txs) g = Some u \<and> k \<in> keys u)"
  proof (cases "k \<in> keys t")
    case True
    then have "\<not> (\<exists>u. bt_get txs g = Some u \<and> k \<in> keys u)"
      using assms(1,5) unfolding indexed_def by (metis option.distinct(1))
    with True assms(4) show ?thesis by auto
  next
    case False
    with assms(1,2,4) show ?thesis unfolding indexed_def by auto
  qed
qed (fact assms(3))

section \<open>Every operation keeps the invariant\<close>

lemma mempool_okD:
  assumes "mempool_ok P mp"
  shows "bt_wf (mp_transactions mp)" "bt_wf (mp_inserted_at mp)"
    and "\<And>h t. bt_get (mp_transactions mp) h = Some t \<Longrightarrow> entry_ok P h t"
    and "\<And>h. bt_has (mp_inserted_at mp) h \<longleftrightarrow> bt_has (mp_transactions mp) h"
    and "indexed (mp_transactions mp) (\<lambda>t. {(tx_signer P t, protocol_last_state P t)})
           (mp_by_signer_state mp)"
    and "indexed (mp_transactions mp) (\<lambda>t. set (redeem_coin_ids P t)) (mp_reserved_coins mp)"
    and "unat (mp_total_bytes mp) = sum_list (map (tx_size P \<circ> snd) (mp_transactions mp))"
    and "mp_total_bytes mp \<le> max_bytes (mp_config mp)"
    and "length (mp_transactions mp) \<le> unat (max_transactions (mp_config mp))"
  using assms unfolding mempool_ok_def by auto

lemma mempool_ok_bytes:
  "mempool_ok P mp \<Longrightarrow> bt_get (mp_transactions mp) h = Some t \<Longrightarrow>
   tx_to_bytes P t = Inr bs \<Longrightarrow> length bs \<le> unat (mp_total_bytes mp)"
  using mempool_okD(7) [of P mp] bt.sum_remove [of "mp_transactions mp" h t "tx_size P \<circ> snd"]
    mempool_okD(1) [of P mp]
  by (simp add: tx_size_def)

lemma remove_Some:
  assumes "mempool_ok P mp" "bt_get (mp_transactions mp) h = Some t" "tx_to_bytes P t = Inr bs"
  defines "mp' \<equiv> mp\<lparr>mp_transactions := bt_remove h (mp_transactions mp),
    mp_inserted_at := bt_remove h (mp_inserted_at mp),
    mp_total_bytes := sat_sub (mp_total_bytes mp) (of_nat (length bs)),
    mp_by_signer_state :=
      bt_remove (tx_signer P t, protocol_last_state P t) (mp_by_signer_state mp),
    mp_reserved_coins := release_coins h (redeem_coin_ids P t) (mp_reserved_coins mp)\<rparr>"
  shows "remove P h mp = (mp', Inr (Some t))" and "mempool_ok P mp'"
proof -
  note ok = mempool_okD [OF assms(1)]
  show "remove P h mp = (mp', Inr (Some t))"
    using assms(2,3) by (simp add: remove_def mp'_def)
  have le: "length bs \<le> unat (mp_total_bytes mp)"
    using mempool_ok_bytes [OF assms(1-3)] .
  then have small: "length bs < 2 ^ 64"
    using u64_less [of "mp_total_bytes mp"] by linarith
  have sub: "unat (sat_sub (mp_total_bytes mp) (of_nat (length bs))) =
      unat (mp_total_bytes mp) - length bs"
    using small by (simp add: wsimps unat_of_nat)
  have sum: "unat (mp_total_bytes mp) =
      length bs + sum_list (map (tx_size P \<circ> snd) (bt_remove h (mp_transactions mp)))"
    using ok(7) bt.sum_remove [OF ok(1) assms(2), of "tx_size P \<circ> snd"] assms(3)
    by (simp add: tx_size_def)
  have "indexed (bt_remove h (mp_transactions mp))
      (\<lambda>t. {(tx_signer P t, protocol_last_state P t)}) (mp_by_signer_state mp')"
    by (rule indexed_remove [OF ok(5) assms(2)]) (use ok(5) in \<open>simp_all add: mp'_def indexed_def\<close>)
  moreover have "indexed (bt_remove h (mp_transactions mp))
      (\<lambda>t. set (redeem_coin_ids P t)) (mp_reserved_coins mp')"
    by (rule indexed_remove [OF ok(6) assms(2)])
      (use ok(6) indexed_lookup [OF ok(6) assms(2)] in
        \<open>simp_all add: mp'_def bt_get_release_coins indexed_def\<close>)
  moreover have "mp_total_bytes mp' \<le> max_bytes (mp_config mp)"
    using ok(8) sub by (simp add: mp'_def word_le_nat_alt)
  ultimately show "mempool_ok P mp'"
    using ok sub sum bt.length_remove_le [OF ok(1), of h]
    by (auto simp: mempool_ok_def mp'_def bt_has_def)
qed

lemma remove_outcome:
  assumes "mempool_ok P mp"
  obtains "bt_get (mp_transactions mp) h = None" "remove P h mp = (mp, Inr None)"
  | t mp' where "bt_get (mp_transactions mp) h = Some t" "remove P h mp = (mp', Inr (Some t))"
      "mempool_ok P mp'" "mp_transactions mp' = bt_remove h (mp_transactions mp)"
      "mp_config mp' = mp_config mp"
proof (cases "bt_get (mp_transactions mp) h")
  case None
  then show ?thesis using that(1) by (simp add: remove_def)
next
  case (Some t)
  then obtain bs where bs: "tx_to_bytes P t = Inr bs"
    using mempool_okD(3) [OF assms] by (auto simp: entry_ok_def)
  show ?thesis
    by (rule that(2) [OF Some remove_Some [OF assms Some bs]]) simp_all
qed

lemma remove_ok: "mempool_ok P mp \<Longrightarrow> mempool_ok P (fst (remove P h mp))"
  by (rule remove_outcome [of P mp h]) simp_all

lemma remove_all_ok:
  assumes "mempool_ok P mp"
  shows "\<exists>mp'. remove_all P hs mp = (mp', Inr ()) \<and> mempool_ok P mp' \<and>
    mp_config mp' = mp_config mp \<and>
    (\<forall>h. bt_get (mp_transactions mp') h =
       (if h \<in> set hs then None else bt_get (mp_transactions mp) h))"
  using assms
proof (induction hs arbitrary: mp)
  case (Cons h hs)
  show ?case
  proof (rule remove_outcome [OF Cons.prems, of h])
    assume "bt_get (mp_transactions mp) h = None" "remove P h mp = (mp, Inr None)"
    then show ?thesis using Cons.IH [OF Cons.prems] by auto
  next
    fix t mp1
    assume "remove P h mp = (mp1, Inr (Some t))" "mempool_ok P mp1"
      "mp_transactions mp1 = bt_remove h (mp_transactions mp)" "mp_config mp1 = mp_config mp"
    then show ?thesis using Cons.IH [of mp1] by auto
  qed
qed simp

text \<open>What the eviction loop leaves: a pool that is still well formed, has only lost entries,
  and has lost only entries that pay less than the incoming transaction.\<close>

definition evicted_below ::
  "('tx, 'z) tx_api_scheme \<Rightarrow> u64 \<Rightarrow> (hash, 'tx) btree \<Rightarrow> (hash, 'tx) btree \<Rightarrow> bool" where
  "evicted_below P rate txs txs' \<longleftrightarrow>
     (\<forall>h t. bt_get txs h = Some t \<longrightarrow>
        bt_get txs' h = Some t \<or>
        (bt_get txs' h = None \<and> (\<exists>r. miner_bounty_rate P t = Inr r \<and> r < rate))) \<and>
     (\<forall>h. bt_get txs h = None \<longrightarrow> bt_get txs' h = None)"

lemma evicted_below_refl: "evicted_below P rate txs txs"
  by (simp add: evicted_below_def)

lemma evicted_below_step:
  assumes "evicted_below P rate (bt_remove h txs) txs'" "bt_get txs h = Some t"
    and "miner_bounty_rate P t = Inr r" "r < rate"
  shows "evicted_below P rate txs txs'"
proof -
  have None: "bt_get txs' h = None"
    using assms(1) by (simp add: evicted_below_def)
  show ?thesis
    unfolding evicted_below_def
  proof (intro conjI allI impI)
    fix g u
    assume "bt_get txs g = Some u"
    then show "bt_get txs' g = Some u \<or>
        (bt_get txs' g = None \<and> (\<exists>r. miner_bounty_rate P u = Inr r \<and> r < rate))"
      using assms None by (cases "g = h") (auto simp: evicted_below_def)
  next
    fix g
    assume "bt_get txs g = None"
    then show "bt_get txs' g = None"
      using assms(1) by (simp add: evicted_below_def)
  qed
qed

lemma evict_loop_ok:
  assumes "mempool_ok P mp"
  shows "mempool_ok P (fst (evict_loop P rate sz mp)) \<and>
    mp_config (fst (evict_loop P rate sz mp)) = mp_config mp \<and>
    evicted_below P rate (mp_transactions mp) (mp_transactions (fst (evict_loop P rate sz mp))) \<and>
    (snd (evict_loop P rate sz mp) = Inr () \<longrightarrow>
       \<not> over_capacity sz (fst (evict_loop P rate sz mp)))"
  using assms
proof (induction P rate sz mp rule: evict_loop.induct)
  case (1 P rate sz mp)
  note unroll = evict_loop.simps [of P rate sz mp]
  show ?case
  proof (cases "over_capacity sz mp")
    case over: True
    show ?thesis
    proof (cases "lowest_fee_candidate P mp")
      case None
      with over unroll "1.prems" show ?thesis by (simp add: evicted_below_refl)
    next
      case (Some victim)
      obtain vh vr va where v: "victim = (vh, vr, va)" by (cases victim)
      obtain t where "(vh, t) \<in> set (mp_transactions mp)" and r: "miner_bounty_rate P t = Inr vr"
        using lowest_fee_candidate_Some Some v by blast
      then have get: "bt_get (mp_transactions mp) vh = Some t"
        using bt_get_entries [OF mempool_okD(1) [OF "1.prems"]] by blast
      show ?thesis
      proof (cases "rate \<le> vr")
        case True
        with over Some v unroll "1.prems" show ?thesis by (simp add: evicted_below_refl)
      next
        case False
        obtain mp1 where mp1: "remove P vh mp = (mp1, Inr (Some t))" "mempool_ok P mp1"
          "mp_transactions mp1 = bt_remove vh (mp_transactions mp)" "mp_config mp1 = mp_config mp"
          using remove_outcome [OF "1.prems", of vh] get by (metis option.distinct(1) option.inject)
        have "evict_loop P rate sz mp = evict_loop P rate sz mp1"
          using over Some v False mp1 unroll by simp
        then show ?thesis
          using "1.IH" [OF over Some v [symmetric] refl False mp1(1,2)] mp1(3,4)
            evicted_below_step [OF _ get r] False
          by (simp add: not_le)
      qed
    qed
  next
    case False
    with unroll "1.prems" show ?thesis by (simp add: evicted_below_refl)
  qed
qed

lemma sat_add_not_over:
  assumes "sat_add a b \<le> (c :: u64)" "c \<noteq> - 1"
  shows "unat (sat_add a b) = unat a + unat b"
proof -
  have "sat_add a b \<noteq> - 1" using assms by (metis antisym word_order.extremum)
  then show ?thesis by (auto simp: sat_add_nat unat_word_ariths)
qed

lemma commit_insert_ok:
  assumes ok: "mempool_ok P mp" and room: "\<not> over_capacity (of_nat (length bs)) mp"
    and tx: "tx_to_bytes P t = Inr bs" "tx_hash P t = Inr h" "block_miner_output_count P t \<le> 1"
    and len: "length bs \<le> unat (max_bytes (mp_config mp))"
    and cfg: "max_bytes (mp_config mp) \<noteq> - 1"
    and fresh: "bt_get (mp_transactions mp) h = None"
      "bt_get (mp_by_signer_state mp) (tx_signer P t, protocol_last_state P t) = None"
      "\<And>c. c \<in> set (redeem_coin_ids P t) \<Longrightarrow> bt_get (mp_reserved_coins mp) c = None"
  shows "mempool_ok P (commit_insert P now h t (of_nat (length bs)) mp)"
    (is "mempool_ok P ?mp'")
proof -
  note inv = mempool_okD [OF ok]
  have sz: "unat (of_nat (length bs) :: usize) = length bs"
    using len u64_less [of "max_bytes (mp_config mp)"] by (simp add: unat_of_nat)
  have le: "sat_add (mp_total_bytes mp) (of_nat (length bs)) \<le> max_bytes (mp_config mp)"
    using room by (simp add: over_capacity_def not_less)
  have sum: "unat (sat_add (mp_total_bytes mp) (of_nat (length bs))) =
      sum_list (map (tx_size P \<circ> snd) (bt_insert h t (mp_transactions mp)))"
    using sat_add_not_over [OF le cfg] sz inv(7) tx(1)
      bt.sum_insert_fresh [OF inv(1) fresh(1), of "tx_size P \<circ> snd" t]
    by (simp add: tx_size_def)
  have "indexed (bt_insert h t (mp_transactions mp))
      (\<lambda>t. {(tx_signer P t, protocol_last_state P t)}) (mp_by_signer_state ?mp')"
    by (rule indexed_insert [OF inv(5) fresh(1)])
      (use inv(5) fresh(2) in \<open>simp_all add: commit_insert_def indexed_def\<close>)
  moreover have "indexed (bt_insert h t (mp_transactions mp))
      (\<lambda>t. set (redeem_coin_ids P t)) (mp_reserved_coins ?mp')"
    by (rule indexed_insert [OF inv(6) fresh(1)])
      (use inv(6) fresh(3) in \<open>simp_all add: commit_insert_def bt_get_fold_insert indexed_def\<close>)
  moreover have "length (bt_insert h t (mp_transactions mp)) \<le> unat (max_transactions (mp_config mp))"
    using bt.length_insert_fresh [OF inv(1) fresh(1), of t] room by (simp add: over_capacity_def)
  ultimately show ?thesis
    using inv le sum tx
    by (auto simp: mempool_ok_def commit_insert_def bt_has_def entry_ok_def)
qed

lemma evict_for_capacity_ok:
  assumes "mempool_ok P mp"
  shows "mempool_ok P (fst (evict_for_capacity P t sz mp)) \<and>
    mp_config (fst (evict_for_capacity P t sz mp)) = mp_config mp"
  using assms evict_loop_ok [OF assms] by (simp add: evict_for_capacity_def split: sum.splits)

lemma evict_for_capacity_Inr:
  assumes "mempool_ok P mp" "evict_for_capacity P t sz mp = (mp1, Inr u)"
  obtains rate where "miner_bounty_rate P t = Inr rate" "mempool_ok P mp1"
    "mp_config mp1 = mp_config mp" "\<not> over_capacity sz mp1"
    "evicted_below P rate (mp_transactions mp) (mp_transactions mp1)"
proof (cases "miner_bounty_rate P t")
  case (Inr rate)
  with assms(2) have "evict_loop P rate sz mp = (mp1, Inr ())"
    by (simp add: evict_for_capacity_def)
  with evict_loop_ok [OF assms(1), of rate sz] Inr that show ?thesis by simp
qed (use assms(2) in \<open>simp add: evict_for_capacity_def\<close>)

text \<open>A signer state or a coin that no pooled transaction holds stays free under eviction.\<close>

lemma indexed_None_mono:
  assumes "indexed txs keys ix" "indexed txs' keys ix'" "bt_get ix k = None"
    and "\<And>h t. bt_get txs' h = Some t \<Longrightarrow> bt_get txs h = Some t"
  shows "bt_get ix' k = None"
proof (rule ccontr)
  assume "bt_get ix' k \<noteq> None"
  then obtain h t where "bt_get txs' h = Some t" "k \<in> keys t"
    using assms(2) unfolding indexed_def by blast
  then have "bt_get ix k = Some h"
    using indexed_lookup [OF assms(1)] assms(4) by blast
  with assms(3) show False by simp
qed

lemma evicted_below_sub:
  "evicted_below P rate txs txs' \<Longrightarrow> bt_get txs' h = Some t \<Longrightarrow> bt_get txs h = Some t"
  unfolding evicted_below_def by (metis not_None_eq option.inject)

lemma admit_Inl: "admit P now ledger h t sz mp = (mp', Inl e) \<Longrightarrow> mp' = mp"
  by (auto simp: admit_def split: sum.splits if_splits)

lemma admit_Inr:
  "admit P now ledger h t sz mp = (mp', Inr g) \<Longrightarrow>
   g = h \<and> (\<forall>c \<in> set (redeem_coin_ids P t). bt_get (mp_reserved_coins mp) c = None) \<and>
   (\<exists>staged. stage_pending P (next_height (tip_height P ledger)) ledger
      (pending_order P (mp_values mp @ [t])) = Inr staged) \<and>
   mp' = commit_insert P now h t sz mp"
  by (auto simp: admit_def bt_has_def split: sum.splits if_splits)

lemma insert_validated_Inl:
  assumes "insert_validated P now ledger t mp = (mp', Inl e)"
  shows "mp' = mp \<or> (\<exists>bs. tx_to_bytes P t = Inr bs \<and>
    mp' = fst (evict_for_capacity P t (of_nat (length bs)) mp))"
  using assms
  by (auto simp: insert_validated_def sbind_Inl_iff split: sum.splits if_splits dest!: admit_Inl)

lemma insert_validated_Inr:
  assumes "insert_validated P now ledger t mp = (mp', Inr h)"
  obtains bs mp1 where "tx_to_bytes P t = Inr bs" "tx_hash P t = Inr h"
    "block_miner_output_count P t \<le> 1" "length bs \<le> unat (max_bytes (mp_config mp))"
    "bt_get (mp_transactions mp) h = None"
    "bt_get (mp_by_signer_state mp) (tx_signer P t, protocol_last_state P t) = None"
    "evict_for_capacity P t (of_nat (length bs)) mp = (mp1, Inr ())"
    "\<And>c. c \<in> set (redeem_coin_ids P t) \<Longrightarrow> bt_get (mp_reserved_coins mp1) c = None"
    "\<exists>staged. stage_pending P (next_height (tip_height P ledger)) ledger
       (pending_order P (mp_values mp1 @ [t])) = Inr staged"
    "mp' = commit_insert P now h t (of_nat (length bs)) mp1"
  using assms
  by (auto simp: insert_validated_def bt_has_def sbind_Inr_iff not_less
      split: sum.splits if_splits dest!: admit_Inr)

lemma insert_validated_ok:
  assumes ok: "mempool_ok P mp" and cfg: "max_bytes (mp_config mp) \<noteq> - 1"
  shows "mempool_ok P (fst (insert_validated P now ledger t mp)) \<and>
    mp_config (fst (insert_validated P now ledger t mp)) = mp_config mp"
proof (cases "insert_validated P now ledger t mp")
  case (Pair mp' r)
  show ?thesis
  proof (cases r)
    case (Inl e)
    with Pair show ?thesis
      using insert_validated_Inl [of P now ledger t mp mp' e] ok evict_for_capacity_ok [OF ok]
      by auto
  next
    case (Inr h)
    with Pair have "insert_validated P now ledger t mp = (mp', Inr h)" by simp
    then obtain bs mp1 where 3: "tx_to_bytes P t = Inr bs" "tx_hash P t = Inr h"
      "block_miner_output_count P t \<le> 1" "length bs \<le> unat (max_bytes (mp_config mp))"
      "bt_get (mp_transactions mp) h = None"
      "bt_get (mp_by_signer_state mp) (tx_signer P t, protocol_last_state P t) = None"
      "evict_for_capacity P t (of_nat (length bs)) mp = (mp1, Inr ())"
      "\<And>c. c \<in> set (redeem_coin_ids P t) \<Longrightarrow> bt_get (mp_reserved_coins mp1) c = None"
      "mp' = commit_insert P now h t (of_nat (length bs)) mp1"
      by (rule insert_validated_Inr) blast
    obtain rate where mp1: "mempool_ok P mp1" "mp_config mp1 = mp_config mp"
      "\<not> over_capacity (of_nat (length bs)) mp1"
      and below: "evicted_below P rate (mp_transactions mp) (mp_transactions mp1)"
      by (rule evict_for_capacity_Inr [OF ok 3(7)])
    have "bt_get (mp_by_signer_state mp1) (tx_signer P t, protocol_last_state P t) = None"
      using indexed_None_mono [OF mempool_okD(5) [OF ok] mempool_okD(5) [OF mp1(1)] 3(6)]
        evicted_below_sub [OF below] by blast
    moreover have "bt_get (mp_transactions mp1) h = None"
      using below 3(5) by (simp add: evicted_below_def)
    ultimately have "mempool_ok P mp'"
      using commit_insert_ok [OF mp1(1,3) 3(1-3)] 3(4,8,9) mp1(2) cfg by simp
    then show ?thesis using mp1(2) 3(9) Pair by (simp add: commit_insert_def)
  qed
qed

section \<open>Selection is one greedy pass\<close>

fun greedy ::
  "('tx, 'ldg, 'z) ledger_api_scheme \<Rightarrow> u64 \<Rightarrow> u64 \<Rightarrow> 'tx list \<Rightarrow> 'ldg \<Rightarrow> nat \<Rightarrow>
   mempool_error + 'tx list" where
  "greedy P height min_rate [] staged slots = Inr []"
| "greedy P height min_rate (t # ts) staged slots =
     (if slots = 0 then Inr []
      else case miner_bounty_rate P t of
        Inl e \<Rightarrow> Inl e
      | Inr rate \<Rightarrow>
          if rate < min_rate \<or> \<not> tx_valid_at P t height
          then greedy P height min_rate ts staged slots
          else (case apply_extension P staged t height of
              (staged', Inl _) \<Rightarrow> greedy P height min_rate ts staged' slots
            | (staged', Inr _) \<Rightarrow>
                rbind (greedy P height min_rate ts staged' (slots - 1)) (\<lambda>xs. Inr (t # xs))))"

lemma select_pass_full:
  "length cs = unat limit \<Longrightarrow>
   select_pass P height limit min_rate ts staged cs ds pr = Inr (staged, cs, ds @ ts, pr)"
  by (induction ts arbitrary: ds) simp_all

lemma greedy_no_slots: "greedy P height min_rate ts staged 0 = Inr []"
  by (cases ts) simp_all

lemma select_pass_greedy:
  assumes "length cs \<le> unat limit"
  shows "case greedy P height min_rate ts staged (unat limit - length cs) of
      Inl e \<Rightarrow> select_pass P height limit min_rate ts staged cs ds pr = Inl e
    | Inr xs \<Rightarrow> length (cs @ xs) \<le> unat limit \<and>
        (\<exists>staged' ds'. select_pass P height limit min_rate ts staged cs ds pr =
             Inr (staged', cs @ xs, ds', pr \<or> xs \<noteq> []) \<and>
           (length (cs @ xs) < unat limit \<longrightarrow> ds' = ds))"
  using assms
proof (induction ts arbitrary: staged cs ds pr)
  case (Cons t ts)
  show ?case
  proof (cases "length cs = unat limit")
    case True
    then show ?thesis by (simp add: select_pass_full)
  next
    case False
    with Cons.prems have less: "length cs < unat limit" by simp
    then have next_le: "length (cs @ [t]) \<le> unat limit" by simp
    show ?thesis
    proof (cases "miner_bounty_rate P t")
      case (Inl e)
      with less show ?thesis by simp
    next
      case rate: (Inr r)
      show ?thesis
      proof (cases "r < min_rate \<or> \<not> tx_valid_at P t height")
        case True
        then have "select_pass P height limit min_rate (t # ts) staged cs ds pr =
            select_pass P height limit min_rate ts staged cs ds pr"
          "greedy P height min_rate (t # ts) staged (unat limit - length cs) =
            greedy P height min_rate ts staged (unat limit - length cs)"
          using rate less by auto
        then show ?thesis using Cons.IH [OF Cons.prems, of staged ds pr] by (simp only:)
      next
        case fits: False
        obtain st' ar where ap: "apply_extension P staged t height = (st', ar)"
          by (cases "apply_extension P staged t height")
        show ?thesis
        proof (cases ar)
          case (Inl e)
          then have "select_pass P height limit min_rate (t # ts) staged cs ds pr =
              select_pass P height limit min_rate ts st' cs ds pr"
            "greedy P height min_rate (t # ts) staged (unat limit - length cs) =
              greedy P height min_rate ts st' (unat limit - length cs)"
            using rate less fits ap by auto
          then show ?thesis using Cons.IH [OF Cons.prems, of st' ds pr] by (simp only:)
        next
          case (Inr u)
          then have "select_pass P height limit min_rate (t # ts) staged cs ds pr =
              select_pass P height limit min_rate ts st' (cs @ [t]) ds True"
            "greedy P height min_rate (t # ts) staged (unat limit - length cs) =
              rbind (greedy P height min_rate ts st' (unat limit - length (cs @ [t])))
                (\<lambda>xs. Inr (t # xs))"
            using rate less fits ap by auto
          then show ?thesis using Cons.IH [OF next_le, of st' ds True]
            by (cases "greedy P height min_rate ts st' (unat limit - length (cs @ [t]))") auto
        qed
      qed
    qed
  qed
qed simp

lemma select_loop_greedy:
  "select_loop P height limit min_rate ts staged [] = greedy P height min_rate ts staged (unat limit)"
proof (cases "ts \<noteq> [] \<and> 0 < unat limit")
  case True
  then have run: "select_loop P height limit min_rate ts staged [] =
      rbind (select_pass P height limit min_rate ts staged [] [] False)
        (\<lambda>(staged', cs, ds, pr). if \<not> pr then Inr cs
           else select_loop P height limit min_rate ds staged' cs)"
    by (subst select_loop.simps) simp
  have stop: "select_loop P height limit min_rate ds st cs = Inr cs"
    if "length cs < unat limit \<longrightarrow> ds = []" for ds st cs
    using that by (subst select_loop.simps) auto
  show ?thesis
    using select_pass_greedy [of "[]" limit P height min_rate ts staged "[]" False] stop
    by (cases "greedy P height min_rate ts staged (unat limit)") (auto simp: run)
next
  case False
  then show ?thesis
    by (subst select_loop.simps) (auto simp: greedy_no_slots)
qed

lemma greedy_Cons_Inr:
  assumes "greedy P height min_rate (t # ts) staged slots = Inr xs"
  shows "xs = [] \<or> (\<exists>st. greedy P height min_rate ts st slots = Inr xs) \<or>
    (\<exists>st ys r. greedy P height min_rate ts st (slots - 1) = Inr ys \<and> xs = t # ys \<and> slots \<noteq> 0 \<and>
       tx_valid_at P t height \<and> miner_bounty_rate P t = Inr r \<and> min_rate \<le> r)"
proof (cases "slots = 0")
  case False
  obtain st' ar where ap: "apply_extension P staged t height = (st', ar)"
    by (cases "apply_extension P staged t height")
  show ?thesis
  proof (cases "miner_bounty_rate P t")
    case (Inr r)
    show ?thesis
    proof (cases "(r < min_rate \<or> \<not> tx_valid_at P t height) \<or> isl ar")
      case True
      then have "greedy P height min_rate ts staged slots = Inr xs \<or>
          greedy P height min_rate ts st' slots = Inr xs"
        using assms False Inr ap by (cases ar) (simp_all split: if_splits)
      then show ?thesis by blast
    next
      case fits: False
      then obtain u where "ar = Inr u" by (cases ar) auto
      with fits assms False Inr ap have "rbind (greedy P height min_rate ts st' (slots - 1))
          (\<lambda>xs. Inr (t # xs)) = Inr xs"
        by simp
      then show ?thesis using fits False Inr by (auto simp: rbind_Inr_iff not_less)
    qed
  qed (use assms False in simp)
qed (use assms in simp)

lemma greedy_Inr:
  assumes "greedy P height min_rate ts staged slots = Inr xs"
  shows "subseq xs ts \<and> length xs \<le> slots \<and>
    (\<forall>t \<in> set xs. tx_valid_at P t height \<and> (\<exists>r. miner_bounty_rate P t = Inr r \<and> min_rate \<le> r))"
  using assms
proof (induction ts arbitrary: staged slots xs)
  case (Cons t ts)
  consider "xs = []"
    | st where "greedy P height min_rate ts st slots = Inr xs"
    | st ys r where "greedy P height min_rate ts st (slots - 1) = Inr ys" "xs = t # ys"
        "slots \<noteq> 0" "tx_valid_at P t height" "miner_bounty_rate P t = Inr r" "min_rate \<le> r"
    using greedy_Cons_Inr [OF Cons.prems] by blast
  then show ?case
  proof cases
    case 2
    then show ?thesis using Cons.IH [OF 2] by (blast intro: list_emb.intros)
  next
    case (3 st ys r)
    then show ?thesis using Cons.IH [OF 3(1)] by auto
  qed simp
qed simp

section \<open>Fee rates\<close>

lemma occupancy_bps_le: "occupancy_bps used capacity \<le> 10000"
proof (cases "capacity = 0")
  case False
  let ?q = "min (sat_mul (ucast used :: u128) 10000 div ucast capacity) 10000"
  have "unat ?q \<le> 10000"
    using word_le_nat_alt [of ?q 10000] by simp
  then show ?thesis
    using False unat_u128_u64 [of ?q] by (simp add: occupancy_bps_def word_le_nat_alt)
qed (simp add: occupancy_bps_def)

lemma mempool_pressure_bps_le: "mempool_pressure_bps mp \<le> 10000"
  by (simp add: mempool_pressure_bps_def occupancy_bps_le)

lemma percentile_target_mono:
  assumes "p \<le> q" "q \<le> 100"
  shows "percentile_target n p \<le> percentile_target n q"
proof -
  have q: "unat q \<le> 100" and pq: "unat p \<le> unat q"
    using assms by (simp_all add: word_le_nat_alt)
  have cap: "unat n * unat r + 99 < 2 ^ 128" if "unat r \<le> 100" for r :: u64
  proof -
    have "unat n * unat r \<le> 2 ^ 64 * 100"
      using mult_le_mono [OF less_imp_le [OF u64_less [of n]] that] .
    then show ?thesis by simp
  qed
  have exact: "unat (percentile_target n r) = max ((unat n * unat r + 99) div 100) 1"
    if "unat r \<le> 100" for r :: u64
  proof -
    have "(unat n * unat r + 99) div 100 \<le> unat n"
      using mult_le_mono2 [OF that, of "unat n"] by (simp add: div_le_mono [of _ "unat n * 100 + 99" 100, simplified])
    then have "max ((unat n * unat r + 99) div 100) 1 < 2 ^ 64"
      using u64_less [of n] by simp
    moreover have "unat (max (sat_add (sat_mul (ucast n :: u128) (ucast r)) 99 div 100) 1) =
        max ((unat n * unat r + 99) div 100) 1"
      using cap [OF that] by (simp add: max_def word_le_nat_alt wsimps unat_div)
    ultimately show ?thesis by (simp add: percentile_target_def unat_u128_u64)
  qed
  have "(unat n * unat p + 99) div 100 \<le> (unat n * unat q + 99) div 100"
    using pq by (simp add: div_le_mono)
  then show ?thesis using exact [of p] exact [of q] q pq by (simp add: word_le_nat_alt)
qed

lemma percentile_scan_range:
  "percentile_scan target acc es = Some r \<Longrightarrow> r \<in> fst ` set es"
  by (induction es arbitrary: acc) (auto split: if_splits, blast)

lemma percentile_scan_mono:
  assumes "sorted_wrt (\<lambda>a b. fst b \<le> fst a) es" "t1 \<le> t2"
  shows "percentile_scan t2 acc es = Some r2 \<Longrightarrow>
    \<exists>r1. percentile_scan t1 acc es = Some r1 \<and> r2 \<le> r1"
  using assms
proof (induction es arbitrary: acc)
  case (Cons e es)
  obtain rate sz where e: "e = (rate, sz)" by (cases e)
  show ?case
  proof (cases "t1 \<le> sat_add acc sz")
    case True
    have "r2 \<le> rate"
      using Cons.prems(1,2) e percentile_scan_range [of t2 "sat_add acc sz" es r2]
      by (auto split: if_splits)
    with True e show ?thesis by simp
  next
    case False
    then have "\<not> t2 \<le> sat_add acc sz" using Cons.prems(3) by (meson order.trans)
    with False e Cons show ?thesis by simp
  qed
qed simp

lemma weighted_percentile_rate_mono:
  assumes "sorted_wrt (\<lambda>a b. fst b \<le> fst a) es" "p \<le> q" "q \<le> 100"
  shows "unwrap_or (weighted_percentile_rate es q) d \<le> unwrap_or (weighted_percentile_rate es p) d"
proof (cases "es = [] \<or> total_virtual_size es = 0")
  case False
  let ?s = "\<lambda>r. percentile_scan (percentile_target (total_virtual_size es) r) 0 es"
  have lo: "fst (last es) \<le> r" if "r \<in> fst ` set es" for r
  proof -
    obtain ys y where "es = ys @ [y]" using False by (metis append_butlast_last_id)
    with assms(1) that show ?thesis by (auto simp: sorted_wrt_append)
  qed
  show ?thesis
  proof (cases "?s q")
    case None
    have "fst (last es) \<in> fst ` set es" using False by simp
    with None False lo percentile_scan_range [of _ 0 es] show ?thesis
      by (auto simp: weighted_percentile_rate_def unwrap_or_def split: option.splits)
  next
    case (Some r2)
    then obtain r1 where "?s p = Some r1" "r2 \<le> r1"
      using percentile_scan_mono [OF assms(1) percentile_target_mono [OF assms(2,3)]] by blast
    with Some False show ?thesis by (simp add: weighted_percentile_rate_def unwrap_or_def)
  qed
qed (auto simp: weighted_percentile_rate_def unwrap_or_def)

lemma market_entries_sorted: "sorted_wrt (\<lambda>a b. fst b \<le> fst a) (market_entries P mp)"
proof -
  have "sorted (map (\<lambda>(rate, _). - uint rate) (market_entries P mp))"
    by (simp add: market_entries_def)
  then show ?thesis
    by (simp add: sorted_map case_prod_unfold word_le_def)
qed

section \<open>Filling a block\<close>

text \<open>
  The behaviour of the crate's block type that filling relies on: the field \<open>body.transactions\<close>
  reads back what was written, and \<open>refresh_commitments\<close> recomputes the header from the body,
  so it leaves the transactions alone and forgets what an earlier refresh computed.
\<close>

definition block_body_laws :: "('tx, 'ldg, 'blk, 'z) block_api_scheme \<Rightarrow> bool" where
  "block_body_laws P \<longleftrightarrow>
     (\<forall>ts b. blk_transactions P (blk_set_transactions P ts b) = ts) \<and>
     (\<forall>ts us b. blk_set_transactions P ts (blk_set_transactions P us b) = blk_set_transactions P ts b) \<and>
     (\<forall>b. blk_set_transactions P (blk_transactions P b) b = b) \<and>
     (\<forall>b. blk_transactions P (fst (blk_refresh_commitments P b)) = blk_transactions P b) \<and>
     (\<forall>ts b. blk_refresh_commitments P
        (blk_set_transactions P ts (fst (blk_refresh_commitments P b))) =
        blk_refresh_commitments P (blk_set_transactions P ts b))"

lemma block_body_lawsD:
  assumes "block_body_laws P"
  shows "blk_transactions P (blk_set_transactions P ts b) = ts"
    and "blk_set_transactions P ts (blk_set_transactions P us b) = blk_set_transactions P ts b"
    and "blk_set_transactions P (blk_transactions P b) b = b"
    and "blk_transactions P (fst (blk_refresh_commitments P b)) = blk_transactions P b"
    and "blk_refresh_commitments P
        (blk_set_transactions P ts (fst (blk_refresh_commitments P b))) =
        blk_refresh_commitments P (blk_set_transactions P ts b)"
  using assms unfolding block_body_laws_def by auto

lemma refresh_fst:
  "fst (refresh_block_fees_and_commitments P b) = fst (blk_refresh_commitments P b)"
  by (simp add: refresh_block_fees_and_commitments_def split: prod.splits)

lemma refresh_Inr_iff:
  "refresh_block_fees_and_commitments P b = (b', Inr ()) \<longleftrightarrow> blk_refresh_commitments P b = (b', Inr ())"
  by (simp add: refresh_block_fees_and_commitments_def split: prod.splits)

lemma refresh_again:
  assumes "block_body_laws P" "blk_refresh_commitments P b = (b', Inr ())"
  shows "blk_refresh_commitments P b' = (b', Inr ())"
  using block_body_lawsD(5) [OF assms(1), of "blk_transactions P b" b]
    block_body_lawsD(3) [OF assms(1)] block_body_lawsD(4) [OF assms(1), of b] assms(2)
  by (metis fst_conv)

lemma append_loop_fits:
  assumes "block_body_laws P"
  shows "append_loop P ts b = (b', Inr ()) \<Longrightarrow> blk_refresh_commitments P b = (b, Inr ()) \<Longrightarrow>
    block_too_large P b = Inr False \<Longrightarrow>
    block_too_large P b' = Inr False \<and>
    (\<exists>xs. subseq xs ts \<and> blk_transactions P b' = blk_transactions P b @ xs)"
proof (induction ts arbitrary: b)
  case Nil
  then show ?case by (auto simp: refresh_Inr_iff)
next
  case (Cons t ts)
  note laws = block_body_lawsD [OF assms]
  let ?b0 = "blk_set_transactions P (blk_transactions P b @ [t]) b"
  obtain b1 where r1: "blk_refresh_commitments P ?b0 = (b1, Inr ())"
    using Cons.prems(1) by (auto simp: sbind_Inr_iff refresh_Inr_iff)
  then have t1: "blk_transactions P b1 = blk_transactions P b @ [t]"
    using laws(1,4) by (metis fst_conv)
  have step: "append_loop P (t # ts) b = (case block_too_large P b1 of
      Inl e \<Rightarrow> (b1, Inl e)
    | Inr True \<Rightarrow>
        sbind (refresh_block_fees_and_commitments P
                 (blk_set_transactions P (blk_transactions P b) b1)) (\<lambda>b2 _. append_loop P ts b2)
    | Inr False \<Rightarrow> append_loop P ts b1)"
    using iffD2 [OF refresh_Inr_iff r1] t1 by (simp split: sum.split bool.split)
  show ?case
  proof (cases "block_too_large P b1")
    case (Inl e)
    with step Cons.prems(1) show ?thesis by simp
  next
    case (Inr big)
    show ?thesis
    proof (cases big)
      case True
      have "blk_refresh_commitments P (blk_set_transactions P (blk_transactions P b) b1) = (b, Inr ())"
        using laws(5) [of "blk_transactions P b" ?b0] laws(2,3) r1 Cons.prems(2) by simp
      then have "refresh_block_fees_and_commitments P
          (blk_set_transactions P (blk_transactions P b) b1) = (b, Inr ())"
        by (simp add: refresh_Inr_iff)
      with True step Inr Cons.prems(1) have "append_loop P ts b = (b', Inr ())" by simp
      with Cons.IH Cons.prems(2,3) show ?thesis by (blast intro: list_emb.intros)
    next
      case False
      with step Inr Cons.prems(1) have "append_loop P ts b1 = (b', Inr ())" by simp
      with Cons.IH [of b1] refresh_again [OF assms r1] Inr False t1 show ?thesis by fastforce
    qed
  qed
qed

lemma mp_values_distinct:
  assumes "mempool_ok P mp"
  shows "distinct (mp_values mp)"
proof -
  note wf = mempool_okD(1) [OF assms]
  have hash: "tx_hash P (snd e) = Inr (fst e)" if "e \<in> set (mp_transactions mp)" for e
    using that mempool_okD(3) [OF assms] bt_get_entries [OF wf]
    by (metis entry_ok_def prod.collapse)
  have "distinct (map fst (mp_transactions mp))"
    using bt_wf_sorted [OF wf] strict_sorted_iff by blast
  moreover have "inj_on snd (set (mp_transactions mp))"
    by (rule inj_onI) (metis hash prod.collapse sum.inject(2))
  ultimately show ?thesis
    by (simp add: mp_values_def distinct_map)
qed

section \<open>Reachable pools\<close>

inductive pool_reachable ::
  "('tx, 'ldg, 'blk, 'z) block_api_scheme \<Rightarrow> mempool_config \<Rightarrow> 'tx mempool \<Rightarrow> bool"
  for P cfg where
  start: "pool_reachable P cfg (with_config cfg)"
| insert: "pool_reachable P cfg mp \<Longrightarrow>
     pool_reachable P cfg (fst (insert_validated P now ledger t mp))"
| remove: "pool_reachable P cfg mp \<Longrightarrow> pool_reachable P cfg (fst (remove P h mp))"
| expire: "pool_reachable P cfg mp \<Longrightarrow> pool_reachable P cfg (fst (evict_by_policy P now mp))"
| confirm: "pool_reachable P cfg mp \<Longrightarrow> pool_reachable P cfg (fst (remove_confirmed P block mp))"

lemma with_config_ok: "mempool_ok P (with_config c)"
  by (simp add: mempool_ok_def with_config_def indexed_def bt_has_def)

lemma remove_config: "mempool_ok P mp \<Longrightarrow> mp_config (fst (remove P h mp)) = mp_config mp"
  by (rule remove_outcome [of P mp h]) simp_all

lemma evict_by_policy_ok:
  assumes "mempool_ok P mp"
  shows "mempool_ok P (fst (evict_by_policy P now mp)) \<and>
    mp_config (fst (evict_by_policy P now mp)) = mp_config mp"
  using assms remove_all_ok [OF assms, of "expired_hashes now mp"]
  by (auto simp: evict_by_policy_def)

lemma remove_confirmed_ok:
  assumes "mempool_ok P mp"
  shows "mempool_ok P (fst (remove_confirmed P block mp)) \<and>
    mp_config (fst (remove_confirmed P block mp)) = mp_config mp"
proof (cases "map_res (tx_hash P) (blk_transactions P block)")
  case (Inr hashes)
  with remove_all_ok [OF assms, of "remdups (sort hashes)"] show ?thesis
    by (auto simp: remove_confirmed_def)
qed (use assms in \<open>simp add: remove_confirmed_def\<close>)

lemma pool_reachable_ok:
  assumes "pool_reachable P cfg mp" "max_bytes cfg \<noteq> - 1"
  shows "mempool_ok P mp \<and> mp_config mp = cfg"
  using assms
proof (induction rule: pool_reachable.induct)
  case start
  show ?case by (simp add: with_config_ok) (simp add: with_config_def)
next
  case (insert mp now ledger t)
  then show ?case using insert_validated_ok [of P mp now ledger t] by simp
next
  case (remove mp h)
  then show ?case by (simp add: remove_ok remove_config)
next
  case (expire mp now)
  then show ?case using evict_by_policy_ok [of P mp now] by simp
next
  case (confirm mp block)
  then show ?case using remove_confirmed_ok [of P mp block] by simp
qed


section \<open>A sample pool\<close>

definition sample_config :: mempool_config where
  "sample_config = \<lparr>max_transactions = 2, max_bytes = 100, transaction_ttl_secs = 10,
     low_fee_ttl_secs = 0, min_relay_fee = 1, market_fee = 2\<rparr>"

definition sample_pool :: "sample_tx mempool" where
  "sample_pool =
     fst (insert_validated sample_api 5 (SLdg [] []) (STx 2 8 0 7 [])
       (fst (insert_validated sample_api 0 (SLdg [] []) (STx 1 9 0 3 [4]) (with_config sample_config))))"

lemma subseq_sorted_wrt: "subseq xs ys \<Longrightarrow> sorted_wrt R ys \<Longrightarrow> sorted_wrt R xs"
  by (induction rule: list_emb.induct) (auto dest: list_emb_set)

lemma subseq_distinct: "subseq xs ys \<Longrightarrow> distinct ys \<Longrightarrow> distinct xs"
  by (induction rule: list_emb.induct) (auto dest: list_emb_set)

lemma subseq_set: "subseq xs ys \<Longrightarrow> set xs \<subseteq> set ys"
  by (auto dest: list_emb_set)

lemma selection_order_sorted:
  "sorted_wrt (\<lambda>t u. case (miner_bounty_rate P t, miner_bounty_rate P u) of
      (Inr r, Inr s) \<Rightarrow> s \<le> r | _ \<Rightarrow> True) (selection_order P ts)"
proof -
  have "sorted (map (\<lambda>t. (- uint (case miner_bounty_rate P t of Inl _ \<Rightarrow> 0 | Inr r \<Rightarrow> r),
      tx_signer P t, res_ok (tx_hash P t))) (selection_order P ts))"
    by (simp add: selection_order_def)
  then show ?thesis
    unfolding sorted_map
    by (rule sorted_wrt_mono_rel [rotated])
      (auto simp: less_eq_prod_def word_le_def split: sum.splits)
qed

lemma pending_order_cong:
  assumes "mempool_ok P mp" "mset ts = mset (mp_values mp)"
  shows "pending_order P ts = pending_order P (mp_values mp)"
proof -
  note wf = mempool_okD(1) [OF assms(1)]
  have hash: "tx_hash P (snd e) = Inr (fst e)" if "e \<in> set (mp_transactions mp)" for e
    using that mempool_okD(3) [OF assms(1)] bt_get_entries [OF wf]
    by (metis entry_ok_def prod.collapse)
  have "set ts = snd ` set (mp_transactions mp)"
    using mset_eq_setD [OF assms(2)] by (simp add: mp_values_def)
  moreover have "x = y" if "x \<in> snd ` set (mp_transactions mp)" "y \<in> snd ` set (mp_transactions mp)"
    "res_ok (tx_hash P x) = res_ok (tx_hash P y)" for x y
    using that hash bt_get_entries [OF wf] by (auto simp: res_ok_def) (metis option.inject)
  ultimately have "inj_on (\<lambda>t. (tx_signer P t, res_ok (tx_hash P t))) (set ts)"
    by (auto intro!: inj_onI)
  with assms(2) show ?thesis
    unfolding pending_order_def by (rule sort_key_eq_sort_key)
qed

lemma sample_pool_ok: "mempool_ok sample_api sample_pool" "max_bytes (mp_config sample_pool) \<noteq> - 1"
proof -
  have "pool_reachable sample_api sample_config sample_pool"
    unfolding sample_pool_def by (intro pool_reachable.insert pool_reachable.start)
  moreover have "max_bytes sample_config \<noteq> - 1" by (simp add: sample_config_def)
  ultimately show "mempool_ok sample_api sample_pool" "max_bytes (mp_config sample_pool) \<noteq> - 1"
    using pool_reachable_ok [of sample_api sample_config sample_pool] by simp_all
qed

lemma sample_api_laws: "block_body_laws sample_api"
  by (simp add: block_body_laws_def sample_api_def)

section \<open>Properties\<close>

text \<open>C2: Whatever sequence of admissions, removals, expiries and block confirmations a pool goes
  through, accepted or rejected, no two pooled transactions redeem the same coin or extend the same
  signer state, every pooled transaction is stored under its hash, the byte counter is the sum of
  the encoded sizes, and neither configured limit is exceeded.\<close>

theorem pool_reachable_consistent:
  assumes "pool_reachable P cfg mp" "max_bytes cfg \<noteq> - 1"
  shows "(\<forall>h t. mp_get mp h = Some t \<longrightarrow> tx_hash P t = Inr h) \<and>
    (\<forall>g h t u. mp_get mp g = Some t \<and> mp_get mp h = Some u \<and> g \<noteq> h \<longrightarrow>
       set (redeem_coin_ids P t) \<inter> set (redeem_coin_ids P u) = {} \<and>
       (tx_signer P t, protocol_last_state P t) \<noteq> (tx_signer P u, protocol_last_state P u)) \<and>
    unat (mp_total_bytes mp) = sum_list (map (tx_size P) (mp_values mp)) \<and>
    mp_total_bytes mp \<le> max_bytes cfg \<and>
    length (mp_transactions mp) \<le> unat (max_transactions cfg)"
proof -
  have ok: "mempool_ok P mp" and cfg: "mp_config mp = cfg"
    using pool_reachable_ok [OF assms] by simp_all
  note inv = mempool_okD [OF ok]
  have apart: "set (redeem_coin_ids P t) \<inter> set (redeem_coin_ids P u) = {} \<and>
      (tx_signer P t, protocol_last_state P t) \<noteq> (tx_signer P u, protocol_last_state P u)"
    if "mp_get mp g = Some t \<and> mp_get mp h = Some u \<and> g \<noteq> h" for g h t u
    using that indexed_disjoint [OF inv(5), of g t h u] indexed_disjoint [OF inv(6), of g t h u]
    by (auto simp: mp_get_def)
  moreover have "tx_hash P t = Inr h" if "mp_get mp h = Some t" for h t
    using that inv(3) by (simp add: mp_get_def entry_ok_def)
  ultimately show ?thesis
    using inv(7,8,9) cfg by (simp add: mp_values_def comp_def)
qed

theorem pool_reachable_consistent_witness:
  "max_bytes sample_config \<noteq> - 1 \<and> pool_reachable sample_api sample_config sample_pool \<and>
   unat (mp_total_bytes sample_pool) = sum_list (map (tx_size sample_api) (mp_values sample_pool))"
proof -
  have "pool_reachable sample_api sample_config sample_pool"
    unfolding sample_pool_def by (intro pool_reachable.insert pool_reachable.start)
  moreover have "max_bytes sample_config \<noteq> - 1" by (simp add: sample_config_def)
  ultimately show ?thesis
    using pool_reachable_consistent [of sample_api sample_config sample_pool] by blast
qed

text \<open>C13: When an insertion succeeds, the transaction is in the pool under its hash and was not
  there before; every other pooled transaction is kept unchanged or was evicted because it pays a
  strictly lower fee rate, and nothing else enters the pool; the pool it leaves still applies to
  the ledger at the next height as a whole.\<close>

theorem insert_validated_accepts:
  assumes "mempool_ok P mp" "max_bytes (mp_config mp) \<noteq> - 1"
    and "insert_validated P now ledger t mp = (mp', Inr h)"
  shows "tx_hash P t = Inr h \<and> mp_get mp h = None \<and> mp_get mp' h = Some t \<and>
    (\<exists>rate. miner_bounty_rate P t = Inr rate \<and>
      (\<forall>g u. g \<noteq> h \<and> mp_get mp g = Some u \<longrightarrow> mp_get mp' g = Some u \<or>
         (mp_get mp' g = None \<and> (\<exists>r. miner_bounty_rate P u = Inr r \<and> r < rate)))) \<and>
    (\<forall>g. g \<noteq> h \<and> mp_get mp g = None \<longrightarrow> mp_get mp' g = None) \<and>
    (\<exists>staged. stage_pending P (next_height (tip_height P ledger)) ledger
       (pending_order P (mp_values mp')) = Inr staged)"
proof -
  obtain bs :: bytes and mp1 where ins: "tx_hash P t = Inr h" "bt_get (mp_transactions mp) h = None"
    "evict_for_capacity P t (of_nat (length bs)) mp = (mp1, Inr ())"
    "\<exists>staged. stage_pending P (next_height (tip_height P ledger)) ledger
       (pending_order P (mp_values mp1 @ [t])) = Inr staged"
    "mp' = commit_insert P now h t (of_nat (length bs)) mp1"
    by (rule insert_validated_Inr [OF assms(3)]) blast
  obtain rate where rate: "miner_bounty_rate P t = Inr rate" "mempool_ok P mp1"
    and below: "evicted_below P rate (mp_transactions mp) (mp_transactions mp1)"
    by (rule evict_for_capacity_Inr [OF assms(1) ins(3)])
  have txs: "mp_transactions mp' = bt_insert h t (mp_transactions mp1)"
    using ins(5) by (simp add: commit_insert_def)
  have fresh: "bt_get (mp_transactions mp1) h = None"
    using below ins(2) by (simp add: evicted_below_def)
  have "mset (mp_values mp1 @ [t]) = mset (mp_values mp')"
    using bt.mset_entries_insert_fresh [OF mempool_okD(1) [OF rate(2)] fresh, of t] txs
    by (simp add: mp_values_def)
  moreover have "mempool_ok P mp'"
    using insert_validated_ok [OF assms(1,2), of now ledger t] assms(3) by simp
  ultimately have "pending_order P (mp_values mp1 @ [t]) = pending_order P (mp_values mp')"
    by (rule pending_order_cong [rotated])
  with ins(4) have "\<exists>staged. stage_pending P (next_height (tip_height P ledger)) ledger
      (pending_order P (mp_values mp')) = Inr staged" by simp
  moreover have "\<forall>g u. g \<noteq> h \<and> mp_get mp g = Some u \<longrightarrow> mp_get mp' g = Some u \<or>
      (mp_get mp' g = None \<and> (\<exists>r. miner_bounty_rate P u = Inr r \<and> r < rate))"
    using below txs by (simp add: mp_get_def evicted_below_def)
  moreover have "\<forall>g. g \<noteq> h \<and> mp_get mp g = None \<longrightarrow> mp_get mp' g = None"
    using below txs by (simp add: mp_get_def evicted_below_def)
  moreover have "mp_get mp h = None" "mp_get mp' h = Some t"
    using ins(2) txs by (simp_all add: mp_get_def)
  ultimately show ?thesis
    using ins(1) rate(1) by blast
qed

text \<open>C14: A rejected insertion adds nothing to the pool and drops at most transactions that pay a
  strictly lower fee rate than the rejected one; when the pool has room for the transaction, a
  rejection leaves the pool exactly as it was.\<close>

theorem insert_validated_rejects:
  assumes "mempool_ok P mp" "insert_validated P now ledger t mp = (mp', Inl e)"
  shows "(\<forall>g u. mp_get mp' g = Some u \<longrightarrow> mp_get mp g = Some u) \<and>
    (\<forall>g u. mp_get mp g = Some u \<and> mp_get mp' g = None \<longrightarrow>
       (\<exists>r rate. miner_bounty_rate P u = Inr r \<and> miner_bounty_rate P t = Inr rate \<and> r < rate)) \<and>
    ((\<forall>bs. tx_to_bytes P t = Inr bs \<longrightarrow> \<not> over_capacity (of_nat (length bs)) mp) \<longrightarrow> mp' = mp)"
proof (cases "mp' = mp")
  case False
  then obtain bs where bs: "tx_to_bytes P t = Inr bs"
    and mp': "mp' = fst (evict_for_capacity P t (of_nat (length bs)) mp)"
    using insert_validated_Inl [OF assms(2)] by blast
  with False obtain rate where rate: "miner_bounty_rate P t = Inr rate"
    and loop: "mp' = fst (evict_loop P rate (of_nat (length bs)) mp)"
    by (cases "miner_bounty_rate P t") (simp_all add: evict_for_capacity_def)
  have "over_capacity (of_nat (length bs)) mp"
    using False loop by (subst (asm) evict_loop.simps) (auto split: if_splits)
  moreover have "evicted_below P rate (mp_transactions mp) (mp_transactions mp')"
    using evict_loop_ok [OF assms(1), of rate "of_nat (length bs)"] loop by simp
  moreover have "\<exists>r. miner_bounty_rate P u = Inr r \<and> r < rate"
    if "bt_get (mp_transactions mp) g = Some u" "bt_get (mp_transactions mp') g = None" for g u
    using calculation(2) that unfolding evicted_below_def by fastforce
  ultimately show ?thesis
    using bs rate evicted_below_sub [of P rate] unfolding mp_get_def by blast
qed auto

theorem insert_validated_accepts_witness:
  "\<exists>mp'. insert_validated sample_api 6 (SLdg [] []) (STx 3 7 0 5 []) sample_pool = (mp', Inr [3]) \<and>
     mp_get mp' [3] = Some (STx 3 7 0 5 []) \<and> mp_get sample_pool [1] \<noteq> None \<and> mp_get mp' [1] = None"
proof -
  have "snd (insert_validated sample_api 6 (SLdg [] []) (STx 3 7 0 5 []) sample_pool) = Inr [3]"
    by code_simp
  then obtain mp' where ins: "insert_validated sample_api 6 (SLdg [] []) (STx 3 7 0 5 []) sample_pool = (mp', Inr [3])"
    by (metis prod.collapse)
  have "mp_get (fst (insert_validated sample_api 6 (SLdg [] []) (STx 3 7 0 5 []) sample_pool)) [1] = None"
    "mp_get sample_pool [1] \<noteq> None"
    by code_simp+
  with insert_validated_accepts [OF sample_pool_ok ins] ins show ?thesis by simp
qed

theorem insert_validated_rejects_witness:
  "\<exists>mp' e. insert_validated sample_api 6 (SLdg [] []) (STx 3 7 0 2 []) sample_pool = (mp', Inl e) \<and>
     (\<forall>g u. mp_get mp' g = Some u \<longrightarrow> mp_get sample_pool g = Some u)"
proof -
  have "isl (snd (insert_validated sample_api 6 (SLdg [] []) (STx 3 7 0 2 []) sample_pool))"
    by code_simp
  then obtain mp' e where ins: "insert_validated sample_api 6 (SLdg [] []) (STx 3 7 0 2 []) sample_pool = (mp', Inl e)"
    by (metis isl_def prod.collapse)
  with insert_validated_rejects [OF sample_pool_ok(1) ins] show ?thesis by blast
qed

text \<open>C26: Expiry with a non-zero time to live removes exactly the transactions whose arrival time
  plus the time to live is not after now, reports how many it removed, and cannot fail on a
  well-formed pool.\<close>

theorem evict_by_policy_exact:
  assumes "mempool_ok P mp" "transaction_ttl_secs (mp_config mp) \<noteq> 0"
  shows "\<exists>mp'. evict_by_policy P now mp =
      (mp', Inr (card {h. mp_contains mp h \<and> \<not> mp_contains mp' h})) \<and> mempool_ok P mp' \<and>
    (\<forall>h. mp_get mp' h =
      (case bt_get (mp_inserted_at mp) h of
         Some arrived \<Rightarrow>
           if sat_add arrived (transaction_ttl_secs (mp_config mp)) \<le> now then None else mp_get mp h
       | None \<Rightarrow> None))"
proof -
  obtain mp' where mp': "remove_all P (expired_hashes now mp) mp = (mp', Inr ())" "mempool_ok P mp'"
    "\<And>h. bt_get (mp_transactions mp') h =
       (if h \<in> set (expired_hashes now mp) then None else bt_get (mp_transactions mp) h)"
    using remove_all_ok [OF assms(1), of "expired_hashes now mp"] by blast
  note inv = mempool_okD [OF assms(1)]
  have dom: "bt_get (mp_transactions mp) h = None \<longleftrightarrow> h \<notin> fst ` set (mp_transactions mp)" for h
    by (simp add: bt_get_def map_of_eq_None_iff)
  have keep: "mp_get mp' h = (case bt_get (mp_inserted_at mp) h of
         Some arrived \<Rightarrow>
           if sat_add arrived (transaction_ttl_secs (mp_config mp)) \<le> now then None else mp_get mp h
       | None \<Rightarrow> None)" for h
    using inv(4) [of h] mp'(3) [of h] dom [of h]
    by (auto simp: mp_get_def bt_has_def expired_hashes_def split: option.splits)
  have "set (expired_hashes now mp) \<subseteq> fst ` set (mp_transactions mp)"
    by (auto simp: expired_hashes_def)
  then have "{h. mp_contains mp h \<and> \<not> mp_contains mp' h} = set (expired_hashes now mp)"
    using mp'(3) dom by (auto simp: mp_contains_def bt_has_def)
  moreover have "distinct (expired_hashes now mp)"
    using bt.distinct_keys [OF inv(1)] by (simp add: expired_hashes_def)
  ultimately have "card {h. mp_contains mp h \<and> \<not> mp_contains mp' h} = length (expired_hashes now mp)"
    by (simp add: distinct_card)
  then show ?thesis
    using mp'(1,2) keep assms(2) by (simp add: evict_by_policy_def)
qed

theorem evict_by_policy_exact_witness:
  "transaction_ttl_secs (mp_config sample_pool) \<noteq> 0 \<and>
   (\<exists>mp' n. evict_by_policy sample_api 12 sample_pool = (mp', Inr n) \<and> mp_get mp' [1] = None)"
proof -
  have ttl: "transaction_ttl_secs (mp_config sample_pool) \<noteq> 0"
    by code_simp
  have "bt_get (mp_inserted_at sample_pool) [1] = Some 0"
    "sat_add 0 (transaction_ttl_secs (mp_config sample_pool)) \<le> 12"
    by code_simp+
  with evict_by_policy_exact [OF sample_pool_ok(1) ttl, of 12] ttl show ?thesis by fastforce
qed

text \<open>C27: After a block is confirmed, none of its transactions is in the pool and every other pooled
  transaction is unchanged; the call fails only when a transaction of the block cannot be hashed,
  and then leaves the pool as it was.\<close>

theorem remove_confirmed_exact:
  assumes "mempool_ok P mp"
  shows "case map_res (tx_hash P) (blk_transactions P block) of
      Inl e \<Rightarrow> remove_confirmed P block mp = (mp, Inl (Serialization e))
    | Inr hashes \<Rightarrow> \<exists>mp'. remove_confirmed P block mp = (mp', Inr ()) \<and> mempool_ok P mp' \<and>
        (\<forall>h. mp_get mp' h = (if h \<in> set hashes then None else mp_get mp h))"
proof (cases "map_res (tx_hash P) (blk_transactions P block)")
  case (Inr hashes)
  with remove_all_ok [OF assms, of "remdups (sort hashes)"] show ?thesis
    by (auto simp: remove_confirmed_def mp_get_def)
qed (simp add: remove_confirmed_def)

theorem remove_confirmed_exact_witness:
  "\<exists>mp'. remove_confirmed sample_api (SBlk 1 0 1 [STx 2 8 0 7 []]) sample_pool = (mp', Inr ()) \<and>
     mp_get mp' [2] = None \<and> mp_get mp' [1] = Some (STx 1 9 0 3 [4])"
proof -
  have "map_res (tx_hash sample_api) (blk_transactions sample_api (SBlk 1 0 1 [STx 2 8 0 7 []])) = Inr [[2]]"
    "mp_get sample_pool [1] = Some (STx 1 9 0 3 [4])"
    by code_simp+
  with remove_confirmed_exact [OF sample_pool_ok(1), of "SBlk 1 0 1 [STx 2 8 0 7 []]"]
  show ?thesis by auto
qed
text \<open>C9: Selecting transactions for a block is one greedy pass over the pool in descending fee-rate
  order, with at most as many picks as the limit allows: the retry loop around the pass never makes
  a second pass that picks anything.\<close>

theorem select_for_block_greedy:
  "select_for_block P ledger height limit min_rate mp =
   greedy P height min_rate (selection_order P (mp_values mp)) ledger (unat limit)"
  by (simp add: select_for_block_def select_loop_greedy)

text \<open>C18: The transactions selected for a block are distinct pooled transactions, at most as many as
  the limit, each valid at the block's height and paying at least the minimum rate, in descending
  order of fee rate.\<close>

theorem select_for_block_sound:
  assumes "mempool_ok P mp" "select_for_block P ledger height limit min_rate mp = Inr xs"
  shows "distinct xs \<and> set xs \<subseteq> set (mp_values mp) \<and> length xs \<le> unat limit \<and>
    (\<forall>t \<in> set xs. tx_valid_at P t height \<and> (\<exists>r. miner_bounty_rate P t = Inr r \<and> min_rate \<le> r)) \<and>
    sorted_wrt (\<lambda>t u. \<exists>r s. miner_bounty_rate P t = Inr r \<and> miner_bounty_rate P u = Inr s \<and> s \<le> r) xs"
proof -
  have sub: "subseq xs (selection_order P (mp_values mp))" "length xs \<le> unat limit"
    and each: "\<forall>t \<in> set xs. tx_valid_at P t height \<and>
      (\<exists>r. miner_bounty_rate P t = Inr r \<and> min_rate \<le> r)"
    using assms(2) greedy_Inr [of P height min_rate "selection_order P (mp_values mp)" ledger "unat limit" xs]
    by (simp_all add: select_for_block_def select_loop_greedy)
  have "distinct (selection_order P (mp_values mp))"
    using mp_values_distinct [OF assms(1)] by (simp add: selection_order_def)
  then have "distinct xs" using sub(1) by (rule subseq_distinct [rotated])
  moreover have "set xs \<subseteq> set (mp_values mp)"
    using subseq_set [OF sub(1)] by (simp add: selection_order_def)
  moreover have "sorted_wrt (\<lambda>t u. \<exists>r s. miner_bounty_rate P t = Inr r \<and>
      miner_bounty_rate P u = Inr s \<and> s \<le> r) xs"
    using subseq_sorted_wrt [OF sub(1) selection_order_sorted]
    by (rule sorted_wrt_mono_rel [rotated]) (use each in \<open>fastforce split: sum.splits\<close>)
  ultimately show ?thesis using sub(2) each by blast
qed

theorem select_for_block_sound_witness:
  "\<exists>xs. select_for_block sample_api (SLdg [] []) 1 5 2 sample_pool = Inr xs \<and> xs \<noteq> [] \<and> distinct xs"
proof -
  have "select_for_block sample_api (SLdg [] []) 1 5 2 sample_pool = Inr [STx 2 8 0 7 [], STx 1 9 0 3 [4]]"
    by code_simp
  with select_for_block_sound [OF sample_pool_ok(1) this] show ?thesis by blast
qed

text \<open>C28: The fee market is consistent: the pressure never exceeds 10000 basis points, the
  recommended rate is at least the relay floor, the configured market rate, the clearing rate of the
  next block and the 75th weighted percentile, and the percentiles, counted from the best-paying
  transaction down, are ordered.\<close>

theorem fee_market_snapshot_bounds:
  "snap_pressure_bps (fee_market_snapshot P mp) \<le> 10000 \<and>
   max (snap_min_relay_fee_rate (fee_market_snapshot P mp))
     (snap_configured_market_fee_rate (fee_market_snapshot P mp))
     \<le> snap_recommended_fee_rate (fee_market_snapshot P mp) \<and>
   snap_next_block_clearing_fee_rate (fee_market_snapshot P mp)
     \<le> snap_recommended_fee_rate (fee_market_snapshot P mp) \<and>
   snap_p75_fee_rate (fee_market_snapshot P mp) \<le> snap_recommended_fee_rate (fee_market_snapshot P mp) \<and>
   snap_p90_fee_rate (fee_market_snapshot P mp) \<le> snap_p75_fee_rate (fee_market_snapshot P mp) \<and>
   snap_p75_fee_rate (fee_market_snapshot P mp) \<le> snap_median_fee_rate (fee_market_snapshot P mp)"
proof -
  let ?d = "max (market_fee (mp_config mp)) (min_relay_fee (mp_config mp))"
  have "unwrap_or (weighted_percentile_rate (market_entries P mp) 90) ?d
      \<le> unwrap_or (weighted_percentile_rate (market_entries P mp) 75) ?d"
    by (rule weighted_percentile_rate_mono [OF market_entries_sorted]) simp_all
  moreover have "unwrap_or (weighted_percentile_rate (market_entries P mp) 75) ?d
      \<le> unwrap_or (weighted_percentile_rate (market_entries P mp) 50) ?d"
    by (rule weighted_percentile_rate_mono [OF market_entries_sorted]) simp_all
  moreover have "max a b \<le> max (max (max (max b a) c) d) e" "d \<le> max (max (max a c) d) e"
    "e \<le> max (max (max a c) d) e" for a b c d e :: u64
    using linear [of a b] by (auto simp: le_max_iff_disj)
  ultimately show ?thesis
    using mempool_pressure_bps_le [of mp]
    by (simp only: fee_market_snapshot_def Let_def fee_market_snapshot.simps simp_thms)
qed

text \<open>C19: Filling a block from the pool keeps it within the size and weight limits of the protocol:
  it appends, in order, a subsequence of the selected transactions, and a transaction that would
  push the block over a limit is taken out again.\<close>

theorem append_selected_to_block_fits:
  assumes "block_body_laws P" "blk_refresh_commitments P b = (b, Inr ())"
    and "block_too_large P b = Inr False"
    and "append_selected_to_block P ledger limit min_rate mp b = (b', Inr ())"
  shows "block_too_large P b' = Inr False \<and>
    (\<exists>selected xs. select_for_block P ledger (blk_height P b)
        (sat_sub limit (blk_transaction_count P b)) min_rate mp = Inr selected \<and>
      subseq xs selected \<and> blk_transactions P b' = blk_transactions P b @ xs)"
proof -
  obtain selected where "select_for_block P ledger (blk_height P b)
      (sat_sub limit (blk_transaction_count P b)) min_rate mp = Inr selected"
    and loop: "append_loop P selected b = (b', Inr ())"
    using assms(4) by (auto simp: append_selected_to_block_def split: sum.splits)
  with append_loop_fits [OF assms(1) loop assms(2,3)] show ?thesis by blast
qed

theorem append_selected_to_block_fits_witness:
  "\<exists>b'. append_selected_to_block sample_api (SLdg [] []) 9 0 sample_pool (SBlk 1 0 1 [STx 5 5 5 5 []]) = (b', Inr ()) \<and>
     block_too_large sample_api b' = Inr False \<and> length (sb_txs b') = 2"
proof -
  let ?b = "SBlk 1 0 1 [STx 5 5 5 5 []]"
  have start: "blk_refresh_commitments sample_api ?b = (?b, Inr ())"
    "block_too_large sample_api ?b = Inr False"
    by code_simp+
  have run: "append_selected_to_block sample_api (SLdg [] []) 9 0 sample_pool ?b =
      (SBlk 1 0 1 [STx 5 5 5 5 [], STx 2 8 0 7 []], Inr ())"
    by code_simp
  show ?thesis
    using append_selected_to_block_fits [OF sample_api_laws start run] run by simp
qed


end
