(* ===== verification/Recovery.thy ===== *)
theory Recovery
  imports Sample
begin

text \<open>
  Rollback issues, \<open>node/src/runtime/recovery.rs\<close>: the record the node keeps of a transaction
  whose block was disconnected by a reorganisation. The Merkle proof is an opaque value whose
  leaf index is read by the function \<open>leaf_index\<close>.
\<close>

record 'hdr rollback_proof_context =
  rpc_id :: hash
  rpc_losing_headers :: "'hdr list"
  rpc_canonical_headers :: "'hdr list"
  rpc_common_ancestor :: hash

datatype rollback_recovery_status =
  Detected | Requeued | Reconfirmed u64 hash | Conflict

record ('tx, 'prf) rollback_issue =
  ri_id :: hash
  ri_disconnected_block_height :: u64
  ri_disconnected_block_hash :: hash
  ri_transaction_index :: u32
  ri_transaction_hash :: hash
  ri_family :: transaction_family
  ri_affected_accounts :: "address list"
  ri_transaction :: 'tx
  ri_proof_context_id :: hash
  ri_transaction_proof :: 'prf
  ri_status :: rollback_recovery_status
  ri_detected_at :: u64
  ri_retry_attempts :: u32
  ri_last_error :: "string option"

text \<open>A byte-string literal \<open>b"..."\<close>.\<close>

definition bstr :: "string \<Rightarrow> bytes" where
  "bstr s = map (\<lambda>c. of_nat (of_char c)) s"

definition rollback_context_new ::
  "('tx, 'ldg, 'blk, 'hdr, 'acct, 'z) chain_api_scheme \<Rightarrow> 'hdr list \<Rightarrow> 'hdr list \<Rightarrow> hash \<Rightarrow>
   codec_error + 'hdr rollback_proof_context" where
  "rollback_context_new P losing_headers canonical_headers common_ancestor =
     rbind (canonical_context_bytes P (bstr ''PAQUS_ROLLBACK_PROOF_CONTEXT_V1'')
              losing_headers canonical_headers common_ancestor)
       (\<lambda>bs. Inr \<lparr>rpc_id = hash_bytes P bs, rpc_losing_headers = losing_headers,
                 rpc_canonical_headers = canonical_headers,
                 rpc_common_ancestor = common_ancestor\<rparr>)"

definition issue_id_for_transaction ::
  "('tx, 'ldg, 'blk, 'hdr, 'acct, 'z) chain_api_scheme \<Rightarrow> hash \<Rightarrow> hash \<Rightarrow> codec_error + hash" where
  "issue_id_for_transaction P block_hash transaction_hash =
     rbind (canonical_issue_bytes P (bstr ''PAQUS_ROLLBACK_ISSUE_V1'') block_hash transaction_hash)
       (\<lambda>bs. Inr (hash_bytes P bs))"

text \<open>\<open>BTreeSet\<close> of addresses, read out in order.\<close>

definition btree_set :: "'a::linorder list \<Rightarrow> 'a list" where
  "btree_set xs = sort (remdups xs)"

definition affected_accounts :: "('tx, 'z) tx_api_scheme \<Rightarrow> 'tx \<Rightarrow> address list" where
  "affected_accounts P t =
     btree_set (tx_signer P t #
       (case tx_view P t of
          BatchTransfer _ outputs _ \<Rightarrow>
            List.map_filter (\<lambda>out. target_address P (out_to out)) outputs
        | QCash _ kind _ \<Rightarrow> (case kind of Redeem recipient _ \<Rightarrow> [recipient] | _ \<Rightarrow> [])))"

definition rollback_issue_new ::
  "('tx, 'ldg, 'blk, 'hdr, 'acct, 'z) chain_api_scheme \<Rightarrow> ('prf \<Rightarrow> u32) \<Rightarrow> u64 \<Rightarrow> hash \<Rightarrow> u32 \<Rightarrow> 'tx \<Rightarrow>
   hash \<Rightarrow> 'prf \<Rightarrow> u64 \<Rightarrow> codec_error + ('tx, 'prf) rollback_issue" where
  "rollback_issue_new P leaf_index block_height block_hash transaction_index t context_id proof detected_at =
     rbind (tx_hash P t) (\<lambda>transaction_hash.
       if leaf_index proof < transaction_index then Inl CodecInvalidBlock
       else rbind (issue_id_for_transaction P block_hash transaction_hash) (\<lambda>id.
         Inr \<lparr>ri_id = id,
              ri_disconnected_block_height = block_height,
              ri_disconnected_block_hash = block_hash,
              ri_transaction_index = transaction_index,
              ri_transaction_hash = transaction_hash,
              ri_family = tx_family P t,
              ri_affected_accounts = affected_accounts P t,
              ri_transaction = t,
              ri_proof_context_id = context_id,
              ri_transaction_proof = proof,
              ri_status = Detected,
              ri_detected_at = detected_at,
              ri_retry_attempts = 0,
              ri_last_error = None\<rparr>))"

definition is_reconfirmed :: "('tx, 'prf) rollback_issue \<Rightarrow> bool" where
  "is_reconfirmed issue = (case ri_status issue of Reconfirmed _ _ \<Rightarrow> True | _ \<Rightarrow> False)"

lemma set_btree_set [simp]: "set (btree_set xs) = set xs"
  by (simp add: btree_set_def)

lemma btree_set_sorted: "sorted_wrt (<) (btree_set xs)"
  by (simp add: btree_set_def strict_sorted_iff)

end
