(* ===== verification/Storage_Api.thy ===== *)
theory Storage_Api
  imports Recovery
begin

text \<open>
  The data of the block store, \<open>node/src/runtime/storage\<close>, and the interfaces it is written
  against: LMDB transactions, the borsh codec of each stored type, and the parts of the protocol
  crate that only the store calls.
\<close>

section \<open>Databases, errors and stored records\<close>

datatype database =
  BLOCKS_BY_HEIGHT | BLOCKS_BY_HASH | HEADERS_BY_HEIGHT | ACCOUNTS | GENESIS_ACCOUNTS | TX_INDEX
| WTX_INDEX | ADDRESS_TX_INDEX | MINER_BLOCK_INDEX | META | PROTOCOL_STATE | EVENTS_BY_ID
| BLOCK_EVENT_INDEX | TRANSACTION_EVENT_INDEX | ADDRESS_EVENT_INDEX | ROLLBACK_ISSUES
| ROLLBACK_PROOF_CONTEXTS

datatype lmdb_error = LmdbNotFound | LmdbOther nat

datatype io_error = IoInvalidData string | IoOther nat

datatype storage_error =
  StorageDatabase lmdb_error
| StorageIo io_error
| StorageSerialization io_error
| StorageCodec codec_error
| StorageIntegrity string
| MissingStorageVersion
| UnsupportedStorageVersion u8 u8

definition PROTOCOL_STATE_KEY :: bytes where "PROTOCOL_STATE_KEY = bstr ''current''"

definition TIP_HEIGHT_KEY :: bytes where "TIP_HEIGHT_KEY = bstr ''tip_height''"

definition TIP_HASH_KEY :: bytes where "TIP_HASH_KEY = bstr ''tip_hash''"

definition STORAGE_VERSION_KEY :: bytes where "STORAGE_VERSION_KEY = bstr ''storage_version''"

definition CHECKPOINT_HEIGHT_KEY :: bytes where "CHECKPOINT_HEIGHT_KEY = bstr ''checkpoint_height''"

record transaction_location =
  tl_block_height :: u64
  tl_block_hash :: hash
  tl_tx_index :: u32
  tl_family :: transaction_family

record address_transaction_location =
  al_tx_hash :: hash
  al_block_height :: u64
  al_block_hash :: hash
  al_tx_index :: u32
  al_sent :: bool
  al_family :: transaction_family

record miner_block_location =
  ml_block_height :: u64
  ml_block_hash :: hash

record ('utxo, 'evt) stored_protocol_state =
  sp_qcash_utxos :: 'utxo
  sp_events_by_block :: "(hash, 'evt list) btree"

text \<open>\<open>ProtocolEventKind\<close> with the addresses the index reads of each variant.\<close>

datatype protocol_event_kind =
  EvBatchTransfer address address
| EvQCashWithdrawn address
| EvQCashRedeemed address address
| EvQCashRecoverRedeemed address address
| EvGenesisAllocation address
| EvCoinbasePaid address

section \<open>The interfaces\<close>

text \<open>A borsh codec of a type: \<open>to_vec\<close> and \<open>try_from_slice\<close>.\<close>

type_synonym 'a codec = "('a \<Rightarrow> io_error + bytes) \<times> (bytes \<Rightarrow> io_error + 'a)"

text \<open>What its users rely on: decoding inverts a successful encoding.\<close>

definition codec_ok :: "'a codec \<Rightarrow> bool" where
  "codec_ok c \<longleftrightarrow> (\<forall>v bs. fst c v = Inr bs \<longrightarrow> snd c bs = Inr v)"

record ('env, 'txn) lmdb_api =
  begin_ro_txn :: "'env \<Rightarrow> lmdb_error + 'txn"
  begin_rw_txn :: "'env \<Rightarrow> lmdb_error + 'txn"
  txn_get :: "'txn \<Rightarrow> database \<Rightarrow> bytes \<Rightarrow> lmdb_error + bytes"
  txn_iter :: "'txn \<Rightarrow> database \<Rightarrow> lmdb_error + (lmdb_error + bytes \<times> bytes) list"
  txn_put :: "'txn \<Rightarrow> database \<Rightarrow> bytes \<Rightarrow> bytes \<Rightarrow> 'txn \<times> (lmdb_error + unit)"
  txn_del :: "'txn \<Rightarrow> database \<Rightarrow> bytes \<Rightarrow> 'txn \<times> (lmdb_error + unit)"
  txn_clear_db :: "'txn \<Rightarrow> database \<Rightarrow> 'txn \<times> (lmdb_error + unit)"
  txn_commit :: "'env \<Rightarrow> 'txn \<Rightarrow> 'env \<times> (lmdb_error + unit)"
  txn_abort :: "'env \<Rightarrow> 'txn \<Rightarrow> 'env"
  env_sync :: "'env \<Rightarrow> 'env \<times> (lmdb_error + unit)"

record ('env, 'txn, 'tx, 'hdr, 'acct, 'evt, 'utxo, 'prf) codec_api = "('env, 'txn) lmdb_api" +
  cod_version :: "u8 codec"
  cod_height :: "u64 codec"
  cod_location :: "transaction_location codec"
  cod_address_location :: "address_transaction_location codec"
  cod_miner_location :: "miner_block_location codec"
  cod_header :: "'hdr codec"
  cod_account :: "'acct codec"
  cod_accounts :: "(address, 'acct) btree codec"
  cod_event :: "'evt codec"
  cod_event_id :: "hash codec"
  cod_issue :: "('tx, 'prf) rollback_issue codec"
  cod_context :: "'hdr rollback_proof_context codec"
  cod_state :: "('utxo, 'evt) stored_protocol_state codec"

record ('env, 'txn, 'tx, 'hdr, 'acct, 'evt, 'utxo, 'prf, 'ldg, 'blk) store_api =
    "('env, 'txn, 'tx, 'hdr, 'acct, 'evt, 'utxo, 'prf) codec_api" +
  ev_validate :: "'evt \<Rightarrow> bool"
  ev_id :: "'evt \<Rightarrow> codec_error + hash"
  ev_block_hash :: "'evt \<Rightarrow> hash"
  ev_block_height :: "'evt \<Rightarrow> u64"
  ev_event_index :: "'evt \<Rightarrow> u32"
  ev_transaction_hash :: "'evt \<Rightarrow> hash option"
  ev_kind :: "'evt \<Rightarrow> protocol_event_kind"
  ledger_new :: 'ldg
  ledger_apply_block :: "'ldg \<Rightarrow> 'blk \<Rightarrow> 'ldg \<times> (ledger_error + unit)"
  ldg_replace_accounts :: "'ldg \<Rightarrow> (address, 'acct) btree \<Rightarrow> 'ldg \<times> (ledger_error + unit)"
  ldg_qcash_utxos :: "'ldg \<Rightarrow> 'utxo"
  ldg_events_by_block :: "'ldg \<Rightarrow> (hash, 'evt list) btree"
  ldg_set_protocol_state :: "'utxo \<Rightarrow> (hash, 'evt list) btree \<Rightarrow> 'ldg \<Rightarrow> 'ldg"
  ldg_events_for_block :: "'ldg \<Rightarrow> hash \<Rightarrow> 'evt list"
  ldg_restore_authenticated_headers :: "'ldg \<Rightarrow> 'hdr list \<Rightarrow> u64 \<Rightarrow> 'ldg \<times> (ledger_error + unit)"
  ldg_attach_stored_block_body :: "'ldg \<Rightarrow> 'blk \<Rightarrow> 'ldg \<times> (ledger_error + unit)"
  ldg_chain_insert_block :: "'ldg \<Rightarrow> 'blk \<Rightarrow> 'ldg \<times> (ledger_error + unit)"
  ldg_validate_supply :: "'ldg \<Rightarrow> ledger_error + unit"
  ldg_state_root :: "'ldg \<Rightarrow> hash"
  ldg_protocol_state_root :: "'ldg \<Rightarrow> ledger_error + hash"

end
