(* ===== verification/Node_Api.thy ===== *)
theory Node_Api
  imports Mempool Storage_Api
begin

text \<open>
  What the node itself, \<open>node/src/runtime/node\<close> and \<open>node/src/runtime/miner\<close>, adds to the
  interface of the \<open>paqus\<close> crate: its error enum with the texts it prints, and a parameter
  record with the fork graph, the consensus rules, block construction and the account views the
  crate provides.
\<close>

section \<open>Errors\<close>

datatype node_error =
  NodeConsensus consensus_error
| NodeGenesis genesis_error
| NodeForkChoice fork_choice_error
| NodeLedger ledger_error
| NodeMempool mempool_error
| NodeStorage storage_error
| NodeCodec codec_error
| NodeRollbackProof rollback_proof_error
| MiningExhausted
| MissingGenesisState
| MissingStagedLedger
| MissingBestTip
| MissingCommonAncestor
| MissingForkBranch
| MissingActiveTip
| MissingForkNode
| MissingLedgerBlock
| MissingDifficultyAnchor
| TransactionIndexOverflow
| MissingRollbackProofContext
| RollbackProofContextMismatch
| MissingDisconnectedBlock
| RollbackIssueMismatch

text \<open>The texts of errors that are not the node's own come from their crates.\<close>

record error_texts =
  txt_codec :: "codec_error \<Rightarrow> string"
  txt_transaction :: "transaction_error \<Rightarrow> string"
  txt_ledger :: "ledger_error \<Rightarrow> string"
  txt_consensus :: "consensus_error \<Rightarrow> string"
  txt_genesis :: "genesis_error \<Rightarrow> string"
  txt_fork_choice :: "fork_choice_error \<Rightarrow> string"
  txt_rollback_proof :: "rollback_proof_error \<Rightarrow> string"
  txt_lmdb :: "lmdb_error \<Rightarrow> string"
  txt_io :: "io_error \<Rightarrow> string"

fun mempool_error_fmt :: "'z error_texts_scheme \<Rightarrow> mempool_error \<Rightarrow> string" where
  "mempool_error_fmt D DuplicateTransaction = ''transaction already exists in mempool''"
| "mempool_error_fmt D FeeTooLow = ''transaction fee is below node policy''"
| "mempool_error_fmt D MempoolFull = ''mempool transaction limit reached''"
| "mempool_error_fmt D DuplicateBlockMinerFeeOutput =
     ''transaction has more than one block_miner fee output''"
| "mempool_error_fmt D (InvalidTransaction e) = ''invalid transaction: '' @ txt_transaction D e"
| "mempool_error_fmt D (InvalidLedgerState e) =
     ''transaction does not fit ledger state: '' @ txt_ledger D e"
| "mempool_error_fmt D CashCoinReserved =
     ''cash coin is already reserved by another mempool transaction''"
| "mempool_error_fmt D (Serialization e) = ''failed to serialize transaction: '' @ txt_codec D e"
| "mempool_error_fmt D FeeOverflow = ''block transaction fees overflow''"

fun storage_error_fmt :: "'z error_texts_scheme \<Rightarrow> storage_error \<Rightarrow> string" where
  "storage_error_fmt D (StorageDatabase e) = ''storage database error: '' @ txt_lmdb D e"
| "storage_error_fmt D (StorageIo e) = ''storage io error: '' @ txt_io D e"
| "storage_error_fmt D (StorageSerialization e) = ''storage serialization error: '' @ txt_io D e"
| "storage_error_fmt D (StorageCodec e) = ''canonical encoding error: '' @ txt_codec D e"
| "storage_error_fmt D (StorageIntegrity message) = ''storage integrity error: '' @ message"
| "storage_error_fmt D MissingStorageVersion =
     ''storage version is missing from existing database''"
| "storage_error_fmt D (UnsupportedStorageVersion expected found) =
     ''unsupported storage version: expected '' @ dec_string (unat expected) @
     '', found '' @ dec_string (unat found)"

fun node_error_fmt :: "'z error_texts_scheme \<Rightarrow> node_error \<Rightarrow> string" where
  "node_error_fmt D (NodeConsensus e) = ''consensus error: '' @ txt_consensus D e"
| "node_error_fmt D (NodeGenesis e) = ''genesis error: '' @ txt_genesis D e"
| "node_error_fmt D (NodeForkChoice e) = ''fork choice error: '' @ txt_fork_choice D e"
| "node_error_fmt D (NodeLedger e) = ''ledger error: '' @ txt_ledger D e"
| "node_error_fmt D (NodeMempool e) = ''mempool error: '' @ mempool_error_fmt D e"
| "node_error_fmt D (NodeStorage e) = ''storage error: '' @ storage_error_fmt D e"
| "node_error_fmt D (NodeCodec e) = ''canonical encoding error: '' @ txt_codec D e"
| "node_error_fmt D (NodeRollbackProof e) = ''rollback proof error: '' @ txt_rollback_proof D e"
| "node_error_fmt D MiningExhausted = ''mining attempt budget was exhausted''"
| "node_error_fmt D MissingGenesisState = ''node cannot reorg without the genesis account state''"
| "node_error_fmt D MissingStagedLedger =
     ''validated active-tip block is missing its staged ledger''"
| "node_error_fmt D MissingBestTip = ''fork graph has no selected best tip''"
| "node_error_fmt D MissingCommonAncestor =
     ''fork branches do not have a known common ancestor''"
| "node_error_fmt D MissingForkBranch = ''fork graph cannot construct the requested branch''"
| "node_error_fmt D MissingActiveTip = ''active ledger tip is missing''"
| "node_error_fmt D MissingForkNode = ''required block is missing from fork graph''"
| "node_error_fmt D MissingLedgerBlock = ''required block is missing from active ledger''"
| "node_error_fmt D MissingDifficultyAnchor = ''WBDA difficulty weight anchor is missing''"
| "node_error_fmt D TransactionIndexOverflow = ''block transaction index exceeds supported range''"
| "node_error_fmt D MissingRollbackProofContext = ''rollback proof context was not found''"
| "node_error_fmt D RollbackProofContextMismatch =
     ''rollback proof branches do not share a valid ancestor''"
| "node_error_fmt D MissingDisconnectedBlock =
     ''rollback proof does not contain the disconnected block''"
| "node_error_fmt D RollbackIssueMismatch = ''rollback issue does not match its verified proof''"

section \<open>The interface\<close>

text \<open>A node of the crate's fork graph, with the fields the source reads.\<close>

record 'blk fork_node =
  fn_hash :: hash
  fn_parent :: hash
  fn_height :: u64
  fn_block :: 'blk
  fn_cumulative_work :: "u64 list"

text \<open>The proof bundle the crate verifies, and what its verification returns.\<close>

record ('tx, 'hdr, 'prf) rollback_bundle =
  rb_version :: nat
  rb_transaction :: 'tx
  rb_disconnected_block_header :: 'hdr
  rb_transaction_proof :: 'prf
  rb_losing_headers :: "'hdr list"
  rb_canonical_headers :: "'hdr list"
  rb_common_ancestor :: hash

record verified_rollback =
  vr_transaction_hash :: hash
  vr_disconnected_block_hash :: hash

text \<open>
  Results whose error type only the crate knows are given as the \<open>NodeError\<close> that \<open>?\<close> turns
  them into. \<open>blk_window_weight\<close> is \<open>block_weight()\<close> converted to the window's integer type.
 \<open>new_candidate_block\<close> is \<open>Block::from_protocol_transactions\<close> with a coinbase of the given
  subsidy and no transactions. \<open>execute_block\<close> returns the new ledger and the state root after it.
\<close>

record ('tx, 'ldg, 'blk, 'hdr, 'acct, 'fc, 'cons, 'prf) node_api =
    "('tx, 'ldg, 'blk, 'hdr, 'acct) chain_api" +
  fc_new :: 'fc
  fc_insert_block :: "'blk \<Rightarrow> 'fc \<Rightarrow> 'fc \<times> (fork_choice_error + hash)"
  fc_insert_header :: "'hdr \<Rightarrow> 'fc \<Rightarrow> 'fc \<times> (fork_choice_error + hash)"
  fc_best_tip :: "'fc \<Rightarrow> 'blk fork_node option"
  fc_contains :: "'fc \<Rightarrow> hash \<Rightarrow> bool"
  fc_get :: "'fc \<Rightarrow> hash \<Rightarrow> 'blk fork_node option"
  fc_ancestor_hashes :: "'fc \<Rightarrow> hash \<Rightarrow> hash list"
  fc_branch_from_ancestor :: "'fc \<Rightarrow> hash \<Rightarrow> hash \<Rightarrow> 'blk list option"
  fc_ancestor_hash_at_height :: "'fc \<Rightarrow> hash \<Rightarrow> u64 \<Rightarrow> hash option"
  fc_prune_finalized :: "hash \<Rightarrow> 'fc \<Rightarrow> 'fc \<times> (fork_choice_error + usize)"
  reorg_crosses_finality_boundary :: "'ldg \<Rightarrow> 'fc \<Rightarrow> hash \<Rightarrow> bool"
  execute_block :: "'ldg \<Rightarrow> 'blk \<Rightarrow> ledger_error + 'ldg \<times> hash"
  state_root_after_block :: "'ldg \<Rightarrow> 'blk \<Rightarrow> ledger_error + hash"
  ledger_from_accounts :: "(address, 'acct) btree \<Rightarrow> ledger_error + 'ldg"
  expected_difficulty_after_tip :: "'ldg \<Rightarrow> ledger_error + u32"
  ldg_balance :: "'ldg \<Rightarrow> address \<Rightarrow> u64 option"
  ldg_confirmed_balance :: "'ldg \<Rightarrow> address \<Rightarrow> u64 option"
  acct_balance :: "'acct \<Rightarrow> u64"
  acct_statement :: "'acct \<Rightarrow> hash"
  acct_available_balance_at :: "'acct \<Rightarrow> u64 \<Rightarrow> u64"
  acct_immature_balance_at :: "'acct \<Rightarrow> u64 \<Rightarrow> u64"
  tx_total_amount :: "'tx \<Rightarrow> u64 option"
  cons_difficulty :: "'cons \<Rightarrow> u32"
  validate_genesis_block :: "'cons \<Rightarrow> 'blk \<Rightarrow> consensus_error + unit"
  validate_next_block_with_tip :: "'cons \<Rightarrow> 'blk \<Rightarrow> 'blk \<Rightarrow> consensus_error + unit"
  proof_of_work_hash :: "'cons \<Rightarrow> 'blk \<Rightarrow> consensus_error + hash"
  validate_proof_of_work_hash :: "'cons \<Rightarrow> hash \<Rightarrow> u32 \<Rightarrow> consensus_error + unit"
  min_difficulty :: u32
  wbda_window :: nat
  is_wbda_epoch_boundary :: "u64 \<Rightarrow> bool"
  next_difficulty_from_window :: "u32 \<Rightarrow> u64 list \<Rightarrow> u32 option"
  blk_difficulty :: "'blk \<Rightarrow> u32"
  blk_set_difficulty :: "u32 \<Rightarrow> 'blk \<Rightarrow> 'blk"
  blk_nonce :: "'blk \<Rightarrow> u64"
  blk_set_nonce :: "u64 \<Rightarrow> 'blk \<Rightarrow> 'blk"
  blk_set_state_root :: "hash \<Rightarrow> 'blk \<Rightarrow> 'blk"
  blk_window_weight :: "'blk \<Rightarrow> u64 option"
  blk_inclusion_proof :: "'blk \<Rightarrow> usize \<Rightarrow> node_error + 'prf"
  prf_leaf_index :: "'prf \<Rightarrow> u32"
  verify_bundle :: "('tx, 'hdr, 'prf) rollback_bundle \<Rightarrow> rollback_proof_error + verified_rollback"
  rollback_proof_version :: nat
  genesis_ledger :: "genesis_error + 'ldg"
  genesis_hash :: hash
  create_genesis_block :: "address \<Rightarrow> genesis_error + 'blk"
  mintable_subsidy :: "'ldg \<Rightarrow> u64 \<Rightarrow> ledger_error + u64"
  new_candidate_block :: "u64 \<Rightarrow> hash \<Rightarrow> address \<Rightarrow> u32 \<Rightarrow> u64 \<Rightarrow> consensus_error + 'blk"
  snapshot_paqus_bytes :: "'ldg \<Rightarrow> node_error + bytes"
  finality_depth :: u64
  confirmation_depth :: u64
  error_fmt_api :: error_texts

end
