(* ===== verification/Compact.thy ===== *)
theory Compact
  imports Node_Api
begin

text \<open>
  Compact blocks, \<open>node/src/runtime/network/compact.rs\<close>: a block is announced by its header and a
  short id per transaction, and rebuilt from the mempool and the transactions a peer supplies.
\<close>

section \<open>Data\<close>

text \<open>
  The parts of the crate only this module uses: the body of a block besides its transactions,
  the block constructor (header, allocations, coinbase, transactions, nonce), the raw domain
  hash, and the limit on the items of a decoded block.
\<close>

record ('blk, 'hdr, 'tx, 'gen, 'cb) compact_api =
  blk_genesis_allocations :: "'blk \<Rightarrow> 'gen list"
  blk_coinbase :: "'blk \<Rightarrow> 'cb option"
  make_block :: "'hdr \<Rightarrow> 'gen list \<Rightarrow> 'cb option \<Rightarrow> 'tx list \<Rightarrow> u64 \<Rightarrow> 'blk"
  domain_hash_raw :: "bytes \<Rightarrow> hash"
  max_block_decode_items :: nat

definition COMPACT_SHORT_ID_BYTES :: nat where "COMPACT_SHORT_ID_BYTES = 8"

definition MAX_COMPACT_RECOVERY_TRANSACTIONS :: nat where "MAX_COMPACT_RECOVERY_TRANSACTIONS = 1024"

record ('hdr, 'gen, 'cb) compact_block =
  cb_header :: 'hdr
  cb_genesis_allocations :: "'gen list"
  cb_coinbase :: "'cb option"
  cb_short_ids :: "u64 list"

record 'tx indexed_block_transaction =
  it_index :: u32
  it_transaction :: 'tx

datatype 'blk compact_reconstruction = CompactComplete 'blk | CompactMissing "u32 list"

datatype compact_block_error =
  TooManyTransactions | InvalidTransactionIndex | DuplicateTransactionIndex | ShortIdCollision
| TransactionShortIdMismatch | CompactSerialization

fun compact_block_error_fmt :: "compact_block_error \<Rightarrow> string" where
  "compact_block_error_fmt TooManyTransactions = ''compact block transaction count exceeds limit''"
| "compact_block_error_fmt InvalidTransactionIndex = ''compact block transaction index is invalid''"
| "compact_block_error_fmt DuplicateTransactionIndex = ''compact block transaction index is duplicated''"
| "compact_block_error_fmt ShortIdCollision = ''compact block short transaction ID collision''"
| "compact_block_error_fmt TransactionShortIdMismatch =
     ''compact block transaction does not match its short ID''"
| "compact_block_error_fmt CompactSerialization = ''compact block hashing failed''"

section \<open>Operations\<close>

definition compact_short_id ::
  "('blk, 'hdr, 'tx, 'gen, 'cb, 'y) compact_api_scheme \<Rightarrow> hash \<Rightarrow> hash \<Rightarrow> u64" where
  "compact_short_id C block_hash transaction_hash =
     of_nat (be_value (rev (take COMPACT_SHORT_ID_BYTES
       (domain_hash_raw C (bstr ''PAQUS_COMPACT_BLOCK_V1'' @ block_hash @ transaction_hash)))))"

definition short_id_of ::
  "('tx, 'z) tx_api_scheme \<Rightarrow> ('blk, 'hdr, 'tx, 'gen, 'cb, 'y) compact_api_scheme \<Rightarrow> hash \<Rightarrow> 'tx \<Rightarrow>
   compact_block_error + u64" where
  "short_id_of P C block_hash t =
     rbind (map_err (\<lambda>_. CompactSerialization) (tx_hash P t)) (\<lambda>h. Inr (compact_short_id C block_hash h))"

definition compact_from_block ::
  "('tx, 'ldg, 'blk, 'hdr, 'acct, 'z) chain_api_scheme \<Rightarrow> ('blk, 'hdr, 'tx, 'gen, 'cb, 'y) compact_api_scheme \<Rightarrow>
   'blk \<Rightarrow> compact_block_error + ('hdr, 'gen, 'cb) compact_block" where
  "compact_from_block P C block =
     (if max_block_decode_items C < length (blk_transactions P block) then Inl TooManyTransactions
      else rbind (map_err (\<lambda>_. CompactSerialization) (blk_hash P block)) (\<lambda>block_hash.
           rbind (map_res (short_id_of P C block_hash) (blk_transactions P block)) (\<lambda>short_ids.
             if length (remdups short_ids) \<noteq> length short_ids then Inl ShortIdCollision
             else Inr \<lparr>cb_header = blk_header P block,
                       cb_genesis_allocations = blk_genesis_allocations C block,
                       cb_coinbase = blk_coinbase C block, cb_short_ids = short_ids\<rparr>)))"

definition compact_block_hash ::
  "('tx, 'ldg, 'blk, 'hdr, 'acct, 'z) chain_api_scheme \<Rightarrow> ('hdr, 'gen, 'cb) compact_block \<Rightarrow>
   compact_block_error + hash" where
  "compact_block_hash P cb = map_err (\<lambda>_. CompactSerialization) (hdr_hash P (cb_header cb))"

text \<open>The loop over the supplied transactions.\<close>

fun supply_loop ::
  "('tx, 'z) tx_api_scheme \<Rightarrow> ('blk, 'hdr, 'tx, 'gen, 'cb, 'y) compact_api_scheme \<Rightarrow> hash \<Rightarrow> u64 list \<Rightarrow>
   'tx indexed_block_transaction list \<Rightarrow> (nat, 'tx) btree \<Rightarrow> compact_block_error + (nat, 'tx) btree" where
  "supply_loop P C block_hash short_ids [] by_index = Inr by_index"
| "supply_loop P C block_hash short_ids (item # items) by_index =
     (let index = unat (it_index item) in
      if length short_ids \<le> index then Inl InvalidTransactionIndex
      else rbind (short_id_of P C block_hash (it_transaction item)) (\<lambda>short_id.
        if short_id \<noteq> short_ids ! index then Inl TransactionShortIdMismatch
        else if bt_has by_index index then Inl DuplicateTransactionIndex
        else supply_loop P C block_hash short_ids items (bt_insert index (it_transaction item) by_index)))"

text \<open>The loop over the mempool.\<close>

fun pool_loop ::
  "('tx, 'z) tx_api_scheme \<Rightarrow> ('blk, 'hdr, 'tx, 'gen, 'cb, 'y) compact_api_scheme \<Rightarrow> hash \<Rightarrow> u64 list \<Rightarrow>
   'tx list \<Rightarrow> (u64, 'tx) btree \<Rightarrow> compact_block_error + (u64, 'tx) btree" where
  "pool_loop P C block_hash wanted [] by_short_id = Inr by_short_id"
| "pool_loop P C block_hash wanted (t # ts) by_short_id =
     rbind (short_id_of P C block_hash t) (\<lambda>short_id.
       if short_id \<notin> set wanted then pool_loop P C block_hash wanted ts by_short_id
       else if bt_has by_short_id short_id then Inl ShortIdCollision
       else pool_loop P C block_hash wanted ts (bt_insert short_id t by_short_id))"

text \<open>The final loop: the transactions found, and the indices that are missing.\<close>

fun fill_loop ::
  "nat \<Rightarrow> u64 list \<Rightarrow> (nat, 'tx) btree \<Rightarrow> (u64, 'tx) btree \<Rightarrow> 'tx list \<times> u32 list" where
  "fill_loop index [] by_index by_short_id = ([], [])"
| "fill_loop index (short_id # short_ids) by_index by_short_id =
     (case bt_get by_index index of
        Some t \<Rightarrow> apfst ((#) t) (fill_loop (Suc index) short_ids (bt_remove index by_index) by_short_id)
      | None \<Rightarrow>
          (case bt_get by_short_id short_id of
             Some t \<Rightarrow> apfst ((#) t) (fill_loop (Suc index) short_ids by_index by_short_id)
           | None \<Rightarrow> apsnd ((#) (of_nat index)) (fill_loop (Suc index) short_ids by_index by_short_id)))"

definition reconstruct ::
  "('tx, 'ldg, 'blk, 'hdr, 'acct, 'z) chain_api_scheme \<Rightarrow> ('blk, 'hdr, 'tx, 'gen, 'cb, 'y) compact_api_scheme \<Rightarrow>
   ('hdr, 'gen, 'cb) compact_block \<Rightarrow> 'tx mempool \<Rightarrow> 'tx indexed_block_transaction list \<Rightarrow>
   compact_block_error + 'blk compact_reconstruction" where
  "reconstruct P C cb mp supplied =
     (if max_block_decode_items C < length (cb_short_ids cb) \<or> max_block_decode_items C < length supplied
      then Inl TooManyTransactions
      else if length (remdups (cb_short_ids cb)) \<noteq> length (cb_short_ids cb) then Inl ShortIdCollision
      else rbind (compact_block_hash P cb) (\<lambda>block_hash.
           rbind (supply_loop P C block_hash (cb_short_ids cb) supplied []) (\<lambda>by_index.
           rbind (pool_loop P C block_hash (cb_short_ids cb) (mp_values mp) []) (\<lambda>by_short_id.
             let (transactions, missing) = fill_loop 0 (cb_short_ids cb) by_index by_short_id in
             if missing \<noteq> [] then Inr (CompactMissing missing)
             else Inr (CompactComplete
                    (make_block C (cb_header cb) (cb_genesis_allocations cb) (cb_coinbase cb)
                       transactions 0))))))"

section \<open>Rebuilding a block\<close>

lemma supply_loop_exact:
  assumes "\<forall>item \<in> set items. unat (it_index item) < length ids \<and>
      short_id_of P C bh (it_transaction item) = Inr (ids ! unat (it_index item))"
    and "distinct (map it_index items)"
    and "\<forall>item \<in> set items. \<not> bt_has m (unat (it_index item))"
  shows "supply_loop P C bh ids items m =
    Inr (fold (\<lambda>item. bt_insert (unat (it_index item)) (it_transaction item)) items m)"
  using assms
proof (induction items arbitrary: m)
  case (Cons item items)
  then show ?case
    by (auto simp: bt_has_def image_iff word_unat_eq_iff [symmetric] intro!: Cons.IH split: if_splits)
qed simp

lemma pool_loop_exact:
  assumes "\<forall>t \<in> set ts. short_id_of P C bh t = Inr (sid t)"
    and "distinct (map sid (filter (\<lambda>t. sid t \<in> set wanted) ts))"
    and "\<forall>t \<in> set ts. sid t \<in> set wanted \<longrightarrow> \<not> bt_has m (sid t)"
  shows "pool_loop P C bh wanted ts m =
    Inr (fold (\<lambda>t. bt_insert (sid t) t) (filter (\<lambda>t. sid t \<in> set wanted) ts) m)"
  using assms
proof (induction ts arbitrary: m)
  case (Cons t ts)
  then show ?case by (auto simp: bt_has_def image_iff intro!: Cons.IH split: if_splits)
qed simp

definition fill_source :: "(nat, 'tx) btree \<Rightarrow> (u64, 'tx) btree \<Rightarrow> nat \<times> u64 \<Rightarrow> 'tx option" where
  "fill_source A B e = (case bt_get A (fst e) of Some t \<Rightarrow> Some t | None \<Rightarrow> bt_get B (snd e))"

lemma fill_loop_exact:
  "fill_loop i ids A B =
    (List.map_filter (fill_source A B) (enumerate i ids),
     map (of_nat \<circ> fst) (filter (\<lambda>e. fill_source A B e = None) (enumerate i ids)))"
proof (induction ids arbitrary: i A)
  case (Cons s ids)
  have later: "fill_source (bt_remove i A) B e = fill_source A B e" if "e \<in> set (enumerate (Suc i) ids)" for e
    using that by (auto simp: fill_source_def in_set_enumerate_eq)
  have "List.map_filter (fill_source (bt_remove i A) B) (enumerate (Suc i) ids) =
      List.map_filter (fill_source A B) (enumerate (Suc i) ids)"
    "filter (\<lambda>e. fill_source (bt_remove i A) B e = None) (enumerate (Suc i) ids) =
      filter (\<lambda>e. fill_source A B e = None) (enumerate (Suc i) ids)"
    using later by (auto simp: List.map_filter_def intro!: filter_cong arg_cong2 [where f = map] map_cong)
  moreover have "fill_source A B (i, s) = (case bt_get A i of Some t \<Rightarrow> Some t | None \<Rightarrow> bt_get B s)"
    by (simp add: fill_source_def split: option.split)
  ultimately show ?case
    by (cases "bt_get A i"; cases "bt_get B s") (simp_all add: Cons.IH List.map_filter_simps)
qed (simp add: List.map_filter_simps)

lemma bt_get_fold_keys:
  assumes "\<forall>x \<in> set xs. f x = k \<longrightarrow> g x = v" "\<exists>x \<in> set xs. f x = k"
  shows "bt_get (fold (\<lambda>x. bt_insert (f x) (g x)) xs m) k = Some v"
proof -
  obtain x where "find (\<lambda>x. f x = k) (rev xs) = Some x"
    using assms(2) by (cases "find (\<lambda>x. f x = k) (rev xs)") (auto simp: find_None_iff)
  moreover from find_SomeD [OF this] have "g x = v" using assms(1) by simp
  ultimately show ?thesis by (simp add: bt_get_fold_insert_find)
qed

lemma bt_get_fold_absent:
  assumes "\<forall>x \<in> set xs. f x \<noteq> k"
  shows "bt_get (fold (\<lambda>x. bt_insert (f x) (g x)) xs m) k = bt_get m k"
proof -
  have "find (\<lambda>x. f x = k) (rev xs) = None" using assms by (simp add: find_None_iff)
  then show ?thesis by (simp add: bt_get_fold_insert_find)
qed

text \<open>The transactions at hand identify the block's transactions by short id without mistake.\<close>

definition no_collision ::
  "('tx, 'z) tx_api_scheme \<Rightarrow> ('blk, 'hdr, 'tx, 'gen, 'cb, 'y) compact_api_scheme \<Rightarrow> hash \<Rightarrow> 'tx list \<Rightarrow> 'tx list \<Rightarrow> bool" where
  "no_collision P C bh pool ts \<longleftrightarrow>
     distinct pool \<and> (\<forall>t \<in> set pool. \<exists>h. tx_hash P t = Inr h) \<and>
     (\<forall>t \<in> set pool. \<forall>t' \<in> set ts. short_id_of P C bh t = short_id_of P C bh t' \<longrightarrow> t = t')"

definition missing_indices :: "'tx list \<Rightarrow> 'tx list \<Rightarrow> 'tx indexed_block_transaction list \<Rightarrow> nat list" where
  "missing_indices ts pool supplied =
     filter (\<lambda>i. i \<notin> (unat \<circ> it_index) ` set supplied \<and> ts ! i \<notin> set pool) [0..<length ts]"

lemma fill_loop_block:
  assumes ids: "length ids = length ts"
    and source: "\<And>i. i < length ts \<Longrightarrow>
      fill_source A B (i, ids ! i) = (if Q i then None else Some (ts ! i))"
  shows "snd (fill_loop 0 ids A B) = map of_nat (filter Q [0..<length ts])"
    and "filter Q [0..<length ts] = [] \<Longrightarrow> fst (fill_loop 0 ids A B) = ts"
proof -
  have enum: "enumerate 0 ids = map (\<lambda>i. (i, ids ! i)) [0..<length ts]"
    using ids by (auto intro!: nth_equalityI simp: nth_enumerate_eq)
  have flt: "filter (\<lambda>i. fill_source A B (i, ids ! i) = None) [0..<length ts] = filter Q [0..<length ts]"
    by (auto simp: source intro!: filter_cong split: if_splits)
  then show "snd (fill_loop 0 ids A B) = map of_nat (filter Q [0..<length ts])"
    by (simp add: fill_loop_exact enum filter_map o_def)
  assume none: "filter Q [0..<length ts] = []"
  have "map (the \<circ> fill_source A B) (filter (\<lambda>e. fill_source A B e \<noteq> None) (enumerate 0 ids)) =
      map (\<lambda>i. the (fill_source A B (i, ids ! i))) [0..<length ts]"
    using none by (simp add: enum filter_map o_def source filter_empty_conv)
  also have "\<dots> = ts"
    using none by (auto intro!: nth_equalityI simp: source filter_empty_conv)
  finally show "fst (fill_loop 0 ids A B) = ts"
    by (simp add: fill_loop_exact List.map_filter_def o_def)
qed

lemma fill_source_block:
  assumes ids: "map_res (short_id_of P C bh) ts = Inr ids" "distinct ids"
    and pool: "no_collision P C bh pool ts"
    and items: "\<forall>item \<in> set supplied. unat (it_index item) < length ts \<and>
      it_transaction item = ts ! unat (it_index item)" "distinct (map it_index supplied)"
  shows "\<exists>A B. supply_loop P C bh ids supplied [] = Inr A \<and> pool_loop P C bh ids pool [] = Inr B \<and>
    (\<forall>i < length ts. fill_source A B (i, ids ! i) =
       (if i \<notin> (unat \<circ> it_index) ` set supplied \<and> ts ! i \<notin> set pool then None else Some (ts ! i)))"
proof -
  define sid where "sid t = (case short_id_of P C bh t of Inl _ \<Rightarrow> 0 | Inr s \<Rightarrow> s)" for t
  have len: "length ids = length ts" by (rule map_res_length [OF ids(1)])
  have at: "short_id_of P C bh (ts ! i) = Inr (ids ! i)" if "i < length ts" for i
    using ids(1) that by (simp add: map_res_Inr_iff list_all2_conv_all_nth)
  have known: "\<forall>t \<in> set pool. short_id_of P C bh t = Inr (sid t)"
    using pool by (fastforce simp: no_collision_def short_id_of_def sid_def)
  have same: "t = ts ! i" if "t \<in> set pool" "i < length ts" "sid t = ids ! i" for t i
    using that pool at [OF that(2)] known by (auto simp: no_collision_def)
  have hit: "t \<in> set ts" if "t \<in> set pool" "sid t \<in> set ids" for t
    using that same len by (metis in_set_conv_nth)
  have inj: "inj_on sid (set (filter (\<lambda>t. sid t \<in> set ids) pool))"
    using same len by (auto simp: inj_on_def in_set_conv_nth) metis
  let ?A = "fold (\<lambda>item. bt_insert (unat (it_index item)) (it_transaction item)) supplied []"
  let ?B = "fold (\<lambda>t. bt_insert (sid t) t) (filter (\<lambda>t. sid t \<in> set ids) pool) []"
  have A: "supply_loop P C bh ids supplied [] = Inr ?A"
    using items len at by (intro supply_loop_exact) (auto simp: bt_has_def)
  have B: "pool_loop P C bh ids pool [] = Inr ?B"
    using pool inj by (intro pool_loop_exact known) (auto simp: bt_has_def no_collision_def distinct_map)
  have "fill_source ?A ?B (i, ids ! i) =
      (if i \<notin> (unat \<circ> it_index) ` set supplied \<and> ts ! i \<notin> set pool then None else Some (ts ! i))"
    if i: "i < length ts" for i
  proof (cases "i \<in> (unat \<circ> it_index) ` set supplied")
    case True
    then have "bt_get ?A i = Some (ts ! i)"
      using items(1) by (intro bt_get_fold_keys) auto
    with True show ?thesis by (simp add: fill_source_def)
  next
    case False
    then have none: "bt_get ?A i = None" by (subst bt_get_fold_absent) auto
    have "bt_get ?B (ids ! i) = (if ts ! i \<in> set pool then Some (ts ! i) else None)"
    proof (cases "ts ! i \<in> set pool")
      case True
      then have "sid (ts ! i) = ids ! i" using at [OF i] by (simp add: sid_def)
      then have "bt_get ?B (ids ! i) = Some (ts ! i)"
        using True i len by (intro bt_get_fold_keys) (auto intro: same [OF _ i])
      with True show ?thesis by simp
    next
      case no: False
      then have "bt_get ?B (ids ! i) = bt_get [] (ids ! i)"
        by (intro bt_get_fold_absent) (auto dest: same [OF _ i])
      with no show ?thesis by simp
    qed
    with False none show ?thesis by (simp add: fill_source_def)
  qed
  with A B show ?thesis by blast
qed

text \<open>C16: A compact block rebuilds the block it was made from: with the mempool and an honest peer's
  transactions at hand, and no short-id collision, the answer is the list of indices that are in
  neither, or, when there are none, a block with the header, allocations, coinbase and
  transactions of the original. Its proof nonce is always zero.\<close>

theorem reconstruct_from_block:
  assumes from_block: "compact_from_block P C block = Inr cb"
    and header: "hdr_hash P (blk_header P block) = blk_hash P block" "blk_hash P block = Inr bh"
    and pool: "no_collision P C bh (mp_values mp) (blk_transactions P block)"
    and items: "length supplied \<le> max_block_decode_items C" "distinct (map it_index supplied)"
      "\<forall>item \<in> set supplied. unat (it_index item) < length (blk_transactions P block) \<and>
         it_transaction item = blk_transactions P block ! unat (it_index item)"
  shows "reconstruct P C cb mp supplied =
    (let missing = missing_indices (blk_transactions P block) (mp_values mp) supplied
     in Inr (if missing \<noteq> [] then CompactMissing (map of_nat missing)
             else CompactComplete (make_block C (blk_header P block) (blk_genesis_allocations C block)
                    (blk_coinbase C block) (blk_transactions P block) 0)))"
proof -
  let ?ts = "blk_transactions P block"
  obtain ids where ids: "map_res (short_id_of P C bh) ?ts = Inr ids" "distinct ids"
    and cb: "cb = \<lparr>cb_header = blk_header P block, cb_genesis_allocations = blk_genesis_allocations C block,
      cb_coinbase = blk_coinbase C block, cb_short_ids = ids\<rparr>"
    and few: "length ?ts \<le> max_block_decode_items C"
    using from_block header(2)
    by (auto simp: compact_from_block_def rbind_Inr_iff not_less length_remdups_card_conv
        card_distinct split: if_splits)
  obtain A B where loops: "supply_loop P C bh ids supplied [] = Inr A"
    "pool_loop P C bh ids (mp_values mp) [] = Inr B"
    and source: "\<And>i. i < length ?ts \<Longrightarrow> fill_source A B (i, ids ! i) =
       (if i \<notin> (unat \<circ> it_index) ` set supplied \<and> ?ts ! i \<notin> set (mp_values mp) then None else Some (?ts ! i))"
    using fill_source_block [OF ids pool items(3,2)] by blast
  note fill = fill_loop_block [OF map_res_length [OF ids(1)] source, folded missing_indices_def]
  obtain found missing where eq: "fill_loop 0 ids A B = (found, missing)" by fastforce
  have "compact_block_hash P cb = Inr bh" using header by (simp add: compact_block_hash_def cb)
  then have "reconstruct P C cb mp supplied =
      Inr (if missing \<noteq> [] then CompactMissing missing
           else CompactComplete (make_block C (blk_header P block) (blk_genesis_allocations C block)
                  (blk_coinbase C block) found 0))"
    using items(1) few map_res_length [OF ids(1)] loops ids(2)
    by (simp add: reconstruct_def cb eq distinct_remdups_id)
  moreover have "missing = map of_nat (missing_indices ?ts (mp_values mp) supplied)"
    "missing_indices ?ts (mp_values mp) supplied = [] \<Longrightarrow> found = ?ts"
    using fill eq by simp_all
  ultimately show ?thesis by (simp add: Let_def)
qed

definition sample_compact :: "(sample_block, sample_header, sample_tx, unit, unit) compact_api" where
  "sample_compact = \<lparr>blk_genesis_allocations = (\<lambda>b. []), blk_coinbase = (\<lambda>b. None),
     make_block = (\<lambda>h _ _ ts _. SBlk (sh_id h) (sh_parent h) (sh_height h) ts),
     domain_hash_raw = drop 22, max_block_decode_items = 10\<rparr>"

theorem reconstruct_from_block_witness:
  "\<exists>cb. compact_from_block sample_api sample_compact (SBlk 5 4 1 [STx 1 2 3 4 [], STx 6 2 5 4 []]) = Inr cb \<and>
     reconstruct sample_api sample_compact cb
       ((with_config mempool_config_default)\<lparr>mp_transactions := [([1], STx 1 2 3 4 [])]\<rparr>) [] =
     Inr (CompactMissing [1])"
proof -
  let ?b = "SBlk 5 4 1 [STx 1 2 3 4 [], STx 6 2 5 4 []]"
  let ?mp = "(with_config mempool_config_default)\<lparr>mp_transactions := [([1], STx 1 2 3 4 [])]\<rparr>"
  have "\<not> isl (compact_from_block sample_api sample_compact ?b)" by code_simp
  then obtain cb where cb: "compact_from_block sample_api sample_compact ?b = Inr cb"
    by (cases "compact_from_block sample_api sample_compact ?b") simp_all
  have hdr: "hdr_hash sample_api (blk_header sample_api ?b) = blk_hash sample_api ?b"
    "blk_hash sample_api ?b = Inr [5]"
    by code_simp+
  have "short_id_of sample_api sample_compact [5] (STx 1 2 3 4 []) \<noteq>
      short_id_of sample_api sample_compact [5] (STx 6 2 5 4 [])"
    by code_simp
  then have pool: "no_collision sample_api sample_compact [5] (mp_values ?mp) (blk_transactions sample_api ?b)"
    by (simp add: no_collision_def mp_values_def sample_api_def)
  have "missing_indices (blk_transactions sample_api ?b) (mp_values ?mp) [] = [1]"
    by code_simp
  with reconstruct_from_block [OF cb hdr pool, of "[]"] cb show ?thesis by simp
qed

end
