(* ===== verification/Messages.thy ===== *)
theory Messages
  imports Compact
begin

text \<open>
  The peer-to-peer wire: messages and envelopes (\<open>network/message.rs\<close>), their errors
  (\<open>network/error.rs\<close>), the traffic counters (\<open>network/metrics.rs\<close>) and the framing on a stream
  (\<open>network/transport.rs\<close>). An envelope travels as its length in four big-endian bytes followed by
  its encoding. The stream a message is read from is the list of what its \<open>read\<close> calls deliver, so
  that any fragmentation, interruption or failure of the transport is a value of the model.
\<close>

section \<open>Messages\<close>

record peer_info =
  pi_address :: string

record tip_info =
  ti_height :: u64
  ti_hash :: hash
  ti_work :: "u64 list"

record version_info =
  vi_protocol_version :: u8
  vi_p2p_wire_format_version :: u8
  vi_chain_id :: u32
  vi_chain_name :: string
  vi_protocol_stage :: string
  vi_pow_algorithm :: string
  vi_difficulty_algorithm :: string
  vi_network_magic :: bytes
  vi_tip :: "tip_info option"

datatype reject_reason =
  ProtocolVersionMismatch | ChainMismatch | NetworkMismatch | ConsensusMismatch | InvalidMessage

datatype inventory_item = InvBlock hash | InvTransaction hash

datatype snapshot_compression = NoCompression | Rle

datatype ('blk, 'hdr, 'tx, 'gen, 'cb) network_message =
  MsgVersion version_info
| MsgVerAck version_info
| MsgReject reject_reason string
| MsgPing u64
| MsgPong u64
| MsgGetTip
| MsgTip tip_info
| MsgGetBlockByHeight u64
| MsgGetBlocksByHeightRange u64 u32
| MsgGetBlockHeadersByHeightRange u64 u32
| MsgGetCommonAncestor "hash list"
| MsgCommonAncestor "tip_info option"
| MsgGetBlockByHash hash
| MsgBlock 'blk
| MsgBlocks "'blk list"
| MsgBlockHeaders "'hdr list"
| MsgGetSnapshotManifest u64 hash
| MsgSnapshotManifest u64 hash u64 hash u32
| MsgGetSnapshotChunk u64 hash u64 u32
| MsgSnapshotChunk u64 hash u64 snapshot_compression u32 bytes
| MsgInventory "inventory_item list"
| MsgGetData "inventory_item list"
| MsgTransaction 'tx
| MsgTransactions "'tx list"
| MsgGetMempoolInventory
| MsgReconcileMempool u64 "u64 list"
| MsgGetPeers
| MsgPeers "peer_info list"
| MsgCompactBlock "('hdr, 'gen, 'cb) compact_block"
| MsgGetCompactBlockTransactions hash "u32 list"
| MsgCompactBlockTransactions hash "'tx indexed_block_transaction list"

record ('blk, 'hdr, 'tx, 'gen, 'cb) network_envelope =
  ne_magic :: bytes
  ne_request_id :: u64
  ne_response_to :: u64
  ne_message :: "('blk, 'hdr, 'tx, 'gen, 'cb) network_message"

section \<open>Errors\<close>

text \<open>
  An \<open>io::Error\<close> is one the codec or the operating system reports, or one the node builds from a
  kind and a text.
\<close>

datatype io_kind = UnexpectedEof | InvalidData | Interrupted | WouldBlock | TimedOut | OtherKind nat

datatype net_io = ForeignIo io_error | IoFailure io_kind string

datatype network_error =
  MessageTooLarge
| NetworkNode node_error
| NetworkIo net_io
| NetworkSerialization net_io

fun net_io_fmt :: "'z error_texts_scheme \<Rightarrow> net_io \<Rightarrow> string" where
  "net_io_fmt D (ForeignIo e) = txt_io D e"
| "net_io_fmt D (IoFailure kind message) = message"

fun network_error_fmt :: "'z error_texts_scheme \<Rightarrow> network_error \<Rightarrow> string" where
  "network_error_fmt D MessageTooLarge = ''network message exceeds maximum size''"
| "network_error_fmt D (NetworkNode e) = ''network node handler error: '' @ node_error_fmt D e"
| "network_error_fmt D (NetworkIo e) = ''network I/O error: '' @ net_io_fmt D e"
| "network_error_fmt D (NetworkSerialization e) =
     ''network message serialization error: '' @ net_io_fmt D e"

section \<open>The interface\<close>

text \<open>
  The chain parameters of the crate (\<open>CURRENT_CHAIN_PARAMS\<close>) that the network layer reads, the borsh
  codec of an envelope, the crate's payload hash and the hexadecimal printer of the \<open>hex\<close> crate.
\<close>

record chain_params =
  cp_protocol_version :: u8
  cp_chain_id :: u32
  cp_chain_name :: string
  cp_protocol_stage :: string
  cp_pow_algorithm :: string
  cp_difficulty_algorithm :: string
  cp_network_magic :: bytes

record ('blk, 'hdr, 'tx, 'gen, 'cb) wire_api = chain_params +
  cod_envelope :: "('blk, 'hdr, 'tx, 'gen, 'cb) network_envelope codec"
  artifact_payload_hash :: "bytes \<Rightarrow> hash"
  hex_encode :: "bytes \<Rightarrow> string"

section \<open>Versions\<close>

definition version_local :: "'z chain_params_scheme \<Rightarrow> tip_info option \<Rightarrow> version_info" where
  "version_local W tip = \<lparr>vi_protocol_version = cp_protocol_version W,
     vi_p2p_wire_format_version = P2P_WIRE_FORMAT_VERSION, vi_chain_id = cp_chain_id W,
     vi_chain_name = cp_chain_name W, vi_protocol_stage = cp_protocol_stage W,
     vi_pow_algorithm = cp_pow_algorithm W, vi_difficulty_algorithm = cp_difficulty_algorithm W,
     vi_network_magic = cp_network_magic W, vi_tip = tip\<rparr>"

definition validate_compatibility ::
  "'z chain_params_scheme \<Rightarrow> version_info \<Rightarrow> reject_reason + unit" where
  "validate_compatibility W v =
     (if vi_network_magic v \<noteq> cp_network_magic W then Inl NetworkMismatch
      else if vi_chain_id v \<noteq> cp_chain_id W \<or> vi_chain_name v \<noteq> cp_chain_name W \<or>
          vi_protocol_stage v \<noteq> cp_protocol_stage W then Inl ChainMismatch
      else if vi_protocol_version v \<noteq> cp_protocol_version W then Inl ProtocolVersionMismatch
      else if vi_p2p_wire_format_version v \<noteq> P2P_WIRE_FORMAT_VERSION then Inl ProtocolVersionMismatch
      else if vi_pow_algorithm v \<noteq> cp_pow_algorithm W \<or>
          vi_difficulty_algorithm v \<noteq> cp_difficulty_algorithm W then Inl ConsensusMismatch
      else Inr ())"

section \<open>Envelopes\<close>

definition envelope_new ::
  "('blk, 'hdr, 'tx, 'gen, 'cb, 'z) wire_api_scheme \<Rightarrow> ('blk, 'hdr, 'tx, 'gen, 'cb) network_message \<Rightarrow>
   ('blk, 'hdr, 'tx, 'gen, 'cb) network_envelope" where
  "envelope_new W message = \<lparr>ne_magic = cp_network_magic W, ne_request_id = 0, ne_response_to = 0,
     ne_message = message\<rparr>"

definition envelope_request ::
  "('blk, 'hdr, 'tx, 'gen, 'cb, 'z) wire_api_scheme \<Rightarrow> u64 \<Rightarrow> ('blk, 'hdr, 'tx, 'gen, 'cb) network_message \<Rightarrow>
   ('blk, 'hdr, 'tx, 'gen, 'cb) network_envelope" where
  "envelope_request W request_id message = \<lparr>ne_magic = cp_network_magic W, ne_request_id = request_id,
     ne_response_to = 0, ne_message = message\<rparr>"

definition envelope_response ::
  "('blk, 'hdr, 'tx, 'gen, 'cb, 'z) wire_api_scheme \<Rightarrow> u64 \<Rightarrow> ('blk, 'hdr, 'tx, 'gen, 'cb) network_message \<Rightarrow>
   ('blk, 'hdr, 'tx, 'gen, 'cb) network_envelope" where
  "envelope_response W response_to message = \<lparr>ne_magic = cp_network_magic W, ne_request_id = 0,
     ne_response_to = response_to, ne_message = message\<rparr>"

definition to_envelope where
  "to_envelope W message = envelope_new W message"

definition envelope_to_bytes ::
  "('blk, 'hdr, 'tx, 'gen, 'cb, 'z) wire_api_scheme \<Rightarrow> ('blk, 'hdr, 'tx, 'gen, 'cb) network_envelope \<Rightarrow>
   network_error + bytes" where
  "envelope_to_bytes W envelope =
     rbind (map_err (NetworkSerialization \<circ> ForeignIo) (fst (cod_envelope W) envelope)) (\<lambda>bytes.
       if unat MAX_NETWORK_MESSAGE_SIZE < length bytes then Inl MessageTooLarge else Inr bytes)"

definition envelope_from_bytes ::
  "('blk, 'hdr, 'tx, 'gen, 'cb, 'z) wire_api_scheme \<Rightarrow> bytes \<Rightarrow>
   network_error + ('blk, 'hdr, 'tx, 'gen, 'cb) network_envelope" where
  "envelope_from_bytes W bytes =
     (if unat MAX_NETWORK_MESSAGE_SIZE < length bytes then Inl MessageTooLarge
      else rbind (map_err (NetworkSerialization \<circ> ForeignIo) (snd (cod_envelope W) bytes)) (\<lambda>envelope.
        if ne_magic envelope \<noteq> cp_network_magic W
        then Inl (NetworkSerialization (IoFailure InvalidData ''network magic mismatch''))
        else Inr envelope))"

section \<open>Traffic counters\<close>

text \<open>The six counters per direction are arrays of atomics; \<open>fetch_add\<close> wraps around.\<close>

record network_metrics =
  nm_rx_bytes :: "u64 list"
  nm_tx_bytes :: "u64 list"
  nm_duplicate_transactions :: u64
  nm_compact_success :: u64
  nm_compact_fallback :: u64
  nm_compact_missing_transactions :: u64

definition NETWORK_CATEGORIES :: "string list" where
  "NETWORK_CATEGORIES = [''control'', ''block'', ''transaction'', ''snapshot'', ''reconcile'', ''peer'']"

definition metrics_new :: network_metrics where
  "metrics_new = \<lparr>nm_rx_bytes = replicate 6 0, nm_tx_bytes = replicate 6 0,
     nm_duplicate_transactions = 0, nm_compact_success = 0, nm_compact_fallback = 0,
     nm_compact_missing_transactions = 0\<rparr>"

fun category :: "('blk, 'hdr, 'tx, 'gen, 'cb) network_message \<Rightarrow> nat" where
  "category (MsgBlock _) = 1"
| "category (MsgBlocks _) = 1"
| "category (MsgBlockHeaders _) = 1"
| "category (MsgCompactBlock _) = 1"
| "category (MsgGetBlockByHeight _) = 1"
| "category (MsgGetBlocksByHeightRange _ _) = 1"
| "category (MsgGetBlockHeadersByHeightRange _ _) = 1"
| "category (MsgGetCommonAncestor _) = 1"
| "category (MsgCommonAncestor _) = 1"
| "category (MsgGetBlockByHash _) = 1"
| "category (MsgGetCompactBlockTransactions _ _) = 1"
| "category (MsgCompactBlockTransactions _ _) = 1"
| "category (MsgTransaction _) = 2"
| "category (MsgTransactions _) = 2"
| "category (MsgInventory _) = 2"
| "category (MsgGetData _) = 2"
| "category MsgGetMempoolInventory = 2"
| "category (MsgGetSnapshotManifest _ _) = 3"
| "category (MsgSnapshotManifest _ _ _ _ _) = 3"
| "category (MsgGetSnapshotChunk _ _ _ _) = 3"
| "category (MsgSnapshotChunk _ _ _ _ _ _) = 3"
| "category (MsgReconcileMempool _ _) = 4"
| "category MsgGetPeers = 5"
| "category (MsgPeers _) = 5"
| "category _ = 0"

definition fetch_add_at :: "nat \<Rightarrow> u64 \<Rightarrow> u64 list \<Rightarrow> u64 list" where
  "fetch_add_at i bytes counters = counters[i := counters ! i + bytes]"

definition record_rx ::
  "('blk, 'hdr, 'tx, 'gen, 'cb) network_message \<Rightarrow> u64 \<Rightarrow> network_metrics \<Rightarrow> network_metrics" where
  "record_rx message bytes m = m\<lparr>nm_rx_bytes := fetch_add_at (category message) bytes (nm_rx_bytes m)\<rparr>"

definition record_tx ::
  "('blk, 'hdr, 'tx, 'gen, 'cb) network_message \<Rightarrow> u64 \<Rightarrow> network_metrics \<Rightarrow> network_metrics" where
  "record_tx message bytes m = m\<lparr>nm_tx_bytes := fetch_add_at (category message) bytes (nm_tx_bytes m)\<rparr>"

definition metrics_snapshot :: "network_metrics \<Rightarrow> (u64 \<times> u64) list" where
  "metrics_snapshot m = map (\<lambda>i. (nm_rx_bytes m ! i, nm_tx_bytes m ! i)) [0..<6]"

section \<open>Framing\<close>

definition MESSAGE_LENGTH_SIZE :: nat where "MESSAGE_LENGTH_SIZE = 4"

text \<open>
  A writer is given by its \<open>write_all\<close>. The counters are the global \<open>NETWORK_METRICS\<close>, passed
  along; nothing is counted unless the whole frame was written.
\<close>

definition write_message ::
  "('blk, 'hdr, 'tx, 'gen, 'cb, 'z) wire_api_scheme \<Rightarrow> (bytes \<Rightarrow> 'w \<Rightarrow> 'w \<times> (net_io + unit)) \<Rightarrow>
   ('blk, 'hdr, 'tx, 'gen, 'cb) network_envelope \<Rightarrow> network_metrics \<times> 'w \<Rightarrow>
   (network_metrics \<times> 'w) \<times> (network_error + unit)" where
  "write_message W write_all envelope st =
     (let write = (\<lambda>bytes (m, w). case write_all bytes w of (w, r) \<Rightarrow> ((m, w), map_err NetworkIo r)) in
      sbind (st, envelope_to_bytes W envelope) (\<lambda>st bytes.
        if 2 ^ 32 \<le> length bytes then (st, Inl MessageTooLarge)
        else
          sbind (write (be_bytes 4 (length bytes)) st) (\<lambda>st _.
          sbind (write bytes st) (\<lambda>(m, w) _.
            ((record_tx (ne_message envelope) (of_nat (length bytes + 4)) m, w), Inr ())))))"

text \<open>
  What the calls of \<open>read\<close> on a stream deliver: some bytes, or an error of some kind; after the last
  event the stream is at its end, and delivers nothing.
\<close>

datatype read_event = Arrived bytes | Failed io_kind string

fun reader_read :: "nat \<Rightarrow> read_event list \<Rightarrow> read_event list \<times> (io_kind \<times> string + bytes)" where
  "reader_read n [] = ([], Inr [])"
| "reader_read n (Arrived bytes # events) =
     (if length bytes \<le> n then (events, Inr bytes)
      else (Arrived (drop n bytes) # events, Inr (take n bytes)))"
| "reader_read n (Failed kind message # events) = (events, Inl (kind, message))"

text \<open>The loop that fills a buffer; \<open>received\<close> is what it holds so far.\<close>

function read_exact_logged ::
  "string \<Rightarrow> nat \<Rightarrow> bytes \<Rightarrow> read_event list \<Rightarrow> read_event list \<times> (network_error + bytes)" where
  "read_exact_logged phase expected received events =
     (if length received < expected then
        (case reader_read (expected - length received) events of
           (events, Inl (kind, message)) \<Rightarrow>
             if kind = Interrupted then read_exact_logged phase expected received events
             else (events, Inl (NetworkIo (IoFailure kind
               (''failed while reading '' @ phase @ '': expected_bytes='' @ dec_string expected @
                '' received_bytes='' @ dec_string (length received) @ '': '' @ message))))
         | (events, Inr bytes) \<Rightarrow>
             if bytes = [] then (events, Inl (NetworkIo (IoFailure UnexpectedEof
               (''peer closed while reading '' @ phase @ '': expected_bytes='' @ dec_string expected @
                '' received_bytes='' @ dec_string (length received)))))
             else read_exact_logged phase expected (received @ bytes) events)
      else (events, Inr received))"
  by pat_completeness auto
termination
  by (relation "measures [\<lambda>(phase, expected, received, events). length events,
      \<lambda>(phase, expected, received, events). expected - length received]")
    (auto elim!: reader_read.elims [OF sym] split: if_splits)

declare read_exact_logged.simps [simp del]

definition read_message ::
  "('blk, 'hdr, 'tx, 'gen, 'cb, 'z) wire_api_scheme \<Rightarrow> network_metrics \<times> read_event list \<Rightarrow>
   (network_metrics \<times> read_event list) \<times> (network_error + ('blk, 'hdr, 'tx, 'gen, 'cb) network_envelope)" where
  "read_message W st =
     (let read = (\<lambda>phase expected (m, events).
            case read_exact_logged phase expected [] events of (events, r) \<Rightarrow> ((m, events), r)) in
      sbind (read ''length'' MESSAGE_LENGTH_SIZE st) (\<lambda>st length_bytes.
        let n = be_value length_bytes in
        if unat MAX_NETWORK_MESSAGE_SIZE < n then (st, Inl MessageTooLarge)
        else
          sbind (read ''payload'' n st) (\<lambda>st bytes.
          sbind (st, envelope_from_bytes W bytes) (\<lambda>(m, events) envelope.
            ((record_rx (ne_message envelope) (of_nat (length bytes + 4)) m, events), Inr envelope)))))"

section \<open>Reading back what was written\<close>

text \<open>
  A stream on which nothing fails: whatever arrives is not empty, and an error is at most an
  interruption. \<open>delivered\<close> is all it delivers, however it is cut into pieces.
\<close>

fun benign :: "read_event list \<Rightarrow> bool" where
  "benign [] = True"
| "benign (Arrived bytes # events) \<longleftrightarrow> bytes \<noteq> [] \<and> benign events"
| "benign (Failed kind message # events) \<longleftrightarrow> kind = Interrupted \<and> benign events"

fun delivered :: "read_event list \<Rightarrow> bytes" where
  "delivered [] = []"
| "delivered (Arrived bytes # events) = bytes @ delivered events"
| "delivered (Failed kind message # events) = delivered events"

lemma read_exact_enough:
  assumes "benign events" "length received \<le> expected" "expected - length received \<le> length (delivered events)"
  shows "\<exists>events'. read_exact_logged phase expected received events =
      (events', Inr (received @ take (expected - length received) (delivered events))) \<and>
    benign events' \<and> delivered events' = drop (expected - length received) (delivered events)"
  using assms
proof (induction phase expected received events rule: read_exact_logged.induct)
  case (1 phase expected received events)
  show ?case
  proof (cases "length received < expected")
    case False
    with "1.prems" show ?thesis by (subst read_exact_logged.simps) simp
  next
    case True
    then show ?thesis
    proof (cases events)
      case Nil
      with True "1.prems" show ?thesis by simp
    next
      case (Cons e es)
      show ?thesis
      proof (cases e)
        case (Failed kind message)
        with "1.IH"(1) [OF True, of es "Inl (kind, message)" "(kind, message)"] "1.prems" Cons True
        show ?thesis by (subst read_exact_logged.simps) simp
      next
        case (Arrived bs)
        show ?thesis
        proof (cases "length bs \<le> expected - length received")
          case le: True
          then have "expected - length received - length bs = expected - length (received @ bs)" by simp
          with le "1.IH"(2) [OF True, of es "Inr bs" bs] "1.prems" Cons True Arrived
          show ?thesis by (subst read_exact_logged.simps) auto
        next
          case False
          let ?rest = "Arrived (drop (expected - length received) bs) # es"
            and ?bs = "take (expected - length received) bs"
          from False True have ne: "?bs \<noteq> []" by auto
          from False have "read_exact_logged phase expected (received @ ?bs) ?rest = (?rest, Inr (received @ ?bs))"
            by (subst read_exact_logged.simps) simp
          with False "1.prems" Cons True Arrived ne
          show ?thesis by (subst read_exact_logged.simps) auto
        qed
      qed
    qed
  qed
qed

lemma read_exact_short:
  assumes "benign events" "length received \<le> expected" "length received + length (delivered events) < expected"
  shows "\<exists>events' message. read_exact_logged phase expected received events =
      (events', Inl (NetworkIo (IoFailure UnexpectedEof message)))"
  using assms
proof (induction phase expected received events rule: read_exact_logged.induct)
  case (1 phase expected received events)
  then have less: "length received < expected" by simp
  show ?case
  proof (cases events)
    case Nil
    with less show ?thesis by (subst read_exact_logged.simps) simp
  next
    case (Cons e es)
    show ?thesis
    proof (cases e)
      case (Failed kind message)
      with "1.IH"(1) [OF less, of es "Inl (kind, message)" "(kind, message)"] "1.prems" Cons less
      show ?thesis by (subst read_exact_logged.simps) simp
    next
      case (Arrived bs)
      then have "length bs \<le> expected - length received" using "1.prems" Cons by simp
      with "1.IH"(2) [OF less, of es "Inr bs" bs] "1.prems" Cons less Arrived
      show ?thesis by (subst read_exact_logged.simps) auto
    qed
  qed
qed

lemma max_message: "unat MAX_NETWORK_MESSAGE_SIZE = 8388608"
  by (simp add: MAX_NETWORK_MESSAGE_SIZE_def)

lemma write_message_frame:
  assumes "write_message W (\<lambda>bytes w. (w @ bytes, Inr ())) envelope (m, w) = ((m', w'), Inr ())"
  shows "\<exists>payload. envelope_to_bytes W envelope = Inr payload \<and> length payload \<le> 8388608 \<and>
    w' = w @ be_bytes 4 (length payload) @ payload \<and>
    m' = record_tx (ne_message envelope) (of_nat (length payload + 4)) m"
  using assms
  by (auto simp: write_message_def sbind_Inr_iff envelope_to_bytes_def rbind_Inr_iff max_message split: if_splits)

lemma envelope_bytes_roundtrip:
  assumes "codec_ok (cod_envelope W)" "envelope_to_bytes W envelope = Inr payload"
    and "ne_magic envelope = cp_network_magic W"
  shows "envelope_from_bytes W payload = Inr envelope"
  using assms
  by (auto simp: envelope_to_bytes_def envelope_from_bytes_def codec_ok_def rbind_Inr_iff split: if_splits)

text \<open>C7: A frame that was written is read back as the same envelope however the transport cuts it
  into pieces and interrupts the reads; the reader then stands exactly at the byte after the
  frame, and both sides count the same number of bytes.\<close>

theorem read_message_roundtrip:
  assumes codec: "codec_ok (cod_envelope W)" and magic: "ne_magic envelope = cp_network_magic W"
    and written: "write_message W (\<lambda>bytes w. (w @ bytes, Inr ())) envelope (m, []) = ((m', frame), Inr ())"
    and arrives: "benign events" "delivered events = frame @ rest"
  shows "\<exists>events'. read_message W (k, events) =
      ((record_rx (ne_message envelope) (of_nat (length frame)) k, events'), Inr envelope) \<and>
    benign events' \<and> delivered events' = rest \<and>
    m' = record_tx (ne_message envelope) (of_nat (length frame)) m"
proof -
  obtain payload where bytes: "envelope_to_bytes W envelope = Inr payload" "length payload \<le> 8388608"
    and frame: "frame = be_bytes 4 (length payload) @ payload"
    and m': "m' = record_tx (ne_message envelope) (of_nat (length payload + 4)) m"
    using write_message_frame [OF written] by auto
  obtain e1 where e1: "read_exact_logged ''length'' 4 [] events = (e1, Inr (be_bytes 4 (length payload)))"
    "benign e1" "delivered e1 = payload @ rest"
    using read_exact_enough [of events "[]" 4 "''length''"] arrives frame by auto
  obtain e2 where e2: "read_exact_logged ''payload'' (length payload) [] e1 = (e2, Inr payload)"
    "benign e2" "delivered e2 = rest"
    using read_exact_enough [of e1 "[]" "length payload" "''payload''"] e1 by auto
  have "be_value (be_bytes 4 (length payload)) = length payload"
    using bytes(2) by simp
  then have "read_message W (k, events) =
      ((record_rx (ne_message envelope) (of_nat (length payload + 4)) k, e2), Inr envelope)"
    using e1(1) e2(1) bytes envelope_bytes_roundtrip [OF codec bytes(1) magic]
    by (simp add: read_message_def MESSAGE_LENGTH_SIZE_def max_message Let_def)
  with e2 m' frame show ?thesis by (simp add: add.commute)
qed

text \<open>C32: A peer that announces more than 8 MiB is refused after the four length bytes, before any of
  the payload is read; a stream that ends inside a frame gives an end-of-file error. Neither
  counts any traffic.\<close>

theorem read_message_refuses:
  assumes "benign events"
  shows "(4 \<le> length (delivered events) \<and> 8388608 < be_value (take 4 (delivered events)) \<longrightarrow>
      (\<exists>events'. read_message W (k, events) = ((k, events'), Inl MessageTooLarge) \<and>
         delivered events' = drop 4 (delivered events))) \<and>
    (length (delivered events) < 4 \<or>
     be_value (take 4 (delivered events)) \<le> 8388608 \<and>
       length (delivered events) < 4 + be_value (take 4 (delivered events)) \<longrightarrow>
      (\<exists>events' message. read_message W (k, events) =
         ((k, events'), Inl (NetworkIo (IoFailure UnexpectedEof message)))))"
proof (cases "length (delivered events) < 4")
  case True
  then show ?thesis
    using read_exact_short [of events "[]" 4 "''length''"] assms
    by (auto simp: read_message_def MESSAGE_LENGTH_SIZE_def)
next
  case False
  then obtain e1 where e1: "read_exact_logged ''length'' 4 [] events = (e1, Inr (take 4 (delivered events)))"
    "benign e1" "delivered e1 = drop 4 (delivered events)"
    using read_exact_enough [of events "[]" 4 "''length''"] assms by auto
  let ?n = "be_value (take 4 (delivered events))"
  have "\<exists>e2 message. read_exact_logged ''payload'' ?n [] e1 = (e2, Inl (NetworkIo (IoFailure UnexpectedEof message)))"
    if "length (delivered events) < 4 + ?n"
    using read_exact_short [of e1 "[]" ?n "''payload''"] that e1 False by auto
  with e1 False show ?thesis
    by (fastforce simp: read_message_def MESSAGE_LENGTH_SIZE_def max_message Let_def)
qed

text \<open>The handshake accepts a peer exactly when everything but the tip of its version equals the
  local version.\<close>

lemma validate_compatibility_exact:
  "validate_compatibility W v = Inr () \<longleftrightarrow> v = version_local W (vi_tip v)"
  by (cases v) (auto simp: validate_compatibility_def version_local_def)

lemma category_less: "category message < 6"
  by (cases message) simp_all

lemma metrics_snapshot_rx:
  assumes "length (nm_rx_bytes m) = 6"
  shows "metrics_snapshot (record_rx message bytes m) =
    (metrics_snapshot m)[category message := apfst (\<lambda>n. n + bytes) (metrics_snapshot m ! category message)]"
  using category_less [of message] assms
  by (auto simp: metrics_snapshot_def record_rx_def fetch_add_at_def nth_list_update intro!: nth_equalityI)

section \<open>An instance\<close>

text \<open>A wire whose codec knows only pings with a small nonce.\<close>

definition sample_ping :: "u64 \<Rightarrow> ('blk, 'hdr, 'tx, 'gen, 'cb) network_envelope" where
  "sample_ping n = \<lparr>ne_magic = [9], ne_request_id = 0, ne_response_to = 0, ne_message = MsgPing n\<rparr>"

definition sample_wire :: "('blk, 'hdr, 'tx, 'gen, 'cb) wire_api" where
  "sample_wire = \<lparr>cp_protocol_version = 1, cp_chain_id = 2, cp_chain_name = ''sample'',
     cp_protocol_stage = ''test'', cp_pow_algorithm = ''pow'', cp_difficulty_algorithm = ''wbda'',
     cp_network_magic = [9],
     cod_envelope = ((\<lambda>e. case ne_message e of
         MsgPing n \<Rightarrow>
           if ne_magic e = [9] \<and> ne_request_id e = 0 \<and> ne_response_to e = 0 \<and> n < 256 then Inr [ucast n]
           else Inl (IoOther 0)
       | _ \<Rightarrow> Inl (IoOther 0)),
       (\<lambda>bs. case bs of [b] \<Rightarrow> Inr (sample_ping (ucast b)) | _ \<Rightarrow> Inl (IoOther 1))),
     artifact_payload_hash = (\<lambda>bs. [of_nat (length bs)]), hex_encode = (\<lambda>bs. replicate (length bs) CHR ''0'')\<rparr>"

lemma be_bytes_numeral:
  "be_bytes (numeral k) n = be_bytes (pred_numeral k) (n div 256) @ [of_nat (n mod 256)]"
  by (simp only: numeral_eq_Suc [of k] be_bytes.simps)

lemma sample_wire_codec: "codec_ok (cod_envelope sample_wire)"
  unfolding codec_ok_def
proof (intro allI impI)
  fix v :: "('blk, 'hdr, 'tx, 'gen, 'cb) network_envelope" and bs
  assume enc: "fst (cod_envelope sample_wire) v = Inr bs"
  have byte: "ucast (ucast n :: u8) = n" if "n < 256" for n :: u64
    using that by (simp add: word_unat_eq_iff word_less_nat_alt unsigned_ucast_eq take_bit_eq_mod unat_mod)
  show "snd (cod_envelope sample_wire) bs = Inr v"
  proof (cases "\<exists>n. ne_message v = MsgPing n")
    case True
    then obtain n where n: "ne_message v = MsgPing n" by blast
    with enc have "ne_magic v = [9] \<and> ne_request_id v = 0 \<and> ne_response_to v = 0 \<and> n < 256 \<and> bs = [ucast n]"
      by (auto simp: sample_wire_def split: if_splits)
    with n byte show ?thesis by (cases v) (simp add: sample_wire_def sample_ping_def)
  next
    case False
    with enc show ?thesis by (cases "ne_message v") (simp_all add: sample_wire_def)
  qed
qed

theorem read_message_roundtrip_witness:
  "codec_ok (cod_envelope (sample_wire :: (unit, unit, unit, unit, unit) wire_api)) \<and>
   (\<exists>events'. read_message (sample_wire :: (unit, unit, unit, unit, unit) wire_api)
        (metrics_new, [Arrived [0, 0], Failed Interrupted '''', Arrived [0, 1, 7, 5], Arrived [6]]) =
      ((record_rx (MsgPing 7 :: (unit, unit, unit, unit, unit) network_message) 5 metrics_new, events'),
       Inr (sample_ping 7)) \<and> delivered events' = [5, 6])"
proof -
  let ?W = "sample_wire :: (unit, unit, unit, unit, unit) wire_api"
    and ?events = "[Arrived [0, 0], Failed Interrupted '''', Arrived [0, 1, 7, 5], Arrived [6]]"
  have written: "write_message ?W (\<lambda>bytes w. (w @ bytes, Inr ())) (sample_ping 7) (metrics_new, []) =
      ((record_tx (MsgPing 7 :: (unit, unit, unit, unit, unit) network_message) 5 metrics_new, [0, 0, 0, 1, 7]), Inr ())"
    by (simp add: write_message_def envelope_to_bytes_def sample_wire_def sample_ping_def max_message
        be_bytes_numeral)
  have "\<exists>events'. read_message ?W (metrics_new, ?events) =
      ((record_rx (ne_message (sample_ping 7 :: (unit, unit, unit, unit, unit) network_envelope))
          (of_nat (length [0 :: u8, 0, 0, 1, 7])) metrics_new, events'), Inr (sample_ping 7)) \<and>
      benign events' \<and> delivered events' = [5, 6] \<and> record_tx (MsgPing 7 :: (unit, unit, unit, unit, unit) network_message) 5 metrics_new =
        record_tx (ne_message (sample_ping 7 :: (unit, unit, unit, unit, unit) network_envelope))
          (of_nat (length [0 :: u8, 0, 0, 1, 7])) metrics_new"
    by (rule read_message_roundtrip [OF sample_wire_codec _ written]) (simp_all add: sample_ping_def sample_wire_def)
  then show ?thesis using sample_wire_codec by (auto simp: sample_ping_def)
qed

theorem read_message_refuses_witness:
  "benign [Arrived [1, 0, 0, 0, 7]] \<and>
   (\<exists>events'. read_message (sample_wire :: (unit, unit, unit, unit, unit) wire_api) (metrics_new, [Arrived [1, 0, 0, 0, 7]]) =
      ((metrics_new, events'), Inl MessageTooLarge) \<and> delivered events' = [7])"
proof -
  have "be_value [1, 0, 0, 0] = 16777216" by simp
  then show ?thesis
    using read_message_refuses [of "[Arrived [1, 0, 0, 0, 7]]" "sample_wire :: (unit, unit, unit, unit, unit) wire_api" metrics_new]
    by simp
qed

end
