(* ===== verification/Storage.thy ===== *)
theory Storage
  imports Storage_Api "HOL-Library.Sublist"
begin

text \<open>
  The block store, \<open>node/src/runtime/storage/storage.rs\<close>: canonical blocks and headers by height,
  all blocks by hash, accounts, and the transaction, address, miner and event indexes, kept in an
  LMDB environment. The read-only operations are functions of the environment, the writing ones
  return the environment they leave behind together with their result.
\<close>

section \<open>Keys\<close>

definition height_key :: "u64 \<Rightarrow> bytes" where
  "height_key h = be_bytes 8 (unat h)"

definition address_tx_key :: "address \<Rightarrow> u64 \<Rightarrow> u32 \<Rightarrow> bool \<Rightarrow> bytes" where
  "address_tx_key a h tx_index sent =
     a @ be_bytes 8 (unat h) @ be_bytes 4 (unat tx_index) @ [if sent then 1 else 0]"

definition block_event_key :: "hash \<Rightarrow> u32 \<Rightarrow> bytes" where
  "block_event_key block_hash event_index = block_hash @ be_bytes 4 (unat event_index)"

definition transaction_event_key :: "hash \<Rightarrow> u32 \<Rightarrow> bytes" where
  "transaction_event_key transaction_hash event_index =
     transaction_hash @ be_bytes 4 (unat event_index)"

definition address_event_key :: "address \<Rightarrow> u64 \<Rightarrow> u32 \<Rightarrow> bytes" where
  "address_event_key a h event_index = a @ be_bytes 8 (unat h) @ be_bytes 4 (unat event_index)"

definition miner_block_key :: "address \<Rightarrow> u64 \<Rightarrow> bytes" where
  "miner_block_key a h = a @ be_bytes 8 (unat h)"

section \<open>Reading and writing values\<close>

definition encode :: "'a codec \<Rightarrow> 'a \<Rightarrow> storage_error + bytes" where
  "encode c v = map_err StorageSerialization (fst c v)"

definition decode :: "'a codec \<Rightarrow> bytes \<Rightarrow> storage_error + 'a" where
  "decode c bs = map_err StorageSerialization (snd c bs)"

definition read_bytes ::
  "('env, 'txn, 'z) lmdb_api_scheme \<Rightarrow> 'txn \<Rightarrow> database \<Rightarrow> bytes \<Rightarrow> storage_error + bytes option" where
  "read_bytes S txn db key =
     (case txn_get S txn db key of
        Inr bs \<Rightarrow> Inr (Some bs)
      | Inl LmdbNotFound \<Rightarrow> Inr None
      | Inl e \<Rightarrow> Inl (StorageDatabase e))"

definition read_value ::
  "('env, 'txn, 'z) lmdb_api_scheme \<Rightarrow> 'a codec \<Rightarrow> 'txn \<Rightarrow> database \<Rightarrow> bytes \<Rightarrow>
   storage_error + 'a option" where
  "read_value S c txn db key =
     rbind (read_bytes S txn db key) (\<lambda>found.
       case found of None \<Rightarrow> Inr None | Some bs \<Rightarrow> rbind (decode c bs) (\<lambda>v. Inr (Some v)))"

definition put_bytes ::
  "('env, 'txn, 'z) lmdb_api_scheme \<Rightarrow> database \<Rightarrow> bytes \<Rightarrow> bytes \<Rightarrow> 'txn \<Rightarrow>
   'txn \<times> (storage_error + unit)" where
  "put_bytes S db key bs txn =
     (let (txn', r) = txn_put S txn db key bs in (txn', map_err StorageDatabase r))"

definition put_value ::
  "('env, 'txn, 'z) lmdb_api_scheme \<Rightarrow> 'a codec \<Rightarrow> database \<Rightarrow> bytes \<Rightarrow> 'a \<Rightarrow> 'txn \<Rightarrow>
   'txn \<times> (storage_error + unit)" where
  "put_value S c db key v txn =
     (case encode c v of Inl e \<Rightarrow> (txn, Inl e) | Inr bs \<Rightarrow> put_bytes S db key bs txn)"

definition is_db_empty ::
  "('env, 'txn, 'z) lmdb_api_scheme \<Rightarrow> 'txn \<Rightarrow> database \<Rightarrow> storage_error + bool" where
  "is_db_empty S txn db =
     rbind (map_err StorageDatabase (txn_iter S txn db)) (\<lambda>items. Inr (items = []))"

text \<open>A read transaction, and a write transaction that is committed when its body succeeds and
  aborted on the first error.\<close>

definition with_ro_txn ::
  "('env, 'txn, 'z) lmdb_api_scheme \<Rightarrow> 'env \<Rightarrow> ('txn \<Rightarrow> storage_error + 'a) \<Rightarrow> storage_error + 'a" where
  "with_ro_txn S env body = rbind (map_err StorageDatabase (begin_ro_txn S env)) body"

definition with_rw_txn ::
  "('env, 'txn, 'z) lmdb_api_scheme \<Rightarrow> 'env \<Rightarrow> ('txn \<Rightarrow> 'txn \<times> (storage_error + unit)) \<Rightarrow>
   'env \<times> (storage_error + unit)" where
  "with_rw_txn S env body =
     (case begin_rw_txn S env of
        Inl e \<Rightarrow> (env, Inl (StorageDatabase e))
      | Inr txn \<Rightarrow>
          (case body txn of
             (txn', Inl e) \<Rightarrow> (txn_abort S env txn', Inl e)
           | (txn', Inr _) \<Rightarrow>
               (let (env', r) = txn_commit S env txn' in (env', map_err StorageDatabase r))))"

text \<open>The value loops over a cursor: every item, or the items whose key starts with a prefix,
  skipping the smaller keys and stopping at the first larger one.\<close>

fun scan_all :: "(bytes \<Rightarrow> bytes \<Rightarrow> storage_error + 'a) \<Rightarrow> (lmdb_error + bytes \<times> bytes) list \<Rightarrow>
  storage_error + 'a list" where
  "scan_all f [] = Inr []"
| "scan_all f (Inl e # items) = Inl (StorageDatabase e)"
| "scan_all f (Inr (key, bs) # items) =
     rbind (f key bs) (\<lambda>v. rbind (scan_all f items) (\<lambda>vs. Inr (v # vs)))"

fun scan_prefix :: "bytes \<Rightarrow> (bytes \<Rightarrow> storage_error + 'a) \<Rightarrow> (lmdb_error + bytes \<times> bytes) list \<Rightarrow>
  storage_error + 'a list" where
  "scan_prefix p f [] = Inr []"
| "scan_prefix p f (Inl e # items) = Inl (StorageDatabase e)"
| "scan_prefix p f (Inr (key, bs) # items) =
     (if key < p then scan_prefix p f items
      else if \<not> prefix p key then Inr []
      else rbind (f bs) (\<lambda>v. rbind (scan_prefix p f items) (\<lambda>vs. Inr (v # vs))))"

section \<open>Version, blocks and headers\<close>

definition load_storage_version ::
  "('env, 'txn, 'tx, 'hdr, 'acct, 'evt, 'utxo, 'prf, 'z) codec_api_scheme \<Rightarrow> 'env \<Rightarrow>
   storage_error + u8 option" where
  "load_storage_version S env =
     with_ro_txn S env (\<lambda>txn. read_value S (cod_version S) txn META STORAGE_VERSION_KEY)"

definition save_storage_version ::
  "('env, 'txn, 'tx, 'hdr, 'acct, 'evt, 'utxo, 'prf, 'z) codec_api_scheme \<Rightarrow> u8 \<Rightarrow> 'env \<Rightarrow>
   'env \<times> (storage_error + unit)" where
  "save_storage_version S version env =
     with_rw_txn S env (put_value S (cod_version S) META STORAGE_VERSION_KEY version)"

definition flush ::
  "('env, 'txn, 'z) lmdb_api_scheme \<Rightarrow> 'env \<Rightarrow> 'env \<times> (storage_error + unit)" where
  "flush S env = (let (env', r) = env_sync S env in (env', map_err StorageDatabase r))"

fun all_db_empty ::
  "('env, 'txn, 'z) lmdb_api_scheme \<Rightarrow> 'txn \<Rightarrow> database list \<Rightarrow> storage_error + bool" where
  "all_db_empty S txn [] = Inr True"
| "all_db_empty S txn (db # dbs) =
     rbind (is_db_empty S txn db) (\<lambda>empty. if empty then all_db_empty S txn dbs else Inr False)"

definition is_empty_database ::
  "('env, 'txn, 'z) lmdb_api_scheme \<Rightarrow> 'env \<Rightarrow> storage_error + bool" where
  "is_empty_database S env =
     with_ro_txn S env (\<lambda>txn. all_db_empty S txn
       [BLOCKS_BY_HEIGHT, BLOCKS_BY_HASH, HEADERS_BY_HEIGHT, ACCOUNTS, GENESIS_ACCOUNTS, TX_INDEX,
        WTX_INDEX, ADDRESS_TX_INDEX, MINER_BLOCK_INDEX, EVENTS_BY_ID, BLOCK_EVENT_INDEX,
        TRANSACTION_EVENT_INDEX, ADDRESS_EVENT_INDEX, ROLLBACK_ISSUES, ROLLBACK_PROOF_CONTEXTS])"

definition ensure_storage_version ::
  "('env, 'txn, 'tx, 'hdr, 'acct, 'evt, 'utxo, 'prf, 'z) codec_api_scheme \<Rightarrow> 'env \<Rightarrow>
   'env \<times> (storage_error + unit)" where
  "ensure_storage_version S env =
     (case load_storage_version S env of
        Inl e \<Rightarrow> (env, Inl e)
      | Inr (Some found) \<Rightarrow>
          if found = STORAGE_VERSION then (env, Inr ())
          else (env, Inl (UnsupportedStorageVersion STORAGE_VERSION found))
      | Inr None \<Rightarrow>
          (case is_empty_database S env of
             Inl e \<Rightarrow> (env, Inl e)
           | Inr True \<Rightarrow>
               sbind (save_storage_version S STORAGE_VERSION env) (\<lambda>env' _. flush S env')
           | Inr False \<Rightarrow> (env, Inl MissingStorageVersion)))"

definition validate_block_for_storage ::
  "('tx, 'ldg, 'blk, 'hdr, 'acct, 'z) chain_api_scheme \<Rightarrow> 'blk \<Rightarrow> storage_error + unit" where
  "validate_block_for_storage P block =
     map_err (\<lambda>_. StorageIntegrity ''refusing to store an invalid block'')
       (blk_validate_structure P block)"

definition decode_stored_block ::
  "('tx, 'ldg, 'blk, 'hdr, 'acct, 'z) chain_api_scheme \<Rightarrow> bytes \<Rightarrow> storage_error + 'blk" where
  "decode_stored_block P bs =
     map_err (\<lambda>_. StorageIntegrity ''stored block failed validation'') (decode_block P bs)"
definition transaction_addresses :: "('tx, 'z) tx_api_scheme \<Rightarrow> 'tx \<Rightarrow> (address \<times> bool) list" where
  "transaction_addresses P t =
     (let signer = tx_signer P t;
          recipients =
            (case tx_view P t of
               BatchTransfer _ outputs _ \<Rightarrow>
                 List.map_filter (\<lambda>out. target_address P (out_to out)) outputs
             | QCash _ kind _ \<Rightarrow>
                 (case kind of Redeem recipient _ \<Rightarrow> [recipient]
                  | RecoverRedeem claimant _ \<Rightarrow> [claimant]
                  | Withdraw _ \<Rightarrow> []))
      in (signer, True) # map (\<lambda>r. (r, False)) (filter (\<lambda>r. r \<noteq> signer) recipients))"

definition event_addresses :: "protocol_event_kind \<Rightarrow> address list" where
  "event_addresses kind =
     btree_set (case kind of
        EvBatchTransfer from to \<Rightarrow> [from, to]
      | EvQCashWithdrawn signer \<Rightarrow> [signer]
      | EvQCashRedeemed signer recipient \<Rightarrow> [signer, recipient]
      | EvQCashRecoverRedeemed signer claimant \<Rightarrow> [signer, claimant]
      | EvGenesisAllocation recipient \<Rightarrow> [recipient]
      | EvCoinbasePaid miner \<Rightarrow> [miner])"

definition index_miner_block ::
  "('tx, 'ldg, 'blk, 'hdr, 'acct, 'z) chain_api_scheme \<Rightarrow>
   ('env, 'txn, 'tx, 'hdr, 'acct, 'evt, 'utxo, 'prf, 'y) codec_api_scheme \<Rightarrow> 'blk \<Rightarrow> 'txn \<Rightarrow>
   'txn \<times> (storage_error + unit)" where
  "index_miner_block P S block txn =
     (if \<not> blk_has_coinbase P block then (txn, Inr ())
      else case blk_hash P block of
        Inl e \<Rightarrow> (txn, Inl (StorageCodec e))
      | Inr h \<Rightarrow>
          put_value S (cod_miner_location S) MINER_BLOCK_INDEX
            (miner_block_key (blk_miner_address P block) (blk_height P block))
            \<lparr>ml_block_height = blk_height P block, ml_block_hash = h\<rparr> txn)"

definition index_transaction ::
  "('tx, 'ldg, 'blk, 'hdr, 'acct, 'z) chain_api_scheme \<Rightarrow>
   ('env, 'txn, 'tx, 'hdr, 'acct, 'evt, 'utxo, 'prf, 'y) codec_api_scheme \<Rightarrow> 'blk \<Rightarrow> hash \<Rightarrow>
   nat \<times> 'tx \<Rightarrow> 'txn \<Rightarrow> 'txn \<times> (storage_error + unit)" where
  "index_transaction P S block block_hash = (\<lambda>(index, t) txn.
     if 2 ^ 32 \<le> int index then (txn, Inl (StorageIntegrity ''transaction index exceeds u32''))
     else case tx_hash P t of
       Inl e \<Rightarrow> (txn, Inl (StorageCodec e))
     | Inr h \<Rightarrow>
         (let location = \<lparr>tl_block_height = blk_height P block, tl_block_hash = block_hash,
                          tl_tx_index = of_nat index, tl_family = tx_family P t\<rparr>
          in sbind (put_value S (cod_location S) TX_INDEX h location txn) (\<lambda>txn _.
             sbind (put_value S (cod_location S) WTX_INDEX h location txn) (\<lambda>txn _.
             for_each (\<lambda>(a, sent).
               put_value S (cod_address_location S) ADDRESS_TX_INDEX
                 (address_tx_key a (blk_height P block) (of_nat index) sent)
                 \<lparr>al_tx_hash = h, al_block_height = blk_height P block, al_block_hash = block_hash,
                  al_tx_index = of_nat index, al_sent = sent, al_family = tx_family P t\<rparr>)
               (transaction_addresses P t) txn))))"

definition index_block_transactions ::
  "('tx, 'ldg, 'blk, 'hdr, 'acct, 'z) chain_api_scheme \<Rightarrow>
   ('env, 'txn, 'tx, 'hdr, 'acct, 'evt, 'utxo, 'prf, 'y) codec_api_scheme \<Rightarrow> 'blk \<Rightarrow> 'txn \<Rightarrow>
   'txn \<times> (storage_error + unit)" where
  "index_block_transactions P S block txn =
     (case blk_hash P block of
        Inl e \<Rightarrow> (txn, Inl (StorageCodec e))
      | Inr block_hash \<Rightarrow>
          for_each (index_transaction P S block block_hash)
            (enumerate 0 (blk_transactions P block)) txn)"

definition save_block ::
  "('tx, 'ldg, 'blk, 'hdr, 'acct, 'z) chain_api_scheme \<Rightarrow>
   ('env, 'txn, 'tx, 'hdr, 'acct, 'evt, 'utxo, 'prf, 'y) codec_api_scheme \<Rightarrow> 'blk \<Rightarrow> 'env \<Rightarrow>
   'env \<times> (storage_error + unit)" where
  "save_block P S block env =
     (case rbind (validate_block_for_storage P block) (\<lambda>_.
           rbind (map_err StorageCodec (block_bytes P block)) (\<lambda>bs.
           rbind (map_err StorageCodec (blk_hash P block)) (\<lambda>h. Inr (bs, h)))) of
        Inl e \<Rightarrow> (env, Inl e)
      | Inr (bs, h) \<Rightarrow> with_rw_txn S env (\<lambda>txn.
          sbind (put_bytes S BLOCKS_BY_HEIGHT (height_key (blk_height P block)) bs txn) (\<lambda>txn _.
          sbind (put_bytes S BLOCKS_BY_HASH h bs txn) (\<lambda>txn _.
          sbind (put_value S (cod_header S) HEADERS_BY_HEIGHT (height_key (blk_height P block))
                   (blk_header P block) txn) (\<lambda>txn _.
          sbind (index_block_transactions P S block txn) (\<lambda>txn _.
          index_miner_block P S block txn))))))"

definition save_side_block ::
  "('tx, 'ldg, 'blk, 'hdr, 'acct, 'z) chain_api_scheme \<Rightarrow>
   ('env, 'txn, 'y) lmdb_api_scheme \<Rightarrow> 'blk \<Rightarrow> 'env \<Rightarrow> 'env \<times> (storage_error + unit)" where
  "save_side_block P S block env =
     (case rbind (validate_block_for_storage P block) (\<lambda>_.
           rbind (map_err StorageCodec (block_bytes P block)) (\<lambda>bs.
           rbind (map_err StorageCodec (blk_hash P block)) (\<lambda>h. Inr (bs, h)))) of
        Inl e \<Rightarrow> (env, Inl e)
      | Inr (bs, h) \<Rightarrow> with_rw_txn S env (put_bytes S BLOCKS_BY_HASH h bs))"

definition load_block_by_height ::
  "('tx, 'ldg, 'blk, 'hdr, 'acct, 'z) chain_api_scheme \<Rightarrow>
   ('env, 'txn, 'y) lmdb_api_scheme \<Rightarrow> u64 \<Rightarrow> 'env \<Rightarrow> storage_error + 'blk option" where
  "load_block_by_height P S height env =
     with_ro_txn S env (\<lambda>txn.
       rbind (read_bytes S txn BLOCKS_BY_HEIGHT (height_key height)) (\<lambda>found.
         case found of None \<Rightarrow> Inr None
         | Some bs \<Rightarrow> rbind (decode_stored_block P bs) (\<lambda>block.
             if blk_height P block \<noteq> height
             then Inl (StorageIntegrity ''stored block height does not match height key'')
             else Inr (Some block))))"

definition load_header_by_height ::
  "('tx, 'ldg, 'blk, 'hdr, 'acct, 'z) chain_api_scheme \<Rightarrow>
   ('env, 'txn, 'tx, 'hdr, 'acct, 'evt, 'utxo, 'prf, 'y) codec_api_scheme \<Rightarrow> u64 \<Rightarrow> 'env \<Rightarrow>
   storage_error + 'hdr option" where
  "load_header_by_height P S height env =
     rbind (with_ro_txn S env (\<lambda>txn.
              read_value S (cod_header S) txn HEADERS_BY_HEIGHT (height_key height))) (\<lambda>stored.
     rbind (case stored of
              Some header \<Rightarrow> Inr (Some header)
            | None \<Rightarrow> rbind (load_block_by_height P S height env) (\<lambda>found.
                Inr (map_option (blk_header P) found))) (\<lambda>header.
       case header of
         None \<Rightarrow> Inr None
       | Some found \<Rightarrow>
           if hdr_height P found \<noteq> height
           then Inl (StorageIntegrity ''stored header height does not match height key'')
           else Inr (Some found)))"

definition load_block_by_hash ::
  "('tx, 'ldg, 'blk, 'hdr, 'acct, 'z) chain_api_scheme \<Rightarrow>
   ('env, 'txn, 'y) lmdb_api_scheme \<Rightarrow> hash \<Rightarrow> 'env \<Rightarrow> storage_error + 'blk option" where
  "load_block_by_hash P S h env =
     with_ro_txn S env (\<lambda>txn.
       rbind (read_bytes S txn BLOCKS_BY_HASH h) (\<lambda>found.
         case found of None \<Rightarrow> Inr None
         | Some bs \<Rightarrow> rbind (decode_stored_block P bs) (\<lambda>block.
             rbind (map_err StorageCodec (blk_hash P block)) (\<lambda>g.
               if g \<noteq> h
               then Inl (StorageIntegrity ''stored block hash does not match hash key'')
               else Inr (Some block)))))"

definition load_blocks_by_hash ::
  "('tx, 'ldg, 'blk, 'hdr, 'acct, 'z) chain_api_scheme \<Rightarrow>
   ('env, 'txn, 'y) lmdb_api_scheme \<Rightarrow> 'env \<Rightarrow> storage_error + 'blk list" where
  "load_blocks_by_hash P S env =
     with_ro_txn S env (\<lambda>txn.
       rbind (map_err StorageDatabase (txn_iter S txn BLOCKS_BY_HASH)) (\<lambda>items.
         scan_all (\<lambda>_ bs. decode_stored_block P bs) items))"
section \<open>Transactions and address indexes\<close>

definition load_transaction_location ::
  "('env, 'txn, 'tx, 'hdr, 'acct, 'evt, 'utxo, 'prf, 'y) codec_api_scheme \<Rightarrow> hash \<Rightarrow> 'env \<Rightarrow>
   storage_error + transaction_location option" where
  "load_transaction_location S h env =
     with_ro_txn S env (\<lambda>txn. read_value S (cod_location S) txn TX_INDEX h)"

definition load_auth_transaction_location ::
  "('env, 'txn, 'tx, 'hdr, 'acct, 'evt, 'utxo, 'prf, 'y) codec_api_scheme \<Rightarrow> hash \<Rightarrow> 'env \<Rightarrow>
   storage_error + transaction_location option" where
  "load_auth_transaction_location S h env =
     with_ro_txn S env (\<lambda>txn. read_value S (cod_location S) txn WTX_INDEX h)"

text \<open>The lookup shared by \<open>load_protocol_transaction\<close> and its authorization-hash twin, which
  differ in the index they read and in the wording of their messages.\<close>

definition transaction_at ::
  "('tx, 'ldg, 'blk, 'hdr, 'acct, 'z) chain_api_scheme \<Rightarrow>
   ('env, 'txn, 'y) lmdb_api_scheme \<Rightarrow> string \<Rightarrow> hash \<Rightarrow> transaction_location option \<Rightarrow> 'env \<Rightarrow>
   storage_error + (transaction_location \<times> 'tx) option" where
  "transaction_at P S what h found env =
     (case found of
        None \<Rightarrow> Inr None
      | Some location \<Rightarrow>
          rbind (load_block_by_height P S (tl_block_height location) env) (\<lambda>stored.
            case stored of
              None \<Rightarrow> Inl (StorageIntegrity (''indexed '' @ what @ '' block is missing''))
            | Some block \<Rightarrow>
                rbind (map_err StorageCodec (blk_hash P block)) (\<lambda>block_hash.
                  if block_hash \<noteq> tl_block_hash location
                  then Inl (StorageIntegrity (''indexed '' @ what @ '' block hash mismatch''))
                  else if length (blk_transactions P block) \<le> unat (tl_tx_index location)
                  then Inl (StorageIntegrity (''indexed '' @ what @ '' position is missing''))
                  else
                    (let t = blk_transactions P block ! unat (tl_tx_index location)
                     in rbind (map_err StorageCodec (tx_hash P t)) (\<lambda>g.
                          if g \<noteq> h \<or> tx_family P t \<noteq> tl_family location
                          then Inl (StorageIntegrity
                                 (''indexed '' @ what @ '' does not match its location''))
                          else Inr (Some (location, t)))))))"

definition load_protocol_transaction ::
  "('tx, 'ldg, 'blk, 'hdr, 'acct, 'z) chain_api_scheme \<Rightarrow>
   ('env, 'txn, 'tx, 'hdr, 'acct, 'evt, 'utxo, 'prf, 'y) codec_api_scheme \<Rightarrow> hash \<Rightarrow> 'env \<Rightarrow>
   storage_error + (transaction_location \<times> 'tx) option" where
  "load_protocol_transaction P S h env =
     rbind (load_transaction_location S h env) (\<lambda>found. transaction_at P S ''transaction'' h found env)"

definition load_protocol_transaction_by_auth_hash ::
  "('tx, 'ldg, 'blk, 'hdr, 'acct, 'z) chain_api_scheme \<Rightarrow>
   ('env, 'txn, 'tx, 'hdr, 'acct, 'evt, 'utxo, 'prf, 'y) codec_api_scheme \<Rightarrow> hash \<Rightarrow> 'env \<Rightarrow>
   storage_error + (transaction_location \<times> 'tx) option" where
  "load_protocol_transaction_by_auth_hash P S h env =
     rbind (load_auth_transaction_location S h env) (\<lambda>found.
       transaction_at P S ''authorization transaction'' h found env)"

definition load_transaction ::
  "('tx, 'ldg, 'blk, 'hdr, 'acct, 'z) chain_api_scheme \<Rightarrow>
   ('env, 'txn, 'tx, 'hdr, 'acct, 'evt, 'utxo, 'prf, 'y) codec_api_scheme \<Rightarrow> hash \<Rightarrow> 'env \<Rightarrow>
   storage_error + (transaction_location \<times> 'tx) option" where
  "load_transaction P S h env =
     rbind (load_protocol_transaction P S h env) (\<lambda>found.
       case found of
         None \<Rightarrow> Inr None
       | Some (location, t) \<Rightarrow>
           (case tx_view P t of
              BatchTransfer _ _ _ \<Rightarrow> Inr (Some (location, t))
            | QCash _ _ _ \<Rightarrow> Inr None))"

definition load_address_transaction_locations ::
  "('env, 'txn, 'tx, 'hdr, 'acct, 'evt, 'utxo, 'prf, 'y) codec_api_scheme \<Rightarrow> address \<Rightarrow> 'env \<Rightarrow>
   storage_error + address_transaction_location list" where
  "load_address_transaction_locations S a env =
     with_ro_txn S env (\<lambda>txn.
       rbind (map_err StorageDatabase (txn_iter S txn ADDRESS_TX_INDEX)) (\<lambda>items.
       rbind (scan_prefix a (decode (cod_address_location S)) items) (\<lambda>locations.
         Inr (sort_key (\<lambda>l. (al_block_height l, al_tx_index l, al_sent l)) locations))))"

definition load_miner_block_locations ::
  "('env, 'txn, 'tx, 'hdr, 'acct, 'evt, 'utxo, 'prf, 'y) codec_api_scheme \<Rightarrow> address \<Rightarrow> 'env \<Rightarrow>
   storage_error + miner_block_location list" where
  "load_miner_block_locations S a env =
     with_ro_txn S env (\<lambda>txn.
       rbind (map_err StorageDatabase (txn_iter S txn MINER_BLOCK_INDEX)) (\<lambda>items.
       rbind (scan_prefix a (decode (cod_miner_location S)) items) (\<lambda>locations.
         Inr (sort_key ml_block_height locations))))"

section \<open>Events\<close>

definition index_event ::
  "('env, 'txn, 'tx, 'hdr, 'acct, 'evt, 'utxo, 'prf, 'ldg, 'blk, 'y) store_api_scheme \<Rightarrow> 'evt \<Rightarrow> 'txn \<Rightarrow>
   'txn \<times> (storage_error + unit)" where
  "index_event S event txn =
     (if \<not> ev_validate S event then (txn, Inl (StorageIntegrity ''invalid protocol event''))
      else case ev_id S event of
        Inl e \<Rightarrow> (txn, Inl (StorageCodec e))
      | Inr eid \<Rightarrow>
          sbind (put_value S (cod_event S) EVENTS_BY_ID eid event txn) (\<lambda>txn _.
          sbind (put_value S (cod_event_id S) BLOCK_EVENT_INDEX
                   (block_event_key (ev_block_hash S event) (ev_event_index S event)) eid txn) (\<lambda>txn _.
          sbind (case ev_transaction_hash S event of
                   None \<Rightarrow> (txn, Inr ())
                 | Some h \<Rightarrow> put_value S (cod_event_id S) TRANSACTION_EVENT_INDEX
                     (transaction_event_key h (ev_event_index S event)) eid txn) (\<lambda>txn _.
          for_each (\<lambda>a. put_value S (cod_event_id S) ADDRESS_EVENT_INDEX
                     (address_event_key a (ev_block_height S event) (ev_event_index S event)) eid)
            (event_addresses (ev_kind S event)) txn))))"

definition index_protocol_events ::
  "('env, 'txn, 'tx, 'hdr, 'acct, 'evt, 'utxo, 'prf, 'ldg, 'blk, 'y) store_api_scheme \<Rightarrow> 'evt list \<Rightarrow>
   'txn \<Rightarrow> 'txn \<times> (storage_error + unit)" where
  "index_protocol_events S events = for_each (index_event S) events"

definition load_protocol_event ::
  "('env, 'txn, 'tx, 'hdr, 'acct, 'evt, 'utxo, 'prf, 'ldg, 'blk, 'y) store_api_scheme \<Rightarrow> hash \<Rightarrow> 'env \<Rightarrow>
   storage_error + 'evt option" where
  "load_protocol_event S eid env =
     with_ro_txn S env (\<lambda>txn.
       rbind (read_value S (cod_event S) txn EVENTS_BY_ID eid) (\<lambda>found.
         case found of
           None \<Rightarrow> Inr None
         | Some event \<Rightarrow>
             if \<not> ev_validate S event \<or> ev_id S event \<noteq> Inr eid
             then Inl (StorageIntegrity ''stored protocol event is invalid'')
             else Inr (Some event)))"

definition load_indexed_events ::
  "('env, 'txn, 'tx, 'hdr, 'acct, 'evt, 'utxo, 'prf, 'ldg, 'blk, 'y) store_api_scheme \<Rightarrow> database \<Rightarrow>
   bytes \<Rightarrow> 'env \<Rightarrow> storage_error + 'evt list" where
  "load_indexed_events S db p env =
     with_ro_txn S env (\<lambda>txn.
       rbind (map_err StorageDatabase (txn_iter S txn db)) (\<lambda>items.
       rbind (scan_prefix p (\<lambda>bs.
                rbind (decode (cod_event_id S) bs) (\<lambda>eid.
                rbind (read_value S (cod_event S) txn EVENTS_BY_ID eid) (\<lambda>found.
                  case found of
                    None \<Rightarrow> Inl (StorageIntegrity ''indexed protocol event is missing'')
                  | Some event \<Rightarrow>
                      if \<not> ev_validate S event
                      then Inl (StorageIntegrity ''indexed protocol event is invalid'')
                      else rbind (map_err StorageCodec (ev_id S event)) (\<lambda>g.
                        if g \<noteq> eid then Inl (StorageIntegrity ''indexed protocol event is invalid'')
                        else Inr event)))) items) (\<lambda>events.
         Inr (sort_key (\<lambda>event. (ev_block_height S event, ev_event_index S event)) events))))"

definition load_block_events ::
  "('env, 'txn, 'tx, 'hdr, 'acct, 'evt, 'utxo, 'prf, 'ldg, 'blk, 'y) store_api_scheme \<Rightarrow> hash \<Rightarrow> 'env \<Rightarrow>
   storage_error + 'evt list" where
  "load_block_events S block_hash env = load_indexed_events S BLOCK_EVENT_INDEX block_hash env"

definition load_transaction_events ::
  "('env, 'txn, 'tx, 'hdr, 'acct, 'evt, 'utxo, 'prf, 'ldg, 'blk, 'y) store_api_scheme \<Rightarrow> hash \<Rightarrow> 'env \<Rightarrow>
   storage_error + 'evt list" where
  "load_transaction_events S h env = load_indexed_events S TRANSACTION_EVENT_INDEX h env"

definition load_address_events ::
  "('env, 'txn, 'tx, 'hdr, 'acct, 'evt, 'utxo, 'prf, 'ldg, 'blk, 'y) store_api_scheme \<Rightarrow> address \<Rightarrow> 'env \<Rightarrow>
   storage_error + 'evt list" where
  "load_address_events S a env = load_indexed_events S ADDRESS_EVENT_INDEX a env"
section \<open>Accounts and rollback records\<close>

definition save_account ::
  "('tx, 'ldg, 'blk, 'hdr, 'acct, 'z) chain_api_scheme \<Rightarrow>
   ('env, 'txn, 'tx, 'hdr, 'acct, 'evt, 'utxo, 'prf, 'y) codec_api_scheme \<Rightarrow> 'acct \<Rightarrow> 'env \<Rightarrow>
   'env \<times> (storage_error + unit)" where
  "save_account P S account env =
     with_rw_txn S env (put_value S (cod_account S) ACCOUNTS (acct_address P account) account)"

definition load_account ::
  "('env, 'txn, 'tx, 'hdr, 'acct, 'evt, 'utxo, 'prf, 'y) codec_api_scheme \<Rightarrow> address \<Rightarrow> 'env \<Rightarrow>
   storage_error + 'acct option" where
  "load_account S a env = with_ro_txn S env (\<lambda>txn. read_value S (cod_account S) txn ACCOUNTS a)"

definition validate_rollback_issue ::
  "('tx, 'ldg, 'blk, 'hdr, 'acct, 'z) chain_api_scheme \<Rightarrow> ('tx, 'prf) rollback_issue \<Rightarrow> hash option \<Rightarrow>
   storage_error + unit" where
  "validate_rollback_issue P issue expected_id =
     rbind (map_err StorageCodec (tx_hash P (ri_transaction issue))) (\<lambda>transaction_hash.
     rbind (map_err StorageCodec
              (issue_id_for_transaction P (ri_disconnected_block_hash issue) transaction_hash)) (\<lambda>xid.
       if ri_transaction_hash issue \<noteq> transaction_hash \<or> ri_id issue \<noteq> xid \<or>
          (case expected_id of None \<Rightarrow> False | Some expected \<Rightarrow> expected \<noteq> xid)
       then Inl (StorageIntegrity ''stored rollback issue transaction identity is invalid'')
       else Inr ()))"

definition save_rollback_issue ::
  "('tx, 'ldg, 'blk, 'hdr, 'acct, 'z) chain_api_scheme \<Rightarrow>
   ('env, 'txn, 'tx, 'hdr, 'acct, 'evt, 'utxo, 'prf, 'y) codec_api_scheme \<Rightarrow>
   ('tx, 'prf) rollback_issue \<Rightarrow> 'env \<Rightarrow> 'env \<times> (storage_error + unit)" where
  "save_rollback_issue P S issue env =
     (case validate_rollback_issue P issue None of
        Inl e \<Rightarrow> (env, Inl e)
      | Inr _ \<Rightarrow> with_rw_txn S env (put_value S (cod_issue S) ROLLBACK_ISSUES (ri_id issue) issue))"

definition load_rollback_issue ::
  "('tx, 'ldg, 'blk, 'hdr, 'acct, 'z) chain_api_scheme \<Rightarrow>
   ('env, 'txn, 'tx, 'hdr, 'acct, 'evt, 'utxo, 'prf, 'y) codec_api_scheme \<Rightarrow> hash \<Rightarrow> 'env \<Rightarrow>
   storage_error + ('tx, 'prf) rollback_issue option" where
  "load_rollback_issue P S xid env =
     with_ro_txn S env (\<lambda>txn.
       rbind (read_value S (cod_issue S) txn ROLLBACK_ISSUES xid) (\<lambda>found.
         case found of
           None \<Rightarrow> Inr None
         | Some issue \<Rightarrow>
             rbind (validate_rollback_issue P issue (Some xid)) (\<lambda>_. Inr (Some issue))))"

definition load_rollback_issues ::
  "('tx, 'ldg, 'blk, 'hdr, 'acct, 'z) chain_api_scheme \<Rightarrow>
   ('env, 'txn, 'tx, 'hdr, 'acct, 'evt, 'utxo, 'prf, 'y) codec_api_scheme \<Rightarrow> 'env \<Rightarrow>
   storage_error + ('tx, 'prf) rollback_issue list" where
  "load_rollback_issues P S env =
     with_ro_txn S env (\<lambda>txn.
       rbind (map_err StorageDatabase (txn_iter S txn ROLLBACK_ISSUES)) (\<lambda>items.
       rbind (scan_all (\<lambda>key bs.
                rbind (decode (cod_issue S) bs) (\<lambda>issue.
                rbind (validate_rollback_issue P issue None) (\<lambda>_.
                  if key \<noteq> ri_id issue
                  then Inl (StorageIntegrity ''stored rollback issue key is invalid'')
                  else Inr issue))) items) (\<lambda>issues.
         Inr (sort_key (\<lambda>issue. (ri_disconnected_block_height issue, ri_transaction_index issue,
                                ri_id issue)) issues))))"

definition save_rollback_proof_context ::
  "('tx, 'ldg, 'blk, 'hdr, 'acct, 'z) chain_api_scheme \<Rightarrow>
   ('env, 'txn, 'tx, 'hdr, 'acct, 'evt, 'utxo, 'prf, 'y) codec_api_scheme \<Rightarrow>
   'hdr rollback_proof_context \<Rightarrow> 'env \<Rightarrow> 'env \<times> (storage_error + unit)" where
  "save_rollback_proof_context P S ctx env =
     (case rollback_context_new P (rpc_losing_headers ctx) (rpc_canonical_headers ctx)
             (rpc_common_ancestor ctx) of
        Inl e \<Rightarrow> (env, Inl (StorageCodec e))
      | Inr expected \<Rightarrow>
          if rpc_id expected \<noteq> rpc_id ctx
          then (env, Inl (StorageIntegrity ''rollback proof context id is invalid''))
          else with_rw_txn S env
                 (put_value S (cod_context S) ROLLBACK_PROOF_CONTEXTS (rpc_id ctx) ctx))"

definition load_rollback_proof_context ::
  "('tx, 'ldg, 'blk, 'hdr, 'acct, 'z) chain_api_scheme \<Rightarrow>
   ('env, 'txn, 'tx, 'hdr, 'acct, 'evt, 'utxo, 'prf, 'y) codec_api_scheme \<Rightarrow> hash \<Rightarrow> 'env \<Rightarrow>
   storage_error + 'hdr rollback_proof_context option" where
  "load_rollback_proof_context P S xid env =
     with_ro_txn S env (\<lambda>txn.
       rbind (read_value S (cod_context S) txn ROLLBACK_PROOF_CONTEXTS xid) (\<lambda>found.
         case found of
           None \<Rightarrow> Inr None
         | Some ctx \<Rightarrow>
             rbind (map_err StorageCodec (rollback_context_new P (rpc_losing_headers ctx)
                      (rpc_canonical_headers ctx) (rpc_common_ancestor ctx))) (\<lambda>expected.
               if rpc_id expected \<noteq> xid \<or> rpc_id ctx \<noteq> xid
               then Inl (StorageIntegrity ''stored rollback proof context id is invalid'')
               else Inr (Some ctx))))"

definition save_genesis_accounts ::
  "('env, 'txn, 'tx, 'hdr, 'acct, 'evt, 'utxo, 'prf, 'y) codec_api_scheme \<Rightarrow>
   (address, 'acct) btree \<Rightarrow> 'env \<Rightarrow> 'env \<times> (storage_error + unit)" where
  "save_genesis_accounts S accounts env =
     with_rw_txn S env (put_value S (cod_accounts S) GENESIS_ACCOUNTS (bstr ''accounts'') accounts)"

definition load_genesis_accounts ::
  "('env, 'txn, 'tx, 'hdr, 'acct, 'evt, 'utxo, 'prf, 'y) codec_api_scheme \<Rightarrow> 'env \<Rightarrow>
   storage_error + (address, 'acct) btree option" where
  "load_genesis_accounts S env =
     with_ro_txn S env (\<lambda>txn. read_value S (cod_accounts S) txn GENESIS_ACCOUNTS (bstr ''accounts''))"

section \<open>The tip and the ledger\<close>

definition put_tip ::
  "('env, 'txn, 'tx, 'hdr, 'acct, 'evt, 'utxo, 'prf, 'y) codec_api_scheme \<Rightarrow> u64 \<Rightarrow> hash \<Rightarrow> 'txn \<Rightarrow>
   'txn \<times> (storage_error + unit)" where
  "put_tip S height h txn =
     sbind (put_value S (cod_height S) META TIP_HEIGHT_KEY height txn) (\<lambda>txn _.
       put_bytes S META TIP_HASH_KEY h txn)"

definition save_tip ::
  "('env, 'txn, 'tx, 'hdr, 'acct, 'evt, 'utxo, 'prf, 'y) codec_api_scheme \<Rightarrow> u64 \<Rightarrow> hash \<Rightarrow> 'env \<Rightarrow>
   'env \<times> (storage_error + unit)" where
  "save_tip S height h env = with_rw_txn S env (put_tip S height h)"

definition load_tip ::
  "('tx, 'ldg, 'blk, 'hdr, 'acct, 'z) chain_api_scheme \<Rightarrow>
   ('env, 'txn, 'tx, 'hdr, 'acct, 'evt, 'utxo, 'prf, 'y) codec_api_scheme \<Rightarrow> 'env \<Rightarrow>
   storage_error + (u64 \<times> hash) option" where
  "load_tip P S env =
     with_ro_txn S env (\<lambda>txn.
       rbind (read_bytes S txn META TIP_HEIGHT_KEY) (\<lambda>found_height.
         case found_height of None \<Rightarrow> Inr None
         | Some height_bytes \<Rightarrow>
             rbind (read_bytes S txn META TIP_HASH_KEY) (\<lambda>found_hash.
               case found_hash of None \<Rightarrow> Inr None
               | Some tip_hash \<Rightarrow>
                   rbind (decode (cod_height S) height_bytes) (\<lambda>height.
                     if length tip_hash \<noteq> hash_size P
                     then Inl (StorageSerialization
                            (IoInvalidData ''stored tip hash has invalid length''))
                     else Inr (Some (height, tip_hash))))))"

definition load_checkpoint_height ::
  "('env, 'txn, 'tx, 'hdr, 'acct, 'evt, 'utxo, 'prf, 'y) codec_api_scheme \<Rightarrow> 'env \<Rightarrow>
   storage_error + u64 option" where
  "load_checkpoint_height S env =
     with_ro_txn S env (\<lambda>txn. read_value S (cod_height S) txn META CHECKPOINT_HEIGHT_KEY)"

definition genesis_accounts_from_ledger ::
  "('tx, 'ldg, 'blk, 'hdr, 'acct, 'z) chain_api_scheme \<Rightarrow>
   ('env, 'txn, 'tx, 'hdr, 'acct, 'evt, 'utxo, 'prf, 'ldg, 'blk, 'y) store_api_scheme \<Rightarrow> 'ldg \<Rightarrow> 'blk \<Rightarrow>
   storage_error + (address, 'acct) btree" where
  "genesis_accounts_from_ledger P S ledger block =
     (if blk_height P block \<noteq> 0
      then Inl (StorageIntegrity ''genesis account source block is not height 0'')
      else case ledger_apply_block S (ledger_new S) block of
        (_, Inl _) \<Rightarrow>
          if tip_height P ledger = Some 0 then Inr (ldg_accounts P ledger)
          else Inl (StorageIntegrity ''stored genesis block is invalid'')
      | (genesis_ledger, Inr _) \<Rightarrow> Inr (ldg_accounts P genesis_ledger))"

definition clear_db ::
  "('env, 'txn, 'y) lmdb_api_scheme \<Rightarrow> database \<Rightarrow> 'txn \<Rightarrow> 'txn \<times> (storage_error + unit)" where
  "clear_db S db txn = (let (txn', r) = txn_clear_db S txn db in (txn', map_err StorageDatabase r))"

definition write_chain_block ::
  "('tx, 'ldg, 'blk, 'hdr, 'acct, 'z) chain_api_scheme \<Rightarrow>
   ('env, 'txn, 'tx, 'hdr, 'acct, 'evt, 'utxo, 'prf, 'ldg, 'blk, 'y) store_api_scheme \<Rightarrow> 'ldg \<Rightarrow> 'blk \<Rightarrow>
   'txn \<Rightarrow> 'txn \<times> (storage_error + unit)" where
  "write_chain_block P S ledger block txn =
     (case rbind (validate_block_for_storage P block) (\<lambda>_.
           rbind (map_err StorageCodec (block_bytes P block)) (\<lambda>bs.
           rbind (map_err StorageCodec (blk_hash P block)) (\<lambda>h. Inr (bs, h)))) of
        Inl e \<Rightarrow> (txn, Inl e)
      | Inr (bs, h) \<Rightarrow>
          sbind (put_bytes S BLOCKS_BY_HEIGHT (height_key (blk_height P block)) bs txn) (\<lambda>txn _.
          sbind (put_bytes S BLOCKS_BY_HASH h bs txn) (\<lambda>txn _.
          sbind (index_block_transactions P S block txn) (\<lambda>txn _.
          sbind (index_miner_block P S block txn) (\<lambda>txn _.
          index_protocol_events S (ldg_events_for_block S ledger h) txn)))))"

definition put_ledger_meta ::
  "('tx, 'ldg, 'blk, 'hdr, 'acct, 'z) chain_api_scheme \<Rightarrow>
   ('env, 'txn, 'tx, 'hdr, 'acct, 'evt, 'utxo, 'prf, 'ldg, 'blk, 'y) store_api_scheme \<Rightarrow> 'ldg \<Rightarrow> 'txn \<Rightarrow>
   'txn \<times> (storage_error + unit)" where
  "put_ledger_meta P S ledger txn =
     sbind (case (tip_height P ledger, ldg_tip_hash P ledger) of
              (Some height, Some h) \<Rightarrow> put_tip S height h txn
            | _ \<Rightarrow> (txn, Inr ())) (\<lambda>txn _.
       case ldg_checkpoint_height P ledger of
         Some height \<Rightarrow> put_value S (cod_height S) META CHECKPOINT_HEIGHT_KEY height txn
       | None \<Rightarrow> (fst (txn_del S txn META CHECKPOINT_HEIGHT_KEY), Inr ()))"

definition write_ledger ::
  "('tx, 'ldg, 'blk, 'hdr, 'acct, 'z) chain_api_scheme \<Rightarrow>
   ('env, 'txn, 'tx, 'hdr, 'acct, 'evt, 'utxo, 'prf, 'ldg, 'blk, 'y) store_api_scheme \<Rightarrow> 'ldg \<Rightarrow>
   (address, 'acct) btree option \<Rightarrow> 'txn \<Rightarrow> 'txn \<times> (storage_error + unit)" where
  "write_ledger P S ledger genesis_accounts txn =
     sbind (for_each (clear_db S)
              [BLOCKS_BY_HEIGHT, HEADERS_BY_HEIGHT, ACCOUNTS, TX_INDEX, WTX_INDEX, ADDRESS_TX_INDEX,
               MINER_BLOCK_INDEX, EVENTS_BY_ID, BLOCK_EVENT_INDEX, TRANSACTION_EVENT_INDEX,
               ADDRESS_EVENT_INDEX] txn) (\<lambda>txn _.
     sbind (for_each (\<lambda>account. put_value S (cod_account S) ACCOUNTS (acct_address P account) account)
              (map snd (ldg_accounts P ledger)) txn) (\<lambda>txn _.
     sbind (for_each (\<lambda>header. put_value S (cod_header S) HEADERS_BY_HEIGHT
                       (height_key (hdr_height P header)) header)
              (map snd (ldg_headers P ledger)) txn) (\<lambda>txn _.
     sbind (for_each (write_chain_block P S ledger) (map snd (ldg_blocks P ledger)) txn) (\<lambda>txn _.
     sbind (put_ledger_meta P S ledger txn) (\<lambda>txn _.
     sbind (put_value S (cod_state S) PROTOCOL_STATE PROTOCOL_STATE_KEY
              \<lparr>sp_qcash_utxos = ldg_qcash_utxos S ledger,
               sp_events_by_block = ldg_events_by_block S ledger\<rparr> txn) (\<lambda>txn _.
       case genesis_accounts of
         None \<Rightarrow> (txn, Inr ())
       | Some accounts \<Rightarrow>
           put_value S (cod_accounts S) GENESIS_ACCOUNTS (bstr ''accounts'') accounts txn))))))"

definition save_ledger ::
  "('tx, 'ldg, 'blk, 'hdr, 'acct, 'z) chain_api_scheme \<Rightarrow>
   ('env, 'txn, 'tx, 'hdr, 'acct, 'evt, 'utxo, 'prf, 'ldg, 'blk, 'y) store_api_scheme \<Rightarrow> 'ldg \<Rightarrow> 'env \<Rightarrow>
   'env \<times> (storage_error + unit)" where
  "save_ledger P S ledger env =
     (case (case ldg_block P ledger 0 of
              None \<Rightarrow> Inr None
            | Some block \<Rightarrow>
                rbind (genesis_accounts_from_ledger P S ledger block) (\<lambda>accounts. Inr (Some accounts))) of
        Inl e \<Rightarrow> (env, Inl e)
      | Inr genesis_accounts \<Rightarrow>
          sbind (with_rw_txn S env (write_ledger P S ledger genesis_accounts))
            (\<lambda>env' _. flush S env'))"
section \<open>Chain integrity and loading\<close>

text \<open>The walk from the tip down to genesis, over blocks or over headers: at each height the stored
  entry has the expected hash and, above genesis, the entry below has the hash it names.\<close>

fun check_block_chain ::
  "('tx, 'ldg, 'blk, 'hdr, 'acct, 'z) chain_api_scheme \<Rightarrow>
   ('env, 'txn, 'y) lmdb_api_scheme \<Rightarrow> 'env \<Rightarrow> nat \<Rightarrow> hash \<Rightarrow> storage_error + unit" where
  "check_block_chain P S env 0 expected =
     rbind (load_block_by_height P S 0 env) (\<lambda>found.
     rbind (ok_or (StorageIntegrity ''stored chain block is missing'') found) (\<lambda>block.
     rbind (map_err StorageCodec (blk_hash P block)) (\<lambda>h.
       if h \<noteq> expected
       then Inl (StorageIntegrity ''stored chain block hash does not match expected hash'')
       else if blk_previous_hash P block \<noteq> replicate (hash_size P) 0
       then Inl (StorageIntegrity ''stored genesis block previous hash is not zero'')
       else Inr ())))"
| "check_block_chain P S env (Suc n) expected =
     rbind (load_block_by_height P S (of_nat (Suc n)) env) (\<lambda>found.
     rbind (ok_or (StorageIntegrity ''stored chain block is missing'') found) (\<lambda>block.
     rbind (map_err StorageCodec (blk_hash P block)) (\<lambda>h.
       if h \<noteq> expected
       then Inl (StorageIntegrity ''stored chain block hash does not match expected hash'')
       else
         rbind (load_block_by_height P S (of_nat n) env) (\<lambda>below.
         rbind (ok_or (StorageIntegrity ''stored previous chain block is missing'') below) (\<lambda>previous.
         rbind (map_err StorageCodec (blk_hash P previous)) (\<lambda>previous_hash.
           if blk_previous_hash P block \<noteq> previous_hash
           then Inl (StorageIntegrity ''stored chain block previous hash is broken'')
           else check_block_chain P S env n previous_hash))))))"

fun check_header_chain ::
  "('tx, 'ldg, 'blk, 'hdr, 'acct, 'z) chain_api_scheme \<Rightarrow>
   ('env, 'txn, 'tx, 'hdr, 'acct, 'evt, 'utxo, 'prf, 'y) codec_api_scheme \<Rightarrow> 'env \<Rightarrow> nat \<Rightarrow> hash \<Rightarrow>
   storage_error + unit" where
  "check_header_chain P S env 0 expected =
     rbind (load_header_by_height P S 0 env) (\<lambda>found.
     rbind (ok_or (StorageIntegrity ''stored chain header is missing'') found) (\<lambda>header.
     rbind (map_err StorageCodec (hdr_hash P header)) (\<lambda>h.
       if h \<noteq> expected
       then Inl (StorageIntegrity ''stored chain header hash does not match expected hash'')
       else if hdr_previous_hash P header \<noteq> replicate (hash_size P) 0
       then Inl (StorageIntegrity ''stored genesis block previous hash is not zero'')
       else Inr ())))"
| "check_header_chain P S env (Suc n) expected =
     rbind (load_header_by_height P S (of_nat (Suc n)) env) (\<lambda>found.
     rbind (ok_or (StorageIntegrity ''stored chain header is missing'') found) (\<lambda>header.
     rbind (map_err StorageCodec (hdr_hash P header)) (\<lambda>h.
       if h \<noteq> expected
       then Inl (StorageIntegrity ''stored chain header hash does not match expected hash'')
       else
         rbind (load_header_by_height P S (of_nat n) env) (\<lambda>below.
         rbind (ok_or (StorageIntegrity ''stored previous chain header is missing'') below) (\<lambda>previous.
         rbind (map_err StorageCodec (hdr_hash P previous)) (\<lambda>previous_hash.
           if hdr_previous_hash P header \<noteq> previous_hash
           then Inl (StorageIntegrity ''stored chain block previous hash is broken'')
           else check_header_chain P S env n previous_hash))))))"

definition validate_chain_integrity ::
  "('tx, 'ldg, 'blk, 'hdr, 'acct, 'z) chain_api_scheme \<Rightarrow>
   ('env, 'txn, 'tx, 'hdr, 'acct, 'evt, 'utxo, 'prf, 'y) codec_api_scheme \<Rightarrow> 'env \<Rightarrow>
   storage_error + unit" where
  "validate_chain_integrity P S env =
     rbind (load_tip P S env) (\<lambda>tip.
       case tip of
         None \<Rightarrow> Inr ()
       | Some (height, tip_hash) \<Rightarrow>
           rbind (load_checkpoint_height S env) (\<lambda>checkpoint_height.
             if checkpoint_height = None then
               rbind (load_block_by_height P S height env) (\<lambda>found.
               rbind (ok_or (StorageIntegrity ''stored tip height block is missing'') found) (\<lambda>tip_block.
               rbind (map_err StorageCodec (blk_hash P tip_block)) (\<lambda>h.
                 if h \<noteq> tip_hash
                 then Inl (StorageIntegrity ''stored tip hash does not match tip height block'')
                 else check_block_chain P S env (unat height) tip_hash)))
             else
               rbind (load_header_by_height P S height env) (\<lambda>found.
               rbind (ok_or (StorageIntegrity ''stored tip height header is missing'') found) (\<lambda>tip_header.
               rbind (map_err StorageCodec (hdr_hash P tip_header)) (\<lambda>h.
                 if h \<noteq> tip_hash
                 then Inl (StorageIntegrity ''stored tip hash does not match tip height header'')
                 else check_header_chain P S env (unat height) tip_hash)))))"

definition load_account_item ::
  "('tx, 'ldg, 'blk, 'hdr, 'acct, 'z) chain_api_scheme \<Rightarrow>
   ('env, 'txn, 'tx, 'hdr, 'acct, 'evt, 'utxo, 'prf, 'y) codec_api_scheme \<Rightarrow> bytes \<Rightarrow> bytes \<Rightarrow>
   storage_error + 'acct" where
  "load_account_item P S key bs =
     rbind (decode (cod_account S) bs) (\<lambda>account.
       if acct_address P account \<noteq> key
       then Inl (StorageIntegrity ''stored account address does not match account key'')
       else Inr account)"

definition load_accounts ::
  "('tx, 'ldg, 'blk, 'hdr, 'acct, 'z) chain_api_scheme \<Rightarrow>
   ('env, 'txn, 'tx, 'hdr, 'acct, 'evt, 'utxo, 'prf, 'y) codec_api_scheme \<Rightarrow> 'env \<Rightarrow>
   storage_error + (address, 'acct) btree" where
  "load_accounts P S env =
     with_ro_txn S env (\<lambda>txn.
       rbind (map_err StorageDatabase (txn_iter S txn ACCOUNTS)) (\<lambda>items.
       rbind (scan_all (load_account_item P S) items) (\<lambda>accounts.
         Inr (fold (\<lambda>a. bt_insert (acct_address P a) a) accounts []))))"

text \<open>Heights \<open>0..=tip\<close> in order.\<close>

definition heights_to :: "u64 \<Rightarrow> u64 list" where
  "heights_to tip = map of_nat [0..<Suc (unat tip)]"

definition load_headers_to ::
  "('tx, 'ldg, 'blk, 'hdr, 'acct, 'z) chain_api_scheme \<Rightarrow>
   ('env, 'txn, 'tx, 'hdr, 'acct, 'evt, 'utxo, 'prf, 'y) codec_api_scheme \<Rightarrow> u64 \<Rightarrow> 'env \<Rightarrow>
   storage_error + 'hdr list" where
  "load_headers_to P S tip env =
     map_res (\<lambda>height. rbind (load_header_by_height P S height env)
       (ok_or (StorageIntegrity ''stored chain header is missing''))) (heights_to tip)"

definition attach_body ::
  "('tx, 'ldg, 'blk, 'hdr, 'acct, 'z) chain_api_scheme \<Rightarrow>
   ('env, 'txn, 'tx, 'hdr, 'acct, 'evt, 'utxo, 'prf, 'ldg, 'blk, 'y) store_api_scheme \<Rightarrow> 'env \<Rightarrow> u64 \<Rightarrow>
   'ldg \<Rightarrow> 'ldg \<times> (storage_error + unit)" where
  "attach_body P S env height ledger =
     (case load_block_by_height P S height env of
        Inl e \<Rightarrow> (ledger, Inl e)
      | Inr None \<Rightarrow> (ledger, Inr ())
      | Inr (Some block) \<Rightarrow>
          (let (ledger', r) = ldg_attach_stored_block_body S ledger block
           in (ledger', map_err
                 (\<lambda>_. StorageIntegrity ''stored block body does not match its header'') r)))"

definition insert_stored_block ::
  "('tx, 'ldg, 'blk, 'hdr, 'acct, 'z) chain_api_scheme \<Rightarrow>
   ('env, 'txn, 'tx, 'hdr, 'acct, 'evt, 'utxo, 'prf, 'ldg, 'blk, 'y) store_api_scheme \<Rightarrow> 'env \<Rightarrow> u64 \<Rightarrow>
   'ldg \<Rightarrow> 'ldg \<times> (storage_error + unit)" where
  "insert_stored_block P S env height ledger =
     (case rbind (load_block_by_height P S height env)
             (ok_or (StorageIntegrity ''stored chain block is missing'')) of
        Inl e \<Rightarrow> (ledger, Inl e)
      | Inr block \<Rightarrow>
          (let (ledger', r) = ldg_chain_insert_block S ledger block
           in (ledger', map_err (\<lambda>_. StorageIntegrity ''stored chain block is invalid'') r)))"

definition load_chain ::
  "('tx, 'ldg, 'blk, 'hdr, 'acct, 'z) chain_api_scheme \<Rightarrow>
   ('env, 'txn, 'tx, 'hdr, 'acct, 'evt, 'utxo, 'prf, 'ldg, 'blk, 'y) store_api_scheme \<Rightarrow> 'env \<Rightarrow> 'ldg \<Rightarrow>
   'ldg \<times> (storage_error + unit)" where
  "load_chain P S env ledger =
     (case load_tip P S env of
        Inl e \<Rightarrow> (ledger, Inl e)
      | Inr None \<Rightarrow> (ledger, Inr ())
      | Inr (Some (tip, _)) \<Rightarrow>
          (case load_checkpoint_height S env of
             Inl e \<Rightarrow> (ledger, Inl e)
           | Inr (Some checkpoint_height) \<Rightarrow>
               (case load_headers_to P S tip env of
                  Inl e \<Rightarrow> (ledger, Inl e)
                | Inr headers \<Rightarrow>
                    (let (ledger', r) = ldg_restore_authenticated_headers S ledger headers checkpoint_height
                     in sbind (ledger', map_err (\<lambda>_. StorageIntegrity
                            ''stored authenticated header chain is invalid'') r)
                          (\<lambda>ledger' _. for_each (attach_body P S env) (heights_to tip) ledger')))
           | Inr None \<Rightarrow> for_each (insert_stored_block P S env) (heights_to tip) ledger))"

definition check_state_root ::
  "('tx, 'ldg, 'blk, 'hdr, 'acct, 'z) chain_api_scheme \<Rightarrow>
   ('env, 'txn, 'tx, 'hdr, 'acct, 'evt, 'utxo, 'prf, 'ldg, 'blk, 'y) store_api_scheme \<Rightarrow> 'ldg \<Rightarrow>
   storage_error + unit" where
  "check_state_root P S ledger =
     (case tip_height P ledger of
        None \<Rightarrow> Inr ()
      | Some height \<Rightarrow>
          rbind (ok_or (StorageIntegrity ''stored canonical tip is missing'') (ldg_header P ledger height))
            (\<lambda>tip.
          rbind (if hdr_height P tip = 0 then Inr (ldg_state_root S ledger)
                 else map_err (\<lambda>_. StorageIntegrity ''failed to rebuild stored protocol state root'')
                        (ldg_protocol_state_root S ledger)) (\<lambda>expected.
            if hdr_state_root P tip \<noteq> expected
            then Inl (StorageIntegrity ''stored ledger state root does not match canonical tip'')
            else Inr ())))"

definition load_ledger ::
  "('tx, 'ldg, 'blk, 'hdr, 'acct, 'z) chain_api_scheme \<Rightarrow>
   ('env, 'txn, 'tx, 'hdr, 'acct, 'evt, 'utxo, 'prf, 'ldg, 'blk, 'y) store_api_scheme \<Rightarrow> 'env \<Rightarrow>
   'env \<times> (storage_error + 'ldg)" where
  "load_ledger P S env =
     sbind (ensure_storage_version S env) (\<lambda>env _. (env,
       rbind (validate_chain_integrity P S env) (\<lambda>_.
       rbind (load_accounts P S env) (\<lambda>accounts.
       case ldg_replace_accounts S (ledger_new S) accounts of
         (_, Inl _) \<Rightarrow> Inl (StorageIntegrity ''failed to rebuild account state tree'')
       | (ledger, Inr _) \<Rightarrow>
           rbind (with_ro_txn S env (\<lambda>txn.
                    read_value S (cod_state S) txn PROTOCOL_STATE PROTOCOL_STATE_KEY)) (\<lambda>stored.
           case load_chain P S env
                  (case stored of
                     None \<Rightarrow> ledger
                   | Some state \<Rightarrow>
                       ldg_set_protocol_state S (sp_qcash_utxos state) (sp_events_by_block state) ledger) of
             (_, Inl e) \<Rightarrow> Inl e
           | (ledger, Inr _) \<Rightarrow>
               rbind (map_err (\<lambda>_. StorageIntegrity ''stored ledger supply is invalid'')
                        (ldg_validate_supply S ledger)) (\<lambda>_.
               rbind (check_state_root P S ledger) (\<lambda>_. Inr ledger)))))))"

definition difficulty_window ::
  "('tx, 'ldg, 'blk, 'hdr, 'acct, 'z) chain_api_scheme \<Rightarrow>
   ('env, 'txn, 'tx, 'hdr, 'acct, 'evt, 'utxo, 'prf, 'y) codec_api_scheme \<Rightarrow> u64 \<Rightarrow> u64 \<Rightarrow> 'env \<Rightarrow>
   storage_error + (u64 \<times> u64 \<times> u64 \<times> u32) option" where
  "difficulty_window P S tip window env =
     (if window = 0 \<or> tip < window then Inr None
      else rbind (load_header_by_height P S tip env) (\<lambda>found_tip.
        case found_tip of None \<Rightarrow> Inr None
        | Some tip_header \<Rightarrow>
            rbind (load_header_by_height P S (tip - window) env) (\<lambda>found_first.
              case found_first of None \<Rightarrow> Inr None
              | Some first_header \<Rightarrow>
                  Inr (Some (hdr_height P first_header, hdr_height P tip_header,
                             sat_sub tip (tip - window), hdr_difficulty P tip_header)))))"

end
