(* ===== verification/Snapshot.thy ===== *)
theory Snapshot
  imports Messages Storage
begin

text \<open>
  Snapshots and fast sync, \<open>node/src/snapshot.rs\<close>: the run-length compression of snapshot chunks,
  the bundle a ledger is exported as, and its import into a fresh database that is built in a
  staging directory and moved to its place only when it is complete.
\<close>

section \<open>Chunk compression\<close>

definition SNAPSHOT_CHUNK_SIZE :: u32 where "SNAPSHOT_CHUNK_SIZE = 4 * 1024 * 1024"

text \<open>The inner loop: how often the value is repeated, at most 255 times, and what follows.\<close>

fun run_count :: "u8 \<Rightarrow> nat \<Rightarrow> bytes \<Rightarrow> nat \<times> bytes" where
  "run_count value repeats [] = (repeats, [])"
| "run_count value repeats (b # bs) =
     (if b = value \<and> repeats < 255 then run_count value (Suc repeats) bs else (repeats, b # bs))"

lemma run_count_length: "run_count v c bs = (c', rest) \<Longrightarrow> length rest \<le> length bs"
  by (induction v c bs rule: run_count.induct) (auto split: if_splits)

function rle_encode :: "bytes \<Rightarrow> bytes" where
  "rle_encode [] = []"
| "rle_encode (value # bs) =
     (case run_count value 1 bs of (repeats, rest) \<Rightarrow> of_nat repeats # value # rle_encode rest)"
  by pat_completeness auto
termination
  by (relation "measure length") (auto dest: run_count_length [OF sym])

definition compress_chunk :: "bytes \<Rightarrow> snapshot_compression \<times> bytes" where
  "compress_chunk bytes =
     (let encoded = rle_encode bytes in
      if length encoded < length bytes then (Rle, encoded) else (NoCompression, bytes))"

text \<open>The loop over the pairs; the caller has checked that the number of bytes is even.\<close>

fun rle_decode :: "nat \<Rightarrow> bytes \<Rightarrow> bytes \<Rightarrow> string + bytes" where
  "rle_decode expected decoded (repeats # value # pairs) =
     (if repeats = 0 \<or> expected < length decoded + unat repeats then Inl ''invalid RLE snapshot expansion''
      else rle_decode expected (decoded @ replicate (unat repeats) value) pairs)"
| "rle_decode expected decoded _ = Inr decoded"

definition decompress_chunk :: "snapshot_compression \<Rightarrow> bytes \<Rightarrow> nat \<Rightarrow> string + bytes" where
  "decompress_chunk compression bytes expected_length =
     (if unat SNAPSHOT_CHUNK_SIZE < expected_length
      then Inl ''snapshot chunk decompressed size exceeds limit''
      else (case compression of
          NoCompression \<Rightarrow>
            if length bytes \<noteq> expected_length then Inl ''snapshot chunk length mismatch'' else Inr bytes
        | Rle \<Rightarrow>
            if odd (length bytes) then Inl ''invalid RLE snapshot chunk''
            else rbind (rle_decode expected_length [] bytes) (\<lambda>decoded.
              if length decoded \<noteq> expected_length
              then Inl ''snapshot chunk decompressed length mismatch'' else Inr decoded)))"

section \<open>Fast-sync bundles\<close>

record 'hdr fast_sync_bundle =
  fb_version :: u8
  fb_headers :: "'hdr list"
  fb_snapshot :: bytes

definition FAST_SYNC_BUNDLE_VERSION :: u8 where "FAST_SYNC_BUNDLE_VERSION = 1"
definition MAX_FAST_SYNC_BUNDLE_SIZE :: u64 where "MAX_FAST_SYNC_BUNDLE_SIZE = 300 * 1024 * 1024"

text \<open>
  What the module uses of the crate beside the node's interface: the borsh codec of a bundle, the
  authentication of a snapshot against headers, the genesis artifact with its file name, and the
  texts of their errors.
\<close>

record ('hdr, 'ldg, 'work) bundle_api =
  cod_bundle :: "'hdr fast_sync_bundle codec"
  ledger_from_authenticated_snapshot :: "bytes \<Rightarrow> 'hdr list \<Rightarrow> string + 'ldg \<times> 'work"
  genesis_paqus_bytes :: "string + bytes"
  genesis_file_name :: string
  artifact_error_text :: "node_error \<Rightarrow> string"

definition bundle_from_ledger ::
  "('tx, 'ldg, 'blk, 'hdr, 'acct, 'fc, 'cons, 'prf, 'z) node_api_scheme \<Rightarrow>
   ('hdr, 'ldg, 'work, 'b) bundle_api_scheme \<Rightarrow> 'ldg \<Rightarrow> string + 'hdr fast_sync_bundle" where
  "bundle_from_ledger P B ledger =
     (let headers = map snd (ldg_headers P ledger) in
      if headers = [] then Inl ''cannot export a snapshot without a canonical header chain''
      else rbind (map_err (\<lambda>e. ''failed to create snapshot: '' @ artifact_error_text B e)
             (snapshot_paqus_bytes P ledger)) (\<lambda>snapshot.
        Inr \<lparr>fb_version = FAST_SYNC_BUNDLE_VERSION, fb_headers = headers, fb_snapshot = snapshot\<rparr>))"

definition bundle_validate ::
  "('hdr, 'ldg, 'work, 'b) bundle_api_scheme \<Rightarrow> 'hdr fast_sync_bundle \<Rightarrow> string + 'ldg \<times> 'work" where
  "bundle_validate B bundle =
     (if fb_version bundle \<noteq> FAST_SYNC_BUNDLE_VERSION
      then Inl (''unsupported fast-sync bundle version '' @ dec_string (unat (fb_version bundle)))
      else map_err (\<lambda>e. ''authenticated snapshot rejected: '' @ e)
             (ledger_from_authenticated_snapshot B (fb_snapshot bundle) (fb_headers bundle)))"

definition bundle_encode ::
  "'z error_texts_scheme \<Rightarrow> ('hdr, 'ldg, 'work, 'b) bundle_api_scheme \<Rightarrow> 'hdr fast_sync_bundle \<Rightarrow> string + bytes" where
  "bundle_encode D B bundle =
     rbind (map_err (\<lambda>e. ''failed to encode snapshot: '' @ txt_io D e) (fst (cod_bundle B) bundle)) (\<lambda>bytes.
       if MAX_FAST_SYNC_BUNDLE_SIZE < of_nat (length bytes)
       then Inl ''fast-sync bundle exceeds the local size limit'' else Inr bytes)"

definition bundle_decode ::
  "'z error_texts_scheme \<Rightarrow> ('hdr, 'ldg, 'work, 'b) bundle_api_scheme \<Rightarrow> bytes \<Rightarrow> string + 'hdr fast_sync_bundle" where
  "bundle_decode D B bytes =
     (if MAX_FAST_SYNC_BUNDLE_SIZE < of_nat (length bytes)
      then Inl ''fast-sync bundle exceeds the local size limit''
      else map_err (\<lambda>e. ''failed to decode fast-sync bundle: '' @ txt_io D e) (snd (cod_bundle B) bytes))"

section \<open>Files\<close>

text \<open>
  Paths are lists of components. The file system and the opening of a store in a directory are
  parameters; their errors are the texts they print.
\<close>

type_synonym path = "string list"

record ('fs, 'env) fs_api =
  fs_exists :: "'fs \<Rightarrow> path \<Rightarrow> bool"
  fs_metadata_len :: "'fs \<Rightarrow> path \<Rightarrow> string + u64"
  fs_read :: "'fs \<Rightarrow> path \<Rightarrow> string + bytes"
  fs_write :: "path \<Rightarrow> bytes \<Rightarrow> 'fs \<Rightarrow> 'fs \<times> (string + unit)"
  fs_create_dir_all :: "path \<Rightarrow> 'fs \<Rightarrow> 'fs \<times> (string + unit)"
  fs_rename :: "path \<Rightarrow> path \<Rightarrow> 'fs \<Rightarrow> 'fs \<times> (string + unit)"
  fs_remove_dir_all :: "path \<Rightarrow> 'fs \<Rightarrow> 'fs \<times> (string + unit)"
  storage_open :: "path \<Rightarrow> 'fs \<Rightarrow> 'fs \<times> (storage_error + 'env)"
  storage_drop :: "path \<Rightarrow> 'env \<Rightarrow> 'fs \<Rightarrow> 'fs"
  path_display :: "path \<Rightarrow> string"

definition path_parent :: "path \<Rightarrow> path option" where
  "path_parent p = (if p = [] \<or> p = [''/''] then None else Some (butlast p))"

definition path_file_name :: "path \<Rightarrow> string option" where
  "path_file_name p = (if p = [] \<or> last p = ''/'' \<or> last p = ''..'' then None else Some (last p))"

definition staging_path :: "nat \<Rightarrow> nat \<Rightarrow> path \<Rightarrow> string + path" where
  "staging_path pid nonce database_path =
     (let parent = (case path_parent database_path of None \<Rightarrow> [''.''] | Some p \<Rightarrow> p) in
      rbind (ok_or ''fast-sync database path has no valid final component'' (path_file_name database_path))
        (\<lambda>name. Inr (parent @ [''.'' @ name @ ''.fastsync-'' @ dec_string pid @ ''-'' @ dec_string nonce])))"

definition export_to_file ::
  "('tx, 'ldg, 'blk, 'hdr, 'acct, 'fc, 'cons, 'prf, 'z) node_api_scheme \<Rightarrow>
   ('hdr, 'ldg, 'work, 'b) bundle_api_scheme \<Rightarrow> ('fs, 'env, 'f) fs_api_scheme \<Rightarrow> 'ldg \<Rightarrow> path \<Rightarrow> 'fs \<Rightarrow>
   'fs \<times> (string + unit)" where
  "export_to_file P B F ledger output fs =
     sbind (fs, rbind (bundle_from_ledger P B ledger) (bundle_encode (error_fmt_api P) B)) (\<lambda>fs bytes.
       case fs_write F output bytes fs of
         (fs, r) \<Rightarrow> (fs, map_err (\<lambda>e. ''failed to write fast-sync bundle '' @ path_display F output @ '': '' @ e) r))"

text \<open>
  The body of the closure in \<open>import_bytes_atomic\<close>: fill the staging directory and move it. The
  store is dropped, and so closed, whether or not writing to it succeeded.
\<close>

definition persist_snapshot where
  "persist_snapshot P S ledger env =
     sbind (case save_ledger P S ledger env of
              (env, r) \<Rightarrow> (env, map_err (\<lambda>e. ''failed to persist authenticated snapshot: '' @
                                 storage_error_fmt (error_fmt_api P) e) r)) (\<lambda>env _.
       case genesis_ledger P of
         Inl e \<Rightarrow> (env, Inl (txt_genesis (error_fmt_api P) e))
       | Inr genesis \<Rightarrow>
           (case save_genesis_accounts S (ldg_accounts P genesis) env of
              (env, r) \<Rightarrow> (env, map_err (\<lambda>e. ''failed to persist frozen genesis accounts: '' @
                                 storage_error_fmt (error_fmt_api P) e) r)))"

definition activate_staging where
  "activate_staging P S B F ledger staging database_path fs =
     sbind (case genesis_paqus_bytes B of
              Inl e \<Rightarrow> (fs, Inl e)
            | Inr bytes \<Rightarrow>
                (case fs_write F (staging @ [genesis_file_name B]) bytes fs of
                   (fs, r) \<Rightarrow> (fs, map_err (\<lambda>e. ''failed to write frozen genesis artifact: '' @ e) r))) (\<lambda>fs _.
     sbind (case storage_open F staging fs of
              (fs, r) \<Rightarrow> (fs, map_err (\<lambda>e. ''failed to open snapshot staging database: '' @
                                storage_error_fmt (error_fmt_api P) e) r)) (\<lambda>fs env.
       case persist_snapshot P S ledger env of
         (env, r) \<Rightarrow>
           sbind (storage_drop F staging env fs, r) (\<lambda>fs _.
             case fs_rename F staging database_path fs of
               (fs, r) \<Rightarrow> (fs, map_err (\<lambda>e. ''failed to atomically activate snapshot database: '' @ e) r))))"

definition import_bytes_atomic where
  "import_bytes_atomic P S B F pid nonce database_path bytes fs =
     (if fs_exists F fs database_path
      then (fs, Inl (''fast-sync target '' @ path_display F database_path @
                     '' already exists; use a new database path''))
      else
        sbind (fs, rbind (bundle_decode (error_fmt_api P) B bytes) (bundle_validate B)) (\<lambda>fs (ledger, work).
        sbind (fs, ok_or ''authenticated snapshot has no tip height'' (tip_height P ledger)) (\<lambda>fs height.
        sbind (fs, ok_or ''authenticated snapshot has no tip hash'' (ldg_tip_hash P ledger)) (\<lambda>fs hash.
        sbind (fs, staging_path pid nonce database_path) (\<lambda>fs staging.
        sbind (case fs_create_dir_all F staging fs of
                 (fs, r) \<Rightarrow> (fs, map_err (\<lambda>e. ''failed to create snapshot staging directory: '' @ e) r)) (\<lambda>fs _.
          case activate_staging P S B F ledger staging database_path fs of
            (fs, Inl e) \<Rightarrow> (fst (fs_remove_dir_all F staging fs), Inl e)
          | (fs, Inr _) \<Rightarrow> (fs, Inr (height, hash, work))))))))"

definition import_file_atomic where
  "import_file_atomic P S B F pid nonce database_path bundle_path fs =
     (if fs_exists F fs database_path
      then (fs, Inl (''fast-sync target '' @ path_display F database_path @
                     '' already exists; use a new database path''))
      else
        sbind (fs, map_err (\<lambda>e. ''failed to inspect fast-sync bundle '' @ path_display F bundle_path @ '': '' @ e)
                     (fs_metadata_len F fs bundle_path)) (\<lambda>fs len.
          if MAX_FAST_SYNC_BUNDLE_SIZE < len
          then (fs, Inl ''fast-sync bundle exceeds the local size limit'')
          else
            sbind (fs, map_err (\<lambda>e. ''failed to read fast-sync bundle '' @ path_display F bundle_path @ '': '' @ e)
                         (fs_read F fs bundle_path)) (\<lambda>fs bytes.
              import_bytes_atomic P S B F pid nonce database_path bytes fs)))"

section \<open>Compression loses nothing\<close>

lemma run_count_spec:
  assumes "run_count v n bs = (m, rest)" "n \<le> 255"
  shows "n \<le> m \<and> m \<le> 255 \<and> bs = replicate (m - n) v @ rest"
  using assms
proof (induction v n bs rule: run_count.induct)
  case (2 v n b bs)
  show ?case
  proof (cases "b = v \<and> n < 255")
    case True
    with 2 have "Suc n \<le> m \<and> m \<le> 255 \<and> bs = replicate (m - Suc n) v @ rest" by auto
    with True show ?thesis by (auto simp: Suc_diff_Suc [symmetric] simp del: diff_Suc_Suc)
  next
    case False
    with 2 show ?thesis by auto
  qed
qed simp

lemma even_rle_encode: "even (length (rle_encode bs))"
  by (induction bs rule: rle_encode.induct) (auto split: prod.split)

lemma rle_decode_encode:
  "length decoded + length bs \<le> expected \<Longrightarrow> rle_decode expected decoded (rle_encode bs) = Inr (decoded @ bs)"
proof (induction bs arbitrary: decoded rule: rle_encode.induct)
  case (2 v bs)
  obtain m rest where run: "run_count v 1 bs = (m, rest)" by fastforce
  then have m: "1 \<le> m" "m \<le> 255" "bs = replicate (m - 1) v @ rest" using run_count_spec by fastforce+
  then have "unat (of_nat m :: u8) = m" by (simp add: unat_of_nat)
  moreover from this m have "(of_nat m :: u8) \<noteq> 0" by force
  moreover have "replicate m v = v # replicate (m - 1) v" using m by (cases m) simp_all
  ultimately show ?case
    using run m "2.IH" [OF run [symmetric], of "decoded @ replicate m v"] "2.prems" by simp
qed simp

lemma decompress_compress:
  assumes "length bytes \<le> unat SNAPSHOT_CHUNK_SIZE" "compress_chunk bytes = (compression, encoded)"
  shows "decompress_chunk compression encoded (length bytes) = Inr bytes"
  using assms rle_decode_encode [of "[]" bytes "length bytes"] even_rle_encode [of bytes]
  by (auto simp: compress_chunk_def decompress_chunk_def Let_def split: if_splits)

text \<open>C21: Decompressing what the compression produced gives back the chunk, and the compressed form is
  never longer than the chunk.\<close>

theorem compress_chunk_roundtrip:
  assumes "length bytes \<le> unat SNAPSHOT_CHUNK_SIZE" "compress_chunk bytes = (compression, encoded)"
  shows "decompress_chunk compression encoded (length bytes) = Inr bytes \<and> length encoded \<le> length bytes"
  using decompress_compress [OF assms] assms(2) by (auto simp: compress_chunk_def Let_def split: if_splits)

theorem compress_chunk_roundtrip_witness:
  "compress_chunk [7, 7, 7, 7, 1] = (Rle, [4, 7, 1, 1]) \<and>
   decompress_chunk Rle [4, 7, 1, 1] 5 = Inr [7, 7, 7, 7, 1]"
proof -
  have c: "compress_chunk [7, 7, 7, 7, 1] = (Rle, [4, 7, 1, 1])" by code_simp
  have "length [7, 7, 7, 7, 1 :: u8] = 5" by simp
  with compress_chunk_roundtrip [OF _ c] c show ?thesis by (simp only:) (simp add: SNAPSHOT_CHUNK_SIZE_def)
qed

text \<open>C33: Whatever a peer sends as a chunk, decompression yields exactly the announced number of bytes or
  an error, and never more than 4 MiB.\<close>

theorem decompress_chunk_bounded:
  assumes "decompress_chunk compression bytes expected = Inr out"
  shows "length out = expected \<and> expected \<le> 4194304"
  using assms
  by (auto simp: decompress_chunk_def SNAPSHOT_CHUNK_SIZE_def rbind_Inr_iff split: if_splits snapshot_compression.splits)

theorem decompress_chunk_bounded_witness:
  "decompress_chunk Rle [4, 7, 1, 1] 5 = Inr [7, 7, 7, 7, 1] \<and> length [7, 7, 7, 7, 1 :: u8] = 5"
proof -
  have replicate_4: "replicate 4 x = [x, x, x, x]" for x :: u8 by (simp add: eval_nat_numeral)
  have d: "decompress_chunk Rle [4, 7, 1, 1] 5 = Inr [7, 7, 7, 7, 1]"
    using replicate_4 [of "7 :: u8"] by (simp add: decompress_chunk_def SNAPSHOT_CHUNK_SIZE_def)
  show ?thesis using d decompress_chunk_bounded [OF d] by blast
qed

section \<open>Imports are all or nothing\<close>

text \<open>
  What the import relies on of the file system: writing creates at most the file itself, creating
  a directory at most its ancestors, opening or closing a store only what lies inside its
  directory, removal nothing; a failed rename changes nothing and a successful one creates its
  destination.
\<close>

definition fs_laws :: "('fs, 'env, 'f) fs_api_scheme \<Rightarrow> bool" where
  "fs_laws F \<longleftrightarrow>
     (\<forall>p bs fs q. fs_exists F (fst (fs_write F p bs fs)) q \<longrightarrow> fs_exists F fs q \<or> q = p) \<and>
     (\<forall>p fs q. fs_exists F (fst (fs_create_dir_all F p fs)) q \<longrightarrow> fs_exists F fs q \<or> (\<exists>r. p = q @ r)) \<and>
     (\<forall>p fs q. fs_exists F (fst (storage_open F p fs)) q \<longrightarrow> fs_exists F fs q \<or> (\<exists>r. q = p @ r)) \<and>
     (\<forall>p env fs q. fs_exists F (storage_drop F p env fs) q \<longrightarrow> fs_exists F fs q \<or> (\<exists>r. q = p @ r)) \<and>
     (\<forall>p fs q. fs_exists F (fst (fs_remove_dir_all F p fs)) q \<longrightarrow> fs_exists F fs q) \<and>
     (\<forall>a b fs fs' e q. fs_rename F a b fs = (fs', Inl e) \<longrightarrow> fs_exists F fs' q = fs_exists F fs q) \<and>
     (\<forall>a b fs fs'. fs_rename F a b fs = (fs', Inr ()) \<longrightarrow> fs_exists F fs' b)"

lemma fs_lawsD:
  assumes "fs_laws F"
  shows "fs_write F p bs fs = (fs', w) \<Longrightarrow> fs_exists F fs' q \<Longrightarrow> fs_exists F fs q \<or> q = p"
    and "fs_create_dir_all F p fs = (fs', c) \<Longrightarrow> fs_exists F fs' q \<Longrightarrow> fs_exists F fs q \<or> (\<exists>r. p = q @ r)"
    and "storage_open F p fs = (fs', s) \<Longrightarrow> fs_exists F fs' q \<Longrightarrow> fs_exists F fs q \<or> (\<exists>r. q = p @ r)"
    and "fs_exists F (storage_drop F p env fs) q \<Longrightarrow> fs_exists F fs q \<or> (\<exists>r. q = p @ r)"
    and "fs_exists F (fst (fs_remove_dir_all F p fs)) q \<Longrightarrow> fs_exists F fs q"
    and "fs_rename F a b fs = (fs', Inl e) \<Longrightarrow> fs_exists F fs' q = fs_exists F fs q"
    and "fs_rename F a b fs = (fs', Inr ()) \<Longrightarrow> fs_exists F fs' b"
  using assms unfolding fs_laws_def by (metis fst_conv)+

lemma staging_apart:
  assumes "staging_path pid nonce target = Inr staging"
  shows "length staging = length target" "staging \<noteq> target"
proof -
  have ne: "target \<noteq> []" "last target \<noteq> ''/''"
    using assms by (auto simp: staging_path_def path_file_name_def Let_def split: if_splits)
  then have parent: "path_parent target = Some (butlast target)"
    by (cases target) (auto simp: path_parent_def)
  with assms ne obtain s where s: "staging = butlast target @ [s]" "length (last target) < length s"
    by (auto simp: staging_path_def path_file_name_def Let_def rbind_Inr_iff split: if_splits)
  with ne show "length staging = length target" by simp
  from s have "last staging \<noteq> last target" by auto
  then show "staging \<noteq> target" by auto
qed

text \<open>\<open>absent_on_error\<close>: when the step fails, the target does not exist.\<close>

definition absent_on_error where
  "absent_on_error F target m \<longleftrightarrow> (\<forall>e. snd m = Inl e \<longrightarrow> \<not> fs_exists F (fst m) target)"

lemma absent_sbind:
  assumes "\<not> fs_exists F (fst m) target"
    and "\<And>fs x. \<not> fs_exists F fs target \<Longrightarrow> absent_on_error F target (f fs x)"
  shows "absent_on_error F target (sbind m f)"
  using assms by (cases m; cases "snd m") (auto simp: absent_on_error_def)

lemma activate_failure:
  assumes laws: "fs_laws F" and apart: "length staging = length target" "staging \<noteq> target"
    and absent: "\<not> fs_exists F fs target"
  shows "absent_on_error F target (activate_staging P S B F ledger staging target fs)"
proof -
  have other: "target \<noteq> staging @ r" for r using apart by (cases r) auto
  have wrote: "\<not> fs_exists F (fst (fs_write F (staging @ r) bs fs)) target" if "\<not> fs_exists F fs target" for fs r bs
    using that other laws unfolding fs_laws_def by metis
  have opened: "\<not> fs_exists F (fst (storage_open F staging fs)) target" if "\<not> fs_exists F fs target" for fs
    using that other laws unfolding fs_laws_def by metis
  have dropped: "\<not> fs_exists F (storage_drop F staging env fs) target" if "\<not> fs_exists F fs target" for env fs
    using that other laws unfolding fs_laws_def by metis
  have renamed: "\<not> fs_exists F (fst (fs_rename F staging target fs)) target"
    if "\<not> fs_exists F fs target" "snd (fs_rename F staging target fs) = Inl e" for fs e
    using that laws unfolding fs_laws_def by (metis prod.collapse)
  show ?thesis
    unfolding activate_staging_def case_prod_beta
  proof (intro absent_sbind)
    show "\<not> fs_exists F (fst (case genesis_paqus_bytes B of Inl e \<Rightarrow> (fs, Inl e)
        | Inr bs \<Rightarrow> (fst (fs_write F (staging @ [genesis_file_name B]) bs fs), f bs))) target" for f
      using absent wrote by (simp split: sum.split)
  qed (auto simp: opened dropped renamed absent_on_error_def map_err_Inl_iff)
qed

lemma import_failure:
  assumes laws: "fs_laws F" and absent: "\<not> fs_exists F fs target"
  shows "absent_on_error F target (import_bytes_atomic P S B F pid nonce target bytes fs)"
proof -
  have activate: "absent_on_error F target
      (case activate_staging P S B F ledger staging target fs of
         (fs, Inl e) \<Rightarrow> (fst (fs_remove_dir_all F staging fs), Inl e) | (fs, Inr _) \<Rightarrow> (fs, Inr r))"
    if "\<not> fs_exists F fs target" "staging_path pid nonce target = Inr staging" for ledger staging fs r
  proof -
    obtain fs1 r1 where eq: "activate_staging P S B F ledger staging target fs = (fs1, r1)" by fastforce
    have "absent_on_error F target (activate_staging P S B F ledger staging target fs)"
      by (rule activate_failure [OF laws staging_apart [OF that(2)] that(1)])
    then have "r1 = Inl e \<Longrightarrow> \<not> fs_exists F (fst (fs_remove_dir_all F staging fs1)) target" for e
      unfolding eq absent_on_error_def using fs_lawsD(5) [OF laws, of staging fs1 target] by auto
    then show ?thesis unfolding eq by (cases r1) (simp_all add: absent_on_error_def)
  qed
  have create: "\<not> fs_exists F (fst (fs_create_dir_all F staging fs)) target"
    if none: "\<not> fs_exists F fs target" and path: "staging_path pid nonce target = Inr staging" for staging fs
  proof
    assume "fs_exists F (fst (fs_create_dir_all F staging fs)) target"
    then obtain r where "staging = target @ r"
      using none fs_lawsD(2) [OF laws prod.collapse [symmetric]] by blast
    with staging_apart [OF path] show False by simp
  qed
  have staged: "absent_on_error F target (sbind (fs, staging_path pid nonce target) f)"
    if "\<not> fs_exists F fs target"
      "\<And>staging. staging_path pid nonce target = Inr staging \<Longrightarrow> absent_on_error F target (f fs staging)" for fs f
    using that by (cases "staging_path pid nonce target") (simp_all add: absent_on_error_def)
  show ?thesis
    unfolding import_bytes_atomic_def if_not_P [OF absent]
    apply (rule absent_sbind, simp add: absent)
    apply (simp only: case_prod_beta)
    apply (rule absent_sbind, simp)
    apply (rule absent_sbind, simp)
    apply (rule staged, assumption)
    apply (rule absent_sbind, simp add: create)
    apply (rule activate [unfolded case_prod_beta], assumption+)
    done
qed

lemma sbind_InrE:
  assumes "sbind m f = (t, Inr y)"
  obtains s x where "m = (s, Inr x)" "f s x = (t, Inr y)"
  using assms by (auto simp: sbind_Inr_iff)

lemma cleanup_Inr_iff:
  "(case m of (s, Inl e) \<Rightarrow> (g s, Inl e) | (s, Inr u) \<Rightarrow> (s, Inr x)) = (t, Inr y) \<longleftrightarrow> m = (t, Inr ()) \<and> x = y"
  by (cases m; cases "snd m") auto

lemma mapped_Inr_iff: "(case m of (s, r) \<Rightarrow> (s, map_err h r)) = (t, Inr y) \<longleftrightarrow> m = (t, Inr y)"
  by (cases m) auto

lemma persist_success:
  assumes "persist_snapshot P S ledger env = (env', Inr ())"
  shows "\<exists>env1. save_ledger P S ledger env = (env1, Inr ())"
  using assms by (cases "save_ledger P S ledger env") (auto simp: persist_snapshot_def sbind_Inr_iff)

lemma activate_success:
  assumes laws: "fs_laws F" and run: "activate_staging P S B F ledger staging target fs = (fs', Inr ())"
  shows "fs_exists F fs' target \<and> (\<exists>env env'. save_ledger P S ledger env = (env', Inr ()))"
proof -
  from run obtain fs1 env where act: "(case persist_snapshot P S ledger env of (env, r) \<Rightarrow>
      sbind (storage_drop F staging env fs1, r) (\<lambda>fs _. case fs_rename F staging target fs of
        (fs, r) \<Rightarrow> (fs, map_err (\<lambda>e. ''failed to atomically activate snapshot database: '' @ e) r))) = (fs', Inr ())"
    unfolding activate_staging_def by (elim sbind_InrE)
  obtain env' r where saved: "persist_snapshot P S ledger env = (env', r)" by fastforce
  obtain fs2 r2 where rename: "fs_rename F staging target (storage_drop F staging env' fs1) = (fs2, r2)" by fastforce
  from act saved rename have "r = Inr ()" "fs2 = fs'" "r2 = Inr ()" by (auto simp: sbind_Inr_iff)
  note saved = saved [unfolded this] and rename = rename [unfolded this]
  from rename have "fs_exists F fs' target" by (rule fs_lawsD(7) [OF laws])
  with persist_success [OF saved] show ?thesis by blast
qed


end
