(* ===== verification/Orphans.thy ===== *)
theory Orphans
  imports Node_Api
begin

text \<open>
  The orphan pool inside \<open>Node\<close> (\<open>node/src/runtime/node/node.rs\<close>): blocks whose parent is not
  in the fork graph wait under their hash and under their parent's hash, and the missing parents
  are queued for request with a retry time. The operations read the fork graph and the tip
  only through \<open>known\<close> (does the graph contain a hash) and \<open>tip\<close>; the clock reading of an
  operation is its argument \<open>now\<close>.
\<close>

section \<open>State\<close>

definition MAX_ORPHAN_BLOCKS :: nat where "MAX_ORPHAN_BLOCKS = 1024"

definition MAX_ORPHAN_HEIGHT_DISTANCE :: u64 where "MAX_ORPHAN_HEIGHT_DISTANCE = 512"

definition ORPHAN_BLOCK_TTL_SECS :: u64 where "ORPHAN_BLOCK_TTL_SECS = 10 * 60"

definition MISSING_PARENT_RETRY_SECS :: u64 where "MISSING_PARENT_RETRY_SECS = 5"

record 'blk orphan_block =
  ob_block :: 'blk
  ob_received_at :: u64

record 'blk orphan_state =
  orphan_blocks :: "(hash, 'blk orphan_block) btree"
  orphan_children_by_parent :: "(hash, hash list) btree"
  missing_parent_requests :: "hash list"
  missing_parent_request_set :: "hash set"
  missing_parent_retry_at :: "(hash, u64) btree"

section \<open>Requests for missing parents\<close>

definition queue_missing_parent_request_at ::
  "(hash \<Rightarrow> bool) \<Rightarrow> hash \<Rightarrow> u64 \<Rightarrow> ('blk, 'z) orphan_state_scheme \<Rightarrow> ('blk, 'z) orphan_state_scheme" where
  "queue_missing_parent_request_at known h retry_at st =
     (if known h then st
      else
        let st = st\<lparr>missing_parent_retry_at :=
              bt_insert h (case bt_get (missing_parent_retry_at st) h of
                             Some existing \<Rightarrow> min existing retry_at | None \<Rightarrow> retry_at)
                (missing_parent_retry_at st)\<rparr>
        in if h \<in> missing_parent_request_set st then st
           else st\<lparr>missing_parent_request_set := insert h (missing_parent_request_set st),
                   missing_parent_requests := missing_parent_requests st @ [h]\<rparr>)"

definition queue_missing_parent_request ::
  "(hash \<Rightarrow> bool) \<Rightarrow> u64 \<Rightarrow> hash \<Rightarrow> ('blk, 'z) orphan_state_scheme \<Rightarrow> ('blk, 'z) orphan_state_scheme" where
  "queue_missing_parent_request known now h st =
     (if known h then st else queue_missing_parent_request_at known h now st)"

definition retry_missing_parent_request ::
  "(hash \<Rightarrow> bool) \<Rightarrow> u64 \<Rightarrow> hash \<Rightarrow> ('blk, 'z) orphan_state_scheme \<Rightarrow> ('blk, 'z) orphan_state_scheme" where
  "retry_missing_parent_request known now h st =
     queue_missing_parent_request_at known h (sat_add now MISSING_PARENT_RETRY_SECS) st"

text \<open>The \<open>while\<close> loop of \<open>drain_missing_parent_requests_at\<close> over the queue it empties.\<close>

fun drain_loop ::
  "u64 \<Rightarrow> hash list \<Rightarrow> hash list \<Rightarrow> hash list \<Rightarrow> ('blk, 'z) orphan_state_scheme \<Rightarrow>
   ('blk, 'z) orphan_state_scheme \<times> hash list" where
  "drain_loop now ready pending [] st = (st\<lparr>missing_parent_requests := pending\<rparr>, ready)"
| "drain_loop now ready pending (h # queue) st =
     (let retry_at = (case bt_get (missing_parent_retry_at st) h of None \<Rightarrow> 0 | Some at \<Rightarrow> at) in
      if retry_at \<le> now
      then drain_loop now (ready @ [h]) pending queue
             (st\<lparr>missing_parent_request_set := missing_parent_request_set st - {h},
                 missing_parent_retry_at := bt_remove h (missing_parent_retry_at st)\<rparr>)
      else drain_loop now ready (pending @ [h]) queue st)"

definition drain_missing_parent_requests_at ::
  "u64 \<Rightarrow> ('blk, 'z) orphan_state_scheme \<Rightarrow> ('blk, 'z) orphan_state_scheme \<times> hash list" where
  "drain_missing_parent_requests_at now st =
     drain_loop now [] [] (missing_parent_requests st) st"

section \<open>The pool\<close>

definition orphan_is_too_far_ahead ::
  "('tx, 'ldg, 'blk, 'z) block_api_scheme \<Rightarrow> u64 option \<Rightarrow> 'blk \<Rightarrow> bool" where
  "orphan_is_too_far_ahead P tip block \<longleftrightarrow>
     sat_add (case tip of None \<Rightarrow> 0 | Some h \<Rightarrow> h) MAX_ORPHAN_HEIGHT_DISTANCE < blk_height P block"

definition remove_orphan_index ::
  "hash \<Rightarrow> ('blk, 'z) orphan_state_scheme \<Rightarrow> ('blk, 'z) orphan_state_scheme" where
  "remove_orphan_index h st =
     (let retained = map (\<lambda>(parent, children). (parent, filter (\<lambda>c. c \<noteq> h) children))
                       (orphan_children_by_parent st);
          empty_parents = map fst (filter (\<lambda>(_, children). children = []) retained)
      in st\<lparr>orphan_children_by_parent := fold bt_remove empty_parents retained\<rparr>)"

definition remove_orphan ::
  "hash \<Rightarrow> ('blk, 'z) orphan_state_scheme \<Rightarrow> ('blk, 'z) orphan_state_scheme" where
  "remove_orphan h st =
     (let st = remove_orphan_index h st in st\<lparr>orphan_blocks := bt_remove h (orphan_blocks st)\<rparr>)"

definition expired_orphans ::
  "('tx, 'ldg, 'blk, 'z) block_api_scheme \<Rightarrow> u64 option \<Rightarrow> u64 \<Rightarrow> ('blk, 'y) orphan_state_scheme \<Rightarrow>
   hash list" where
  "expired_orphans P tip now st =
     map fst (filter (\<lambda>(_, orphan).
       ORPHAN_BLOCK_TTL_SECS < sat_sub now (ob_received_at orphan) \<or>
       orphan_is_too_far_ahead P tip (ob_block orphan)) (orphan_blocks st))"

definition prune_expired_orphans ::
  "('tx, 'ldg, 'blk, 'z) block_api_scheme \<Rightarrow> u64 option \<Rightarrow> u64 \<Rightarrow> ('blk, 'y) orphan_state_scheme \<Rightarrow>
   ('blk, 'y) orphan_state_scheme" where
  "prune_expired_orphans P tip now st = fold remove_orphan (expired_orphans P tip now st) st"

text \<open>The last steps of \<open>cache_orphan_block\<close>: room, request, index entry, pool entry.\<close>

definition store_orphan ::
  "('tx, 'ldg, 'blk, 'hdr, 'acct, 'z) chain_api_scheme \<Rightarrow> (hash \<Rightarrow> bool) \<Rightarrow> u64 \<Rightarrow> hash \<Rightarrow> 'blk \<Rightarrow>
   ('blk, 'y) orphan_state_scheme \<Rightarrow> ('blk, 'y) orphan_state_scheme" where
  "store_orphan P known now h block st =
     (let st = (if MAX_ORPHAN_BLOCKS \<le> length (orphan_blocks st)
                then (case orphan_blocks st of [] \<Rightarrow> st | (evicted, _) # _ \<Rightarrow> remove_orphan evicted st)
                else st);
          parent = blk_previous_hash P block;
          st = queue_missing_parent_request known now parent st;
          children = (case bt_get (orphan_children_by_parent st) parent of None \<Rightarrow> [] | Some cs \<Rightarrow> cs)
      in st\<lparr>orphan_children_by_parent :=
              bt_insert parent (children @ [h]) (orphan_children_by_parent st),
            orphan_blocks :=
              bt_insert h \<lparr>ob_block = block, ob_received_at = now\<rparr> (orphan_blocks st)\<rparr>)"

definition cache_orphan_block ::
  "('tx, 'ldg, 'blk, 'hdr, 'acct, 'z) chain_api_scheme \<Rightarrow> (hash \<Rightarrow> bool) \<Rightarrow> u64 option \<Rightarrow> u64 \<Rightarrow> 'blk \<Rightarrow>
   ('blk, 'y) orphan_state_scheme \<Rightarrow> ('blk, 'y) orphan_state_scheme \<times> (codec_error + unit)" where
  "cache_orphan_block P known tip now block st =
     (let st = prune_expired_orphans P tip now st in
      if blk_height P block = 0 then (st, Inr ())
      else if orphan_is_too_far_ahead P tip block then (st, Inr ())
      else case blk_hash P block of
        Inl e \<Rightarrow> (st, Inl e)
      | Inr h \<Rightarrow>
          if known h \<or> bt_has (orphan_blocks st) h then (st, Inr ())
          else (store_orphan P known now h block st, Inr ()))"

text \<open>
  The \<open>for\<close> loop of \<open>process_orphans_for_parent\<close> over the children taken out of the index.
  \<open>connect\<close> is \<open>apply_known_parent_block\<close>; \<open>known\<close> and \<open>tip\<close> are read from the state it
  leaves. The stack of parents still to process grows by every child that connects.
\<close>

fun process_children ::
  "('tx, 'ldg, 'blk, 'hdr, 'acct, 'z) chain_api_scheme \<Rightarrow>
   (('blk, 'y) orphan_state_scheme \<Rightarrow> hash \<Rightarrow> bool) \<Rightarrow> (('blk, 'y) orphan_state_scheme \<Rightarrow> u64 option) \<Rightarrow>
   ('blk \<Rightarrow> ('blk, 'y) orphan_state_scheme \<Rightarrow> ('blk, 'y) orphan_state_scheme \<times> (node_error + unit)) \<Rightarrow>
   u64 \<Rightarrow> hash list \<Rightarrow> hash list \<Rightarrow> ('blk, 'y) orphan_state_scheme \<Rightarrow>
   ('blk, 'y) orphan_state_scheme \<times> (node_error + hash list)" where
  "process_children P known tip connect now [] parents st = (st, Inr parents)"
| "process_children P known tip connect now (h # children) parents st =
     (case bt_get (orphan_blocks st) h of
        None \<Rightarrow> process_children P known tip connect now children parents st
      | Some orphan \<Rightarrow>
          (case connect (ob_block orphan) (st\<lparr>orphan_blocks := bt_remove h (orphan_blocks st)\<rparr>) of
             (st', Inr _) \<Rightarrow> process_children P known tip connect now children (h # parents) st'
           | (st', Inl error) \<Rightarrow>
               if error = NodeForkChoice ForkMissingParent
               then (case cache_orphan_block P (known st') (tip st') now (ob_block orphan) st' of
                       (st'', Inl e) \<Rightarrow> (st'', Inl (NodeCodec e))
                     | (st'', Inr _) \<Rightarrow> process_children P known tip connect now children parents st'')
               else process_children P known tip connect now children parents st'))"

section \<open>Well-formedness\<close>

text \<open>The request queue, its membership set and the retry times name the same hashes, once each.\<close>

definition requests_ok :: "('blk, 'z) orphan_state_scheme \<Rightarrow> bool" where
  "requests_ok st \<longleftrightarrow>
     distinct (missing_parent_requests st) \<and>
     set (missing_parent_requests st) = missing_parent_request_set st \<and>
     bt_wf (missing_parent_retry_at st) \<and>
     (\<forall>h. bt_has (missing_parent_retry_at st) h \<longleftrightarrow> h \<in> missing_parent_request_set st)"

text \<open>
  Every waiting block is stored under its hash and indexed under its parent, except the blocks
  of \<open>D\<close>, whose index entry has been taken out for processing; the index names no other block.
\<close>

definition indexed_under ::
  "('tx, 'ldg, 'blk, 'hdr, 'acct, 'z) chain_api_scheme \<Rightarrow> ('blk, 'y) orphan_state_scheme \<Rightarrow> hash \<Rightarrow> hash \<Rightarrow> bool" where
  "indexed_under P st p h \<longleftrightarrow>
     (\<exists>ob. bt_get (orphan_blocks st) h = Some ob \<and> blk_previous_hash P (ob_block ob) = p)"

definition orphan_ok ::
  "('tx, 'ldg, 'blk, 'hdr, 'acct, 'z) chain_api_scheme \<Rightarrow> hash set \<Rightarrow> ('blk, 'y) orphan_state_scheme \<Rightarrow> bool" where
  "orphan_ok P D st \<longleftrightarrow>
     bt_wf (orphan_blocks st) \<and> bt_wf (orphan_children_by_parent st) \<and>
     length (orphan_blocks st) \<le> MAX_ORPHAN_BLOCKS \<and>
     (\<forall>h ob. bt_get (orphan_blocks st) h = Some ob \<longrightarrow>
        blk_hash P (ob_block ob) = Inr h \<and> blk_height P (ob_block ob) \<noteq> 0) \<and>
     (\<forall>p cs. bt_get (orphan_children_by_parent st) p = Some cs \<longrightarrow>
        cs \<noteq> [] \<and> distinct cs \<and> (\<forall>c \<in> set cs. c \<notin> D \<and> indexed_under P st p c)) \<and>
     (\<forall>p h. indexed_under P st p h \<and> h \<notin> D \<longrightarrow>
        (\<exists>cs. bt_get (orphan_children_by_parent st) p = Some cs \<and> h \<in> set cs))"

lemma orphan_ok_child:
  "orphan_ok P D st \<Longrightarrow> bt_get (orphan_children_by_parent st) p = Some cs \<Longrightarrow>
     cs \<noteq> [] \<and> distinct cs \<and> (\<forall>c \<in> set cs. c \<notin> D \<and> indexed_under P st p c)"
  by (simp add: orphan_ok_def)

lemma orphan_ok_index:
  "orphan_ok P D st \<Longrightarrow> indexed_under P st p h \<Longrightarrow> h \<notin> D \<Longrightarrow>
     \<exists>cs. bt_get (orphan_children_by_parent st) p = Some cs \<and> h \<in> set cs"
  by (simp add: orphan_ok_def)

lemma truncate_iff:
  "orphan_state.truncate st = orphan_state.truncate st' \<longleftrightarrow>
     orphan_blocks st = orphan_blocks st' \<and>
     orphan_children_by_parent st = orphan_children_by_parent st' \<and>
     missing_parent_requests st = missing_parent_requests st' \<and>
     missing_parent_request_set st = missing_parent_request_set st' \<and>
     missing_parent_retry_at st = missing_parent_retry_at st'"
  by (simp add: orphan_state.truncate_def)

lemma orphan_ok_truncate:
  "orphan_state.truncate st = orphan_state.truncate st' \<Longrightarrow> orphan_ok P D st = orphan_ok P D st'"
  by (simp add: truncate_iff orphan_ok_def indexed_under_def)

lemma requests_ok_truncate:
  "orphan_state.truncate st = orphan_state.truncate st' \<Longrightarrow> requests_ok st = requests_ok st'"
  by (simp add: truncate_iff requests_ok_def)

subsection \<open>Requests\<close>

lemma queue_at_pool [simp]:
  "orphan_blocks (queue_missing_parent_request_at known h t st) = orphan_blocks st"
  "orphan_children_by_parent (queue_missing_parent_request_at known h t st) = orphan_children_by_parent st"
  "orphan_state.more (queue_missing_parent_request_at known h t st) = orphan_state.more st"
  by (simp_all add: queue_missing_parent_request_at_def Let_def)

lemma queue_pool [simp]:
  "orphan_blocks (queue_missing_parent_request known now h st) = orphan_blocks st"
  "orphan_children_by_parent (queue_missing_parent_request known now h st) = orphan_children_by_parent st"
  "orphan_state.more (queue_missing_parent_request known now h st) = orphan_state.more st"
  by (simp_all add: queue_missing_parent_request_def)

lemma requests_ok_queue_at:
  "requests_ok st \<Longrightarrow> requests_ok (queue_missing_parent_request_at known h t st)"
  by (auto simp: requests_ok_def queue_missing_parent_request_at_def Let_def bt_has_def split: option.splits)

lemma requests_ok_queue: "requests_ok st \<Longrightarrow> requests_ok (queue_missing_parent_request known now h st)"
  by (simp add: queue_missing_parent_request_def requests_ok_queue_at)

definition due :: "('blk, 'z) orphan_state_scheme \<Rightarrow> u64 \<Rightarrow> hash \<Rightarrow> bool" where
  "due st now h \<longleftrightarrow> (case bt_get (missing_parent_retry_at st) h of None \<Rightarrow> 0 | Some at \<Rightarrow> at) \<le> now"

lemma drain_loop_exact:
  assumes "distinct queue"
  shows "drain_loop now ready pending queue st =
    (st\<lparr>missing_parent_requests := pending @ filter (\<lambda>h. \<not> due st now h) queue,
        missing_parent_request_set := missing_parent_request_set st - set (filter (due st now) queue),
        missing_parent_retry_at := fold bt_remove (filter (due st now) queue) (missing_parent_retry_at st)\<rparr>,
     ready @ filter (due st now) queue)"
  using assms
proof (induction queue arbitrary: ready pending st)
  case (Cons h queue)
  have same: "filter (due (st\<lparr>missing_parent_request_set := s,
        missing_parent_retry_at := bt_remove h (missing_parent_retry_at st)\<rparr>) now) queue =
      filter (due st now) queue"
    "filter (\<lambda>h'. \<not> due (st\<lparr>missing_parent_request_set := s,
        missing_parent_retry_at := bt_remove h (missing_parent_retry_at st)\<rparr>) now h') queue =
      filter (\<lambda>h. \<not> due st now h) queue" for s
    using Cons.prems by (auto simp: due_def intro!: filter_cong split: if_splits)
  have step: "drain_loop now ready pending (h # queue) st =
      (if due st now h
       then drain_loop now (ready @ [h]) pending queue
              (st\<lparr>missing_parent_request_set := missing_parent_request_set st - {h},
                  missing_parent_retry_at := bt_remove h (missing_parent_retry_at st)\<rparr>)
       else drain_loop now ready (pending @ [h]) queue st)"
    by (simp add: due_def Let_def)
  have diff: "A - insert h {x \<in> set queue. due st now x} = A - {h} - {x \<in> set queue. due st now x}" for A
    by blast
  show ?case
    using Cons.prems by (simp add: step Cons.IH same diff del: drain_loop.simps)
qed simp

lemma bt_get_fold_remove: "bt_get (fold bt_remove ks m) k = (if k \<in> set ks then None else bt_get m k)"
  by (induction ks arbitrary: m) auto

lemma bt_wf_fold_remove: "bt_wf m \<Longrightarrow> bt_wf (fold bt_remove ks m)"
  by (induction ks arbitrary: m) auto

lemma requests_ok_drain:
  assumes "requests_ok st"
  shows "requests_ok (fst (drain_missing_parent_requests_at now st))"
  using assms drain_loop_exact [of "missing_parent_requests st" now "[]" "[]" st]
  by (auto simp: drain_missing_parent_requests_at_def requests_ok_def bt_has_def bt_get_fold_remove
      bt_wf_fold_remove)

subsection \<open>Removal and expiry\<close>

lemma remove_orphan_index_fields [simp]:
  "orphan_blocks (remove_orphan_index h st) = orphan_blocks st"
  "orphan_state.more (remove_orphan_index h st) = orphan_state.more st"
  "requests_ok (remove_orphan_index h st) = requests_ok st"
  by (simp_all add: remove_orphan_index_def Let_def requests_ok_def)

lemma bt_wf_map_values: "bt_wf (map (\<lambda>(k, v). (k, f v)) m) = bt_wf m"
proof -
  have "map fst (map (\<lambda>(k, v). (k, f v)) m) = map fst m" by (simp add: case_prod_beta)
  then show ?thesis by (simp only: bt_wf_def)
qed

lemma bt_get_map_values: "bt_get (map (\<lambda>(k, v). (k, f v)) m) k = map_option f (bt_get m k)"
  by (induction m) (auto simp: bt_get_def)

lemma remove_orphan_index_get:
  assumes "bt_wf (orphan_children_by_parent st)"
  shows "bt_get (orphan_children_by_parent (remove_orphan_index h st)) p =
    (case bt_get (orphan_children_by_parent st) p of
       None \<Rightarrow> None
     | Some cs \<Rightarrow> if filter (\<lambda>c. c \<noteq> h) cs = [] then None else Some (filter (\<lambda>c. c \<noteq> h) cs))"
    and "bt_wf (orphan_children_by_parent (remove_orphan_index h st))"
proof -
  let ?m = "map (\<lambda>(parent, children). (parent, filter (\<lambda>c. c \<noteq> h) children)) (orphan_children_by_parent st)"
  let ?ks = "map fst (filter (\<lambda>(_, children). children = []) ?m)"
  have wf: "bt_wf ?m" using assms by (simp add: bt_wf_map_values)
  have eq: "orphan_children_by_parent (remove_orphan_index h st) = fold bt_remove ?ks ?m"
    by (simp add: remove_orphan_index_def Let_def)
  have "p \<in> set ?ks \<longleftrightarrow> (p, []) \<in> set ?m" by force
  also have "\<dots> \<longleftrightarrow> bt_get ?m p = Some []" using bt_get_entries [OF wf, of p "[]"] by simp
  finally have "p \<in> set ?ks \<longleftrightarrow> bt_get ?m p = Some []" .
  then show "bt_get (orphan_children_by_parent (remove_orphan_index h st)) p =
    (case bt_get (orphan_children_by_parent st) p of
       None \<Rightarrow> None
     | Some cs \<Rightarrow> if filter (\<lambda>c. c \<noteq> h) cs = [] then None else Some (filter (\<lambda>c. c \<noteq> h) cs))"
    by (simp only: eq bt_get_fold_remove) (simp add: bt_get_map_values split: option.splits)
  show "bt_wf (orphan_children_by_parent (remove_orphan_index h st))"
    by (simp only: eq bt_wf_fold_remove [OF wf])
qed

lemma remove_orphan_fields [simp]:
  "orphan_blocks (remove_orphan h st) = bt_remove h (orphan_blocks st)"
  "orphan_children_by_parent (remove_orphan h st) = orphan_children_by_parent (remove_orphan_index h st)"
  "orphan_state.more (remove_orphan h st) = orphan_state.more st"
  "requests_ok (remove_orphan h st) = requests_ok st"
  by (simp_all add: remove_orphan_def Let_def requests_ok_def remove_orphan_index_def)

lemma indexed_under_remove:
  "indexed_under P (remove_orphan h st) p c \<longleftrightarrow> c \<noteq> h \<and> indexed_under P st p c"
  by (auto simp: indexed_under_def)

lemma remove_orphan_ok:
  assumes "orphan_ok P D st"
  shows "orphan_ok P D (remove_orphan h st)"
proof -
  have wf: "bt_wf (orphan_blocks st)" "bt_wf (orphan_children_by_parent st)"
    using assms by (simp_all add: orphan_ok_def)
  note get = remove_orphan_index_get [OF wf(2), of h]
  have "length (bt_remove h (orphan_blocks st)) \<le> MAX_ORPHAN_BLOCKS"
    using assms bt.length_remove_le [OF wf(1), of h] by (simp add: orphan_ok_def)
  moreover have "cs \<noteq> [] \<and> distinct cs \<and> (\<forall>c \<in> set cs. c \<notin> D \<and> indexed_under P (remove_orphan h st) p c)"
    if "bt_get (orphan_children_by_parent (remove_orphan_index h st)) p = Some cs" for p cs
    using that assms
    by (auto simp: get orphan_ok_def indexed_under_remove split: option.splits if_splits)
  moreover have "\<exists>cs. bt_get (orphan_children_by_parent (remove_orphan_index h st)) p = Some cs \<and> c \<in> set cs"
    if "indexed_under P (remove_orphan h st) p c" "c \<notin> D" for p c
  proof -
    from that have c: "c \<noteq> h" "indexed_under P st p c" by (simp_all add: indexed_under_remove)
    with that(2) assms obtain cs where "bt_get (orphan_children_by_parent st) p = Some cs" "c \<in> set cs"
      unfolding orphan_ok_def by blast
    with c(1) have "bt_get (orphan_children_by_parent (remove_orphan_index h st)) p =
        Some (filter (\<lambda>c. c \<noteq> h) cs)" "c \<in> set (filter (\<lambda>c. c \<noteq> h) cs)"
      by (auto simp: get filter_empty_conv)
    then show ?thesis by blast
  qed
  ultimately show ?thesis
    using assms get(2) by (simp add: orphan_ok_def)
qed

lemma prune_fields [simp]:
  "orphan_state.more (prune_expired_orphans P tip now st) = orphan_state.more st"
  "requests_ok (prune_expired_orphans P tip now st) = requests_ok st"
proof -
  have "orphan_state.more (fold remove_orphan hs st) = orphan_state.more st \<and>
      requests_ok (fold remove_orphan hs st) = requests_ok st" for hs
    by (induction hs arbitrary: st) simp_all
  then show "orphan_state.more (prune_expired_orphans P tip now st) = orphan_state.more st"
    "requests_ok (prune_expired_orphans P tip now st) = requests_ok st"
    by (simp_all add: prune_expired_orphans_def)
qed

lemma prune_blocks:
  "bt_get (orphan_blocks (prune_expired_orphans P tip now st)) h =
     (if h \<in> set (expired_orphans P tip now st) then None else bt_get (orphan_blocks st) h)"
proof -
  have "orphan_blocks (fold remove_orphan hs st) = fold bt_remove hs (orphan_blocks st)" for hs
    by (induction hs arbitrary: st) simp_all
  then show ?thesis by (simp add: prune_expired_orphans_def bt_get_fold_remove)
qed

lemma prune_ok: "orphan_ok P D st \<Longrightarrow> orphan_ok P D (prune_expired_orphans P' tip now st)"
proof -
  have "orphan_ok P D st \<Longrightarrow> orphan_ok P D (fold remove_orphan hs st)" for hs
    by (induction hs arbitrary: st) (simp_all add: remove_orphan_ok)
  then show "orphan_ok P D st \<Longrightarrow> orphan_ok P D (prune_expired_orphans P' tip now st)"
    by (simp add: prune_expired_orphans_def)
qed

lemma length_bt_insert_le: "length (bt_insert k v m) \<le> Suc (length m)"
  by (induction m) auto

lemma prune_length: "length (orphan_blocks (prune_expired_orphans P tip now st)) \<le> length (orphan_blocks st)"
proof -
  have "length (orphan_blocks (fold remove_orphan hs st)) \<le> length (orphan_blocks st)" for hs
  proof (induction hs arbitrary: st)
    case (Cons h hs)
    have "length (orphan_blocks (remove_orphan h st)) \<le> length (orphan_blocks st)"
      by (simp add: bt_remove_def)
    with Cons.IH [of "remove_orphan h st"] show ?case by simp
  qed simp
  then show ?thesis by (simp add: prune_expired_orphans_def)
qed

subsection \<open>Storing a waiting block\<close>

definition make_room :: "('blk, 'z) orphan_state_scheme \<Rightarrow> ('blk, 'z) orphan_state_scheme" where
  "make_room st =
     (if MAX_ORPHAN_BLOCKS \<le> length (orphan_blocks st)
      then (case orphan_blocks st of [] \<Rightarrow> st | (evicted, _) # _ \<Rightarrow> remove_orphan evicted st)
      else st)"

lemma make_room_fields [simp]:
  "orphan_state.more (make_room st) = orphan_state.more st"
  "requests_ok (make_room st) = requests_ok st"
  by (auto simp: make_room_def split: list.split)

lemma make_room_ok: "orphan_ok P D st \<Longrightarrow> orphan_ok P D (make_room st)"
  by (auto simp: make_room_def remove_orphan_ok split: list.split)

lemma make_room_less:
  assumes "length (orphan_blocks st) \<le> MAX_ORPHAN_BLOCKS"
  shows "length (orphan_blocks (make_room st)) < MAX_ORPHAN_BLOCKS"
proof (cases "orphan_blocks st")
  case Nil
  then show ?thesis by (simp add: make_room_def MAX_ORPHAN_BLOCKS_def)
next
  case (Cons e es)
  then have "length (bt_remove (fst e) (orphan_blocks st)) < length (orphan_blocks st)"
    by (intro length_bt_remove_less) simp
  with Cons assms show ?thesis by (auto simp: make_room_def split: prod.split)
qed

lemma make_room_get: "bt_get (orphan_blocks st) h = None \<Longrightarrow> bt_get (orphan_blocks (make_room st)) h = None"
  by (auto simp: make_room_def split: list.split)

lemma make_room_length: "length (orphan_blocks (make_room st)) \<le> length (orphan_blocks st)"
  by (auto simp: make_room_def bt_remove_def intro: le_SucI split: list.split)

definition children_of :: "('blk, 'z) orphan_state_scheme \<Rightarrow> hash \<Rightarrow> hash list" where
  "children_of st p = (case bt_get (orphan_children_by_parent st) p of None \<Rightarrow> [] | Some cs \<Rightarrow> cs)"

lemma store_orphan_fields:
  "orphan_blocks (store_orphan P known now h block st) =
     bt_insert h \<lparr>ob_block = block, ob_received_at = now\<rparr> (orphan_blocks (make_room st))"
  "orphan_children_by_parent (store_orphan P known now h block st) =
     bt_insert (blk_previous_hash P block) (children_of (make_room st) (blk_previous_hash P block) @ [h])
       (orphan_children_by_parent (make_room st))"
  "orphan_state.more (store_orphan P known now h block st) = orphan_state.more st"
  "requests_ok st \<Longrightarrow> requests_ok (store_orphan P known now h block st)"
proof -
  let ?q = "queue_missing_parent_request known now (blk_previous_hash P block) (make_room st)"
  have eq: "store_orphan P known now h block st = ?q
      \<lparr>orphan_children_by_parent := bt_insert (blk_previous_hash P block)
         (children_of (make_room st) (blk_previous_hash P block) @ [h]) (orphan_children_by_parent (make_room st)),
       orphan_blocks := bt_insert h \<lparr>ob_block = block, ob_received_at = now\<rparr> (orphan_blocks (make_room st))\<rparr>"
    unfolding store_orphan_def Let_def make_room_def [symmetric] by (simp add: children_of_def)
  show "orphan_blocks (store_orphan P known now h block st) =
     bt_insert h \<lparr>ob_block = block, ob_received_at = now\<rparr> (orphan_blocks (make_room st))"
    "orphan_children_by_parent (store_orphan P known now h block st) =
     bt_insert (blk_previous_hash P block) (children_of (make_room st) (blk_previous_hash P block) @ [h])
       (orphan_children_by_parent (make_room st))"
    "orphan_state.more (store_orphan P known now h block st) = orphan_state.more st"
    by (simp_all add: eq)
  have "requests_ok ?q" if "requests_ok st"
    using that by (simp add: requests_ok_queue)
  then show "requests_ok st \<Longrightarrow> requests_ok (store_orphan P known now h block st)"
    by (simp add: eq requests_ok_def)
qed

lemma store_orphan_ok:
  assumes ok: "orphan_ok P D st" and h: "blk_hash P block = Inr h" "blk_height P block \<noteq> 0"
    and fresh: "bt_get (orphan_blocks st) h = None" "h \<notin> D"
  shows "orphan_ok P D (store_orphan P known now h block st)"
proof -
  let ?r = "make_room st" and ?s = "store_orphan P known now h block st"
  let ?p = "blk_previous_hash P block"
  have r: "orphan_ok P D ?r" by (rule make_room_ok [OF ok])
  have absent: "bt_get (orphan_blocks ?r) h = None" by (rule make_room_get [OF fresh(1)])
  have "length (orphan_blocks ?s) \<le> MAX_ORPHAN_BLOCKS"
  proof -
    have "length (orphan_blocks ?r) < MAX_ORPHAN_BLOCKS"
      using ok by (intro make_room_less) (simp add: orphan_ok_def)
    moreover have "bt_wf (orphan_blocks ?r)" using r by (simp add: orphan_ok_def)
    then have "length (bt_insert h \<lparr>ob_block = block, ob_received_at = now\<rparr> (orphan_blocks ?r)) \<le>
        Suc (length (orphan_blocks ?r))"
      by (rule bt.length_insert_le)
    ultimately show ?thesis by (simp only: store_orphan_fields)
  qed
  moreover have under: "indexed_under P ?s p c \<longleftrightarrow> (if c = h then p = ?p else indexed_under P ?r p c)" for p c
    by (auto simp: indexed_under_def store_orphan_fields)
  have none: "\<not> indexed_under P ?r p h" for p using absent by (simp add: indexed_under_def)
  have kids: "distinct (children_of ?r p) \<and> h \<notin> set (children_of ?r p) \<and>
      (\<forall>c \<in> set (children_of ?r p). c \<notin> D \<and> indexed_under P ?r p c)" for p
    using orphan_ok_child [OF r, of p] none [of p]
    by (cases "bt_get (orphan_children_by_parent ?r) p") (auto simp: children_of_def)
  have "cs \<noteq> [] \<and> distinct cs \<and> (\<forall>c \<in> set cs. c \<notin> D \<and> indexed_under P ?s p c)"
    if "bt_get (orphan_children_by_parent ?s) p = Some cs" for p cs
  proof (cases "p = ?p")
    case True
    then show ?thesis using that kids [of ?p] fresh(2) by (auto simp: store_orphan_fields under)
  next
    case False
    then have "bt_get (orphan_children_by_parent ?r) p = Some cs" using that by (simp add: store_orphan_fields)
    moreover from this have "children_of ?r p = cs" by (simp add: children_of_def)
    ultimately show ?thesis using orphan_ok_child [OF r] kids [of p] by (auto simp: under)
  qed
  moreover have "\<exists>cs. bt_get (orphan_children_by_parent ?s) p = Some cs \<and> c \<in> set cs"
    if "indexed_under P ?s p c" "c \<notin> D" for p c
  proof -
    have old: "\<exists>cs. bt_get (orphan_children_by_parent ?r) p = Some cs \<and> c \<in> set cs" if "c \<noteq> h"
      using that \<open>indexed_under P ?s p c\<close> orphan_ok_index [OF r _ \<open>c \<notin> D\<close>] by (simp add: under)
    show ?thesis
    proof (cases "p = ?p")
      case True
      with old show ?thesis by (cases "c = h") (auto simp: store_orphan_fields children_of_def)
    next
      case False
      with that old show ?thesis by (cases "c = h") (simp_all add: store_orphan_fields under)
    qed
  qed
  ultimately show ?thesis
    using r h by (auto simp: orphan_ok_def store_orphan_fields)
qed

lemma cache_orphan_block_fields:
  assumes "cache_orphan_block P known tip now block st = (st', r)"
  shows "orphan_state.more st' = orphan_state.more st" "requests_ok st \<Longrightarrow> requests_ok st'"
    "length (orphan_blocks st') \<le> Suc (length (orphan_blocks st))"
proof -
  show "orphan_state.more st' = orphan_state.more st" "requests_ok st \<Longrightarrow> requests_ok st'"
    using assms by (auto simp: cache_orphan_block_def Let_def store_orphan_fields split: if_splits sum.splits)
  have "length (orphan_blocks (store_orphan P known now h block s)) \<le> Suc (length (orphan_blocks s))" for h s
    using le_trans [OF length_bt_insert_le Suc_le_mono [THEN iffD2, OF make_room_length]]
    by (simp only: store_orphan_fields)
  then show "length (orphan_blocks st') \<le> Suc (length (orphan_blocks st))"
    using assms prune_length [of P tip now st]
    by (auto simp: cache_orphan_block_def Let_def split: if_splits sum.splits intro: order_trans)
qed

lemma cache_orphan_block_ok:
  assumes "orphan_ok P D st" "cache_orphan_block P known tip now block st = (st', r)"
    and "\<And>h. blk_hash P block = Inr h \<Longrightarrow> h \<notin> D"
  shows "orphan_ok P D st'"
  using assms
  by (auto simp: cache_orphan_block_def Let_def bt_has_def prune_ok store_orphan_ok
      split: if_splits sum.splits)

lemma orphan_ok_absent:
  assumes "orphan_ok P (insert h D) st" "bt_get (orphan_blocks st) h = None"
  shows "orphan_ok P D st"
proof -
  have "\<not> indexed_under P st p h" for p using assms(2) by (simp add: indexed_under_def)
  then have "\<forall>p c. indexed_under P st p c \<and> c \<notin> D \<longrightarrow>
      (\<exists>cs. bt_get (orphan_children_by_parent st) p = Some cs \<and> c \<in> set cs)"
    using orphan_ok_index [OF assms(1)] by (metis insertE)
  with assms(1) show ?thesis by (simp add: orphan_ok_def)
qed

lemma orphan_ok_take:
  assumes "orphan_ok P (insert h D) st"
  shows "orphan_ok P D (st\<lparr>orphan_blocks := bt_remove h (orphan_blocks st)\<rparr>)"
proof (rule orphan_ok_absent)
  let ?st = "st\<lparr>orphan_blocks := bt_remove h (orphan_blocks st)\<rparr>"
  have under: "indexed_under P ?st p c \<longleftrightarrow> c \<noteq> h \<and> indexed_under P st p c" for p c
    by (auto simp: indexed_under_def)
  have "length (bt_remove h (orphan_blocks st)) \<le> length (orphan_blocks st)"
    by (simp add: bt_remove_def)
  with assms show "orphan_ok P (insert h D) ?st"
    unfolding orphan_ok_def under by simp
qed simp

lemma make_room_sub: "bt_get (orphan_blocks (make_room st)) h = Some ob \<Longrightarrow> bt_get (orphan_blocks st) h = Some ob"
  by (auto simp: make_room_def split: if_splits list.splits)

lemma prune_sub:
  "bt_get (orphan_blocks (prune_expired_orphans P tip now st)) h = Some ob \<Longrightarrow> bt_get (orphan_blocks st) h = Some ob"
  by (simp add: prune_blocks split: if_splits)

lemma cache_orphan_block_get:
  assumes "cache_orphan_block P known tip now block st = (st', r)"
    and "bt_get (orphan_blocks st') c = Some ob"
  shows "bt_get (orphan_blocks st) c = Some ob \<or> ob_block ob = block"
  using assms
  by (auto simp: cache_orphan_block_def Let_def store_orphan_fields
      split: if_splits sum.splits dest!: prune_sub make_room_sub)

text \<open>Taking the children of a parent out of the index detaches exactly them.\<close>

lemma orphan_ok_detach:
  assumes ok: "orphan_ok P {} st" and children: "bt_get (orphan_children_by_parent st) parent = Some children"
  shows "orphan_ok P (set children)
      (st\<lparr>orphan_children_by_parent := bt_remove parent (orphan_children_by_parent st)\<rparr>)"
    and "distinct children"
proof -
  let ?st = "st\<lparr>orphan_children_by_parent := bt_remove parent (orphan_children_by_parent st)\<rparr>"
  show "distinct children" using orphan_ok_child [OF ok children] by simp
  have under: "indexed_under P ?st p c = indexed_under P st p c" for p c by (simp add: indexed_under_def)
  have one: "p = p'" if "indexed_under P st p c" "indexed_under P st p' c" for p p' c
    using that by (auto simp: indexed_under_def)
  have "cs \<noteq> [] \<and> distinct cs \<and> (\<forall>c \<in> set cs. c \<notin> set children \<and> indexed_under P ?st p c)"
    if "bt_get (orphan_children_by_parent ?st) p = Some cs" for p cs
  proof -
    from that have p: "p \<noteq> parent" "bt_get (orphan_children_by_parent st) p = Some cs"
      by (simp_all split: if_splits)
    then show ?thesis
      using orphan_ok_child [OF ok p(2)] orphan_ok_child [OF ok children] one by (auto simp: under)
  qed
  moreover have "\<exists>cs. bt_get (orphan_children_by_parent ?st) p = Some cs \<and> c \<in> set cs"
    if "indexed_under P ?st p c" "c \<notin> set children" for p c
    using that orphan_ok_index [OF ok, of p c] children by (auto simp: under split: if_splits)
  ultimately show "orphan_ok P (set children) ?st"
    using ok by (simp add: orphan_ok_def)
qed

section \<open>Connecting waiting blocks\<close>

text \<open>
  What the orphan loop needs of the node: connecting a block leaves the orphan fields alone,
  and the fork graph is not one of the orphan fields.
\<close>

locale orphan_client =
  fixes P :: "('tx, 'ldg, 'blk, 'hdr, 'acct, 'z) chain_api_scheme"
    and known :: "('blk, 'y) orphan_state_scheme \<Rightarrow> hash \<Rightarrow> bool"
    and tip :: "('blk, 'y) orphan_state_scheme \<Rightarrow> u64 option"
    and connect :: "'blk \<Rightarrow> ('blk, 'y) orphan_state_scheme \<Rightarrow> ('blk, 'y) orphan_state_scheme \<times> (node_error + unit)"
  assumes connect_keeps: "orphan_state.truncate (fst (connect b st)) = orphan_state.truncate st"
    and known_more: "orphan_state.more st = orphan_state.more st' \<Longrightarrow> known st = known st'"
begin

lemma connect_blocks: "connect b st = (st', r) \<Longrightarrow> orphan_blocks st' = orphan_blocks st"
  using connect_keeps [of b st] by (simp add: truncate_iff)

lemma connect_ok:
  "connect b st = (st', r) \<Longrightarrow> orphan_ok P D st' = orphan_ok P D st \<and> requests_ok st' = requests_ok st"
  using orphan_ok_truncate [OF connect_keeps [of b st], of P D] requests_ok_truncate [OF connect_keeps [of b st]]
  by simp

lemma process_children_measure:
  assumes "process_children P known tip connect now children parents st = (st', Inr parents')"
  shows "2 * length (orphan_blocks st') + length parents' \<le> 2 * length (orphan_blocks st) + length parents"
  using assms
proof (induction children arbitrary: parents st)
  case (Cons h children)
  show ?case
  proof (cases "bt_get (orphan_blocks st) h")
    case None
    with Cons show ?thesis by simp
  next
    case (Some orphan)
    let ?st = "st\<lparr>orphan_blocks := bt_remove h (orphan_blocks st)\<rparr>"
    obtain st1 r where connect: "connect (ob_block orphan) ?st = (st1, r)" by fastforce
    have "(h, orphan) \<in> set (orphan_blocks st)" using Some by (simp add: bt_get_def map_of_SomeD)
    then have "length (orphan_blocks st1) < length (orphan_blocks st)"
      using connect_blocks [OF connect] length_bt_remove_less [of "(h, orphan)"] by simp
    moreover have "length (orphan_blocks s) \<le> Suc (length (orphan_blocks st1))"
      if "cache_orphan_block P (known st1) (tip st1) now (ob_block orphan) st1 = (s, r')" for s r'
      using cache_orphan_block_fields(3) [OF that] .
    ultimately show ?thesis
      using Cons.prems Some connect
      by (fastforce dest!: Cons.IH split: sum.splits if_splits prod.splits)
  qed
qed simp

lemma process_children_ok:
  assumes "orphan_ok P (set children) st" "distinct children" "requests_ok st"
  shows "\<exists>st' parents'. process_children P known tip connect now children parents st = (st', Inr parents') \<and>
    orphan_ok P {} st' \<and> requests_ok st'"
  using assms
proof (induction children arbitrary: parents st)
  case (Cons h children)
  show ?case
  proof (cases "bt_get (orphan_blocks st) h")
    case None
    then have "orphan_ok P (set children) st"
      using Cons.prems(1) orphan_ok_absent by simp
    with None Cons show ?thesis by simp
  next
    case (Some orphan)
    let ?st = "st\<lparr>orphan_blocks := bt_remove h (orphan_blocks st)\<rparr>"
    obtain st1 r where connect: "connect (ob_block orphan) ?st = (st1, r)" by fastforce
    have "orphan_ok P (set children) ?st"
      using Cons.prems(1) by (simp add: orphan_ok_take)
    then have ok: "orphan_ok P (set children) st1"
      using connect_ok [OF connect] by simp
    have req: "requests_ok st1"
      using connect_ok [OF connect] Cons.prems(3) by (simp add: requests_ok_def)
    have hash: "blk_hash P (ob_block orphan) = Inr h"
      using Cons.prems(1) Some by (simp add: orphan_ok_def)
    show ?thesis
    proof (cases "\<exists>s r'. r = Inl (NodeForkChoice ForkMissingParent) \<and>
        cache_orphan_block P (known st1) (tip st1) now (ob_block orphan) st1 = (s, r')")
      case True
      then obtain s r' where r: "r = Inl (NodeForkChoice ForkMissingParent)"
        and cache: "cache_orphan_block P (known st1) (tip st1) now (ob_block orphan) st1 = (s, r')" by blast
      have "r' = Inr ()"
        using cache hash by (auto simp: cache_orphan_block_def Let_def split: if_splits)
      moreover have "orphan_ok P (set children) s"
        using cache_orphan_block_ok [OF ok cache] hash Cons.prems(2) by simp
      moreover have "requests_ok s" using cache_orphan_block_fields(2) [OF cache req] .
      ultimately show ?thesis
        using Some connect r cache Cons.IH [of s parents] Cons.prems(2) by simp
    next
      case False
      then have "r \<noteq> Inl (NodeForkChoice ForkMissingParent)" by fastforce
      then show ?thesis
        using Some connect ok req Cons.IH [of st1] Cons.prems(2) by (auto split: sum.split)
    qed
  qed
qed simp

lemma process_children_frame:
  assumes "\<And>b st. I st \<Longrightarrow> I (fst (connect b st))"
    and "\<And>st st'. orphan_state.more st = orphan_state.more st' \<Longrightarrow> I st = I st'"
    and "I st"
  shows "I (fst (process_children P known tip connect now children parents st))"
  using assms(3)
proof (induction children arbitrary: parents st)
  case (Cons h children)
  show ?case
  proof (cases "bt_get (orphan_blocks st) h")
    case None
    with Cons show ?thesis by simp
  next
    case (Some orphan)
    let ?st = "st\<lparr>orphan_blocks := bt_remove h (orphan_blocks st)\<rparr>"
    obtain st1 r where connect: "connect (ob_block orphan) ?st = (st1, r)" by fastforce
    have "I ?st" using assms(2) [of ?st st] Cons.prems by simp
    then have I1: "I st1" using assms(1) [of ?st "ob_block orphan"] connect by simp
    obtain s r' where cache: "cache_orphan_block P (known st1) (tip st1) now (ob_block orphan) st1 = (s, r')"
      by fastforce
    have "I s" using assms(2) [OF cache_orphan_block_fields(1) [OF cache]] I1 by simp
    with I1 show ?thesis
      using Cons.IH Some connect cache by (auto split: sum.split)
  qed
qed simp

text \<open>
  A waiting block whose parent is known is about to be processed, or its parent entered the fork
  graph although connecting it failed (\<open>failed\<close>).
\<close>

lemma process_children_waiting:
  assumes step: "\<And>b st. I st \<Longrightarrow> I (fst (connect b st))"
    and more: "\<And>st st'. orphan_state.more st = orphan_state.more st' \<Longrightarrow> I st = I st'"
    and new: "\<And>b s s' r x. I s \<Longrightarrow> connect b s = (s', r) \<Longrightarrow> known s' x \<Longrightarrow>
      known s x \<or> blk_hash P b = Inr x \<and> (r = Inr () \<or> failed x)"
    and missing: "\<And>b s s'. connect b s = (s', Inl (NodeForkChoice ForkMissingParent)) \<Longrightarrow>
      \<not> known s' (blk_previous_hash P b)"
    and "I st" "orphan_ok P (set children) st" "distinct children"
    and "\<forall>h ob. bt_get (orphan_blocks st) h = Some ob \<and> h \<notin> set children \<and>
      known st (blk_previous_hash P (ob_block ob)) \<longrightarrow>
      blk_previous_hash P (ob_block ob) \<in> set parents \<or> failed (blk_previous_hash P (ob_block ob))"
    and "process_children P known tip connect now children parents st = (st', Inr parents')"
  shows "\<forall>h ob. bt_get (orphan_blocks st') h = Some ob \<and>
      known st' (blk_previous_hash P (ob_block ob)) \<longrightarrow>
      blk_previous_hash P (ob_block ob) \<in> set parents' \<or> failed (blk_previous_hash P (ob_block ob))"
  using assms(5-)
proof (induction children arbitrary: parents st)
  case (Cons h children)
  show ?case
  proof (cases "bt_get (orphan_blocks st) h")
    case None
    with Cons.prems(2) have "orphan_ok P (set children) st" by (simp add: orphan_ok_absent)
    moreover have "\<forall>k ob. bt_get (orphan_blocks st) k = Some ob \<and> k \<notin> set children \<and>
        known st (blk_previous_hash P (ob_block ob)) \<longrightarrow>
        blk_previous_hash P (ob_block ob) \<in> set parents \<or> failed (blk_previous_hash P (ob_block ob))"
      using Cons.prems(4) None by (metis option.distinct(1) set_ConsD)
    ultimately show ?thesis using Cons.IH [of st parents] Cons.prems None by simp
  next
    case (Some orphan)
    let ?st = "st\<lparr>orphan_blocks := bt_remove h (orphan_blocks st)\<rparr>"
    obtain st1 r where connect: "connect (ob_block orphan) ?st = (st1, r)" by fastforce
    have ok: "orphan_ok P (set children) st1"
      using connect_ok [OF connect] Cons.prems(2) by (simp add: orphan_ok_take)
    have hash: "blk_hash P (ob_block orphan) = Inr h"
      using Cons.prems(2) Some by (simp add: orphan_ok_def)
    have known: "known ?st = known st" by (rule known_more) simp
    have I: "I ?st" using more [of ?st st] Cons.prems(1) by simp
    then have I1: "I st1" using step [of ?st "ob_block orphan"] connect by simp
    let ?parents = "if r = Inr () then h # parents else parents"
    have wait: "\<forall>k ob. bt_get (orphan_blocks st1) k = Some ob \<and> k \<notin> set children \<and>
        known st1 (blk_previous_hash P (ob_block ob)) \<longrightarrow>
        blk_previous_hash P (ob_block ob) \<in> set ?parents \<or> failed (blk_previous_hash P (ob_block ob))"
    proof (intro allI impI, elim conjE)
      fix k and ob :: "'blk orphan_block"
      let ?p = "blk_previous_hash P (ob_block ob)"
      assume k: "bt_get (orphan_blocks st1) k = Some ob" "k \<notin> set children" "known st1 ?p"
      then have "bt_get (orphan_blocks st) k = Some ob" "k \<noteq> h"
        using connect_blocks [OF connect] by (simp_all split: if_splits)
      then have "known st ?p \<Longrightarrow> ?p \<in> set parents \<or> failed ?p" using Cons.prems(4) k(2) by simp
      then show "?p \<in> set ?parents \<or> failed ?p"
        using new [OF I connect k(3)] hash by (auto simp: known)
    qed
    show ?thesis
    proof (cases "r = Inl (NodeForkChoice ForkMissingParent)")
      case True
      obtain s r' where cache: "cache_orphan_block P (known st1) (tip st1) now (ob_block orphan) st1 = (s, r')"
        by fastforce
      have r': "r' = Inr ()"
        using cache hash by (auto simp: cache_orphan_block_def Let_def split: if_splits)
      have Is: "I s" using more [OF cache_orphan_block_fields(1) [OF cache]] I1 by simp
      have "orphan_ok P (set children) s"
        using cache_orphan_block_ok [OF ok cache] hash Cons.prems(3) by simp
      moreover have same: "known s = known st1"
        by (rule known_more) (rule cache_orphan_block_fields(1) [OF cache])
      have "\<forall>k ob. bt_get (orphan_blocks s) k = Some ob \<and> k \<notin> set children \<and>
          known s (blk_previous_hash P (ob_block ob)) \<longrightarrow>
          blk_previous_hash P (ob_block ob) \<in> set parents \<or> failed (blk_previous_hash P (ob_block ob))"
        using wait True missing connect cache_orphan_block_get [OF cache] unfolding same by fastforce
      ultimately show ?thesis
        using Is Cons.IH [of s parents] Cons.prems(3,5) Some connect cache r' True by simp
    next
      case False
      then show ?thesis
        using Cons.IH [OF I1 ok, of ?parents] wait Cons.prems(3,5) Some connect
        by (auto split: sum.splits if_splits)
    qed
  qed
qed simp

end

end
