(* ===== verification/Miner.thy ===== *)
theory Miner
  imports Node_Api
begin

text \<open>
  Candidate blocks and the proof-of-work search, \<open>node/src/runtime/miner/miner.rs\<close>. The closure
  \<open>should_stop\<close> reads a flag that other threads set; it is a function of the attempt at which
  it is polled.
\<close>

record mining_config =
  mc_difficulty :: u32
  mc_start_nonce :: u64
  mc_max_attempts :: u64
  mc_transaction_limit :: usize
  mc_min_fee_rate :: u64

record 'blk mining_result =
  mr_block :: 'blk
  mr_attempts :: u64

fun ledger_to_consensus_error :: "ledger_error \<Rightarrow> consensus_error" where
  "ledger_to_consensus_error (LedgerInvalidConsensus e) = e"
| "ledger_to_consensus_error (LedgerInvalidBlock e) = ConsensusInvalidBlock e"
| "ledger_to_consensus_error LedgerInvalidBlockHeight = ConsensusInvalidHeight"
| "ledger_to_consensus_error LedgerInvalidPreviousHash = ConsensusInvalidPreviousHash"
| "ledger_to_consensus_error LedgerInvalidParent = ConsensusInvalidPreviousHash"
| "ledger_to_consensus_error LedgerInvalidStateRoot = ConsensusInvalidBlock BlockInvalidStateRoot"
| "ledger_to_consensus_error _ = ConsensusInvalidBlock BlockInvalidStateRoot"

fun genesis_to_consensus_error :: "genesis_error \<Rightarrow> consensus_error" where
  "genesis_to_consensus_error (GenesisCodec e) = ConsensusSerialization e"
| "genesis_to_consensus_error (GenesisLedger e) = ledger_to_consensus_error e"
| "genesis_to_consensus_error _ = ConsensusInvalidBlock BlockInvalidGenesisAllocation"

definition prepare_candidate_block ::
  "('tx, 'ldg, 'blk, 'hdr, 'acct, 'fc, 'cons, 'prf, 'z) node_api_scheme \<Rightarrow> 'tx mempool \<Rightarrow> 'ldg \<Rightarrow> address \<Rightarrow>
   usize \<Rightarrow> u64 \<Rightarrow> u32 \<Rightarrow> consensus_error + 'blk" where
  "prepare_candidate_block P mp ledger miner_address transaction_limit min_fee_rate difficulty =
     (if tip_height P ledger = None
      then rbind (map_err genesis_to_consensus_error (create_genesis_block P miner_address))
             (\<lambda>genesis. Inr (blk_set_difficulty P difficulty genesis))
      else
        rbind (ok_or ConsensusInvalidHeight (map_option (\<lambda>h. sat_add h 1) (tip_height P ledger))) (\<lambda>height.
        rbind (ok_or ConsensusInvalidPreviousHash (ldg_tip_hash P ledger)) (\<lambda>previous_hash.
        rbind (map_err (\<lambda>_. ConsensusInvalidBlock BlockInvalidCoinbase) (mintable_subsidy P ledger height)) (\<lambda>subsidy.
        rbind (new_candidate_block P height previous_hash miner_address difficulty subsidy) (\<lambda>block.
          case append_selected_to_block P ledger transaction_limit min_fee_rate mp block of
            (block, r) \<Rightarrow>
        rbind (map_err (\<lambda>_. ConsensusInvalidBlock BlockInvalidTransaction) r) (\<lambda>_.
          let block = blk_set_state_root P (replicate (hash_size P) 0) (blk_set_difficulty P difficulty block) in
        rbind (map_err ledger_to_consensus_error (execute_block P ledger block)) (\<lambda>executed.
          Inr (blk_set_state_root P (snd executed) block))))))))"

lemma unat_Suc_less: "(x :: u64) < y \<Longrightarrow> unat (x + 1) = Suc (unat x)"
  using u64_less [of y] by (simp add: unat_word_ariths word_less_nat_alt)

function mine_loop ::
  "('tx, 'ldg, 'blk, 'hdr, 'acct, 'fc, 'cons, 'prf, 'z) node_api_scheme \<Rightarrow> 'cons \<Rightarrow> mining_config \<Rightarrow> (u64 \<Rightarrow> bool) \<Rightarrow>
   u64 \<Rightarrow> u64 \<Rightarrow> 'blk \<Rightarrow> consensus_error + 'blk mining_result option \<times> u64" where
  "mine_loop P consensus config should_stop max_attempts attempt block =
     (if attempt < max_attempts then
        if attempt mod 1024 = 0 \<and> should_stop attempt then Inr (None, attempt)
        else
          let block = blk_set_nonce P (mc_start_nonce config + attempt) block;
              attempts = sat_add attempt 1
          in if mc_difficulty config = 0
             then Inr (Some \<lparr>mr_block = block, mr_attempts = attempts\<rparr>, attempts)
             else case proof_of_work_hash P consensus block of
               Inl e \<Rightarrow> Inl e
             | Inr h \<Rightarrow>
                 (case validate_proof_of_work_hash P consensus h (mc_difficulty config) of
                    Inr _ \<Rightarrow> Inr (Some \<lparr>mr_block = block, mr_attempts = attempts\<rparr>, attempts)
                  | Inl _ \<Rightarrow> mine_loop P consensus config should_stop max_attempts (attempt + 1) block)
      else Inr (None, max_attempts))"
  by pat_completeness auto

termination
  by (relation "measure (\<lambda>(P, c, g, s, m, a, b). unat m - unat a)")
    (auto simp: unat_Suc_less word_less_nat_alt)

declare mine_loop.simps [simp del]

definition mine_prepared_block_until_with_attempts ::
  "('tx, 'ldg, 'blk, 'hdr, 'acct, 'fc, 'cons, 'prf, 'z) node_api_scheme \<Rightarrow> 'blk \<Rightarrow> 'cons \<Rightarrow> mining_config \<Rightarrow>
   (u64 \<Rightarrow> bool) \<Rightarrow> consensus_error + 'blk mining_result option \<times> u64" where
  "mine_prepared_block_until_with_attempts P block consensus config should_stop =
     mine_loop P consensus config should_stop
       (if mc_max_attempts config = 0 then - 1 else mc_max_attempts config) 0 block"

definition mine_prepared_block_until ::
  "('tx, 'ldg, 'blk, 'hdr, 'acct, 'fc, 'cons, 'prf, 'z) node_api_scheme \<Rightarrow> 'blk \<Rightarrow> 'cons \<Rightarrow> mining_config \<Rightarrow>
   (u64 \<Rightarrow> bool) \<Rightarrow> consensus_error + 'blk mining_result option" where
  "mine_prepared_block_until P block consensus config should_stop =
     rbind (mine_prepared_block_until_with_attempts P block consensus config should_stop)
       (\<lambda>(result, _). Inr result)"

definition mine_prepared_block ::
  "('tx, 'ldg, 'blk, 'hdr, 'acct, 'fc, 'cons, 'prf, 'z) node_api_scheme \<Rightarrow> 'blk \<Rightarrow> 'cons \<Rightarrow> mining_config \<Rightarrow>
   consensus_error + 'blk mining_result option" where
  "mine_prepared_block P block consensus config =
     mine_prepared_block_until P block consensus config (\<lambda>_. False)"

definition mine_candidate_block ::
  "('tx, 'ldg, 'blk, 'hdr, 'acct, 'fc, 'cons, 'prf, 'z) node_api_scheme \<Rightarrow> 'tx mempool \<Rightarrow> 'ldg \<Rightarrow> 'cons \<Rightarrow>
   address \<Rightarrow> mining_config \<Rightarrow> consensus_error + 'blk mining_result option" where
  "mine_candidate_block P mp ledger consensus miner_address config =
     rbind (prepare_candidate_block P mp ledger miner_address (mc_transaction_limit config)
              (mc_min_fee_rate config) (mc_difficulty config))
       (\<lambda>block. mine_prepared_block P block consensus config)"

section \<open>The search\<close>

text \<open>Assigning the nonce field twice keeps the last value.\<close>

definition nonce_laws :: "('tx, 'ldg, 'blk, 'hdr, 'acct, 'fc, 'cons, 'prf, 'z) node_api_scheme \<Rightarrow> bool" where
  "nonce_laws P \<longleftrightarrow>
     (\<forall>a b block. blk_set_nonce P a (blk_set_nonce P b block) = blk_set_nonce P a block)"

definition attempt_block ::
  "('tx, 'ldg, 'blk, 'hdr, 'acct, 'fc, 'cons, 'prf, 'z) node_api_scheme \<Rightarrow> mining_config \<Rightarrow> 'blk \<Rightarrow> nat \<Rightarrow> 'blk" where
  "attempt_block P config block k = blk_set_nonce P (mc_start_nonce config + of_nat k) block"

text \<open>Attempt \<open>k\<close> passes: the difficulty is zero or the hash of the block meets it.\<close>

definition attempt_passes ::
  "('tx, 'ldg, 'blk, 'hdr, 'acct, 'fc, 'cons, 'prf, 'z) node_api_scheme \<Rightarrow> 'cons \<Rightarrow> mining_config \<Rightarrow> 'blk \<Rightarrow> nat \<Rightarrow> bool" where
  "attempt_passes P consensus config block k \<longleftrightarrow>
     mc_difficulty config = 0 \<or>
     (case proof_of_work_hash P consensus (attempt_block P config block k) of
        Inl e \<Rightarrow> False
      | Inr h \<Rightarrow> validate_proof_of_work_hash P consensus h (mc_difficulty config) = Inr ())"

definition attempt_result ::
  "('tx, 'ldg, 'blk, 'hdr, 'acct, 'fc, 'cons, 'prf, 'z) node_api_scheme \<Rightarrow> mining_config \<Rightarrow> 'blk \<Rightarrow> nat \<Rightarrow> 'blk mining_result" where
  "attempt_result P config block k =
     \<lparr>mr_block = attempt_block P config block k, mr_attempts = of_nat (Suc k)\<rparr>"

lemma find_upt: "a < b \<Longrightarrow> find Q [a..<b] = (if Q a then Some a else find Q [Suc a..<b])"
  by (simp add: upt_conv_Cons)

lemma sat_Suc: "(a :: u64) < m \<Longrightarrow> sat_add a 1 = a + 1"
  using u64_less [of m] by (simp add: sat_add_nat word_less_nat_alt)

lemma mine_loop_first:
  assumes laws: "nonce_laws P"
    and hashes: "\<forall>k. \<exists>h. proof_of_work_hash P consensus (attempt_block P config block k) = Inr h"
    and b: "b = block \<or> (\<exists>n. b = blk_set_nonce P n block)"
  shows "mine_loop P consensus config (\<lambda>_. False) m a b =
    (case find (attempt_passes P consensus config block) [unat a..<unat m] of
       None \<Rightarrow> Inr (None, m)
     | Some k \<Rightarrow> Inr (Some (attempt_result P config block k), of_nat (Suc k)))"
  using b
proof (induction "unat m - unat a" arbitrary: a b)
  case 0
  then have "\<not> a < m" by (simp add: word_less_nat_alt)
  with 0 show ?case by (subst mine_loop.simps) (simp add: word_less_nat_alt)
next
  case (Suc d)
  then have less: "a < m" by (simp add: word_less_nat_alt)
  have nonce: "blk_set_nonce P (mc_start_nonce config + a) b = attempt_block P config block (unat a)"
    using Suc.prems laws by (auto simp: attempt_block_def nonce_laws_def)
  obtain h where h: "proof_of_work_hash P consensus (attempt_block P config block (unat a)) = Inr h"
    using hashes by blast
  have next_a: "unat (a + 1) = Suc (unat a)" by (rule unat_Suc_less [OF less])
  have IH: "mine_loop P consensus config (\<lambda>_. False) m (a + 1) (attempt_block P config block (unat a)) =
      (case find (attempt_passes P consensus config block) [Suc (unat a)..<unat m] of
         None \<Rightarrow> Inr (None, m)
       | Some k \<Rightarrow> Inr (Some (attempt_result P config block k), of_nat (Suc k)))"
    unfolding next_a [symmetric]
    by (rule Suc.hyps(1)) (use Suc.hyps(2) next_a in \<open>auto simp: attempt_block_def\<close>)
  have find: "find (attempt_passes P consensus config block) [unat a..<unat m] =
      (if attempt_passes P consensus config block (unat a) then Some (unat a)
       else find (attempt_passes P consensus config block) [Suc (unat a)..<unat m])"
    using less by (intro find_upt) (simp add: word_less_nat_alt)
  have res: "attempt_result P config block (unat a) =
      \<lparr>mr_block = attempt_block P config block (unat a), mr_attempts = a + 1\<rparr>" "of_nat (Suc (unat a)) = a + 1"
    by (simp_all add: attempt_result_def)
  show ?case
    using less h IH
    by (subst mine_loop.simps)
      (cases "validate_proof_of_work_hash P consensus h (mc_difficulty config)";
       simp add: Let_def nonce find res sat_Suc [OF less] attempt_passes_def)
qed

text \<open>C25: The proof-of-work search returns the first nonce of its range that passes, counted from the
  start nonce with wrap-around, together with the number of attempts; it returns nothing exactly
  when no nonce of the range passes. A budget of zero means the largest one.\<close>

theorem mine_prepared_block_first:
  assumes "nonce_laws P"
    and "\<forall>k. \<exists>h. proof_of_work_hash P consensus (attempt_block P config block k) = Inr h"
  shows "mine_prepared_block P block consensus config =
    Inr (map_option (attempt_result P config block)
      (find (attempt_passes P consensus config block)
         [0..<if mc_max_attempts config = 0 then 2 ^ 64 - 1 else unat (mc_max_attempts config)]))"
proof -
  have "unat (- 1 :: u64) = 2 ^ 64 - 1" by (simp add: unsigned_minus_1_eq_mask mask_eq_exp_minus_1)
  then have range: "unat (if mc_max_attempts config = 0 then - 1 else mc_max_attempts config) =
      (if mc_max_attempts config = 0 then 2 ^ 64 - 1 else unat (mc_max_attempts config))"
    by (simp only: if_distrib [of unat])
  show ?thesis
    unfolding mine_prepared_block_def mine_prepared_block_until_def
      mine_prepared_block_until_with_attempts_def
      mine_loop_first [OF assms, of block, OF disjI1, OF refl] range unsigned_0
    by (cases "find (attempt_passes P consensus config block)
        [0..<if mc_max_attempts config = 0 then 2 ^ 64 - 1 else unat (mc_max_attempts config)]") simp_all
qed

end
