(* ===== verification/Cache.thy ===== *)
theory Cache
  imports Sample
begin

text \<open>
  The lookup cache of the node, \<open>node/src/runtime/cache.rs\<close>: accounts by address, blocks by
  height and by hash, and the tip. A cache built from a ledger answers like the ledger's maps.
\<close>

record ('blk, 'acct) core_cache =
  cc_accounts :: "(address, 'acct) btree"
  cc_blocks_by_height :: "(u64, 'blk) btree"
  cc_blocks_by_hash :: "(hash, 'blk) btree"
  cc_tip_height :: "u64 option"
  cc_tip_hash :: "hash option"

definition cache_new :: "('blk, 'acct) core_cache" where
  "cache_new = \<lparr>cc_accounts = [], cc_blocks_by_height = [], cc_blocks_by_hash = [],
     cc_tip_height = None, cc_tip_hash = None\<rparr>"

definition cache_insert_account ::
  "('tx, 'ldg, 'blk, 'hdr, 'acct, 'z) chain_api_scheme \<Rightarrow> 'acct \<Rightarrow> ('blk, 'acct) core_cache \<Rightarrow>
   ('blk, 'acct) core_cache" where
  "cache_insert_account P account c =
     c\<lparr>cc_accounts := bt_insert (acct_address P account) account (cc_accounts c)\<rparr>"

definition cache_account :: "('blk, 'acct) core_cache \<Rightarrow> address \<Rightarrow> 'acct option" where
  "cache_account c a = bt_get (cc_accounts c) a"

definition cache_insert_block ::
  "('tx, 'ldg, 'blk, 'z) block_api_scheme \<Rightarrow> 'blk \<Rightarrow> ('blk, 'acct) core_cache \<Rightarrow>
   ('blk, 'acct) core_cache \<times> (codec_error + unit)" where
  "cache_insert_block P block c =
     (case blk_hash P block of
        Inl e \<Rightarrow> (c, Inl e)
      | Inr h \<Rightarrow>
          (c\<lparr>cc_blocks_by_height := bt_insert (blk_height P block) block (cc_blocks_by_height c),
             cc_blocks_by_hash := bt_insert h block (cc_blocks_by_hash c),
             cc_tip_height := Some (blk_height P block),
             cc_tip_hash := Some h\<rparr>, Inr ()))"

fun cache_insert_blocks ::
  "('tx, 'ldg, 'blk, 'z) block_api_scheme \<Rightarrow> 'blk list \<Rightarrow> ('blk, 'acct) core_cache \<Rightarrow>
   ('blk, 'acct) core_cache \<times> (codec_error + unit)" where
  "cache_insert_blocks P [] c = (c, Inr ())"
| "cache_insert_blocks P (b # bs) c =
     sbind (cache_insert_block P b c) (\<lambda>c' _. cache_insert_blocks P bs c')"

definition cache_from_ledger ::
  "('tx, 'ldg, 'blk, 'hdr, 'acct, 'z) chain_api_scheme \<Rightarrow> 'ldg \<Rightarrow>
   codec_error + ('blk, 'acct) core_cache" where
  "cache_from_ledger P ledger =
     (let c = fold (cache_insert_account P) (map snd (ldg_accounts P ledger)) cache_new
      in case cache_insert_blocks P (map snd (ldg_blocks P ledger)) c of
           (_, Inl e) \<Rightarrow> Inl e
         | (c', Inr _) \<Rightarrow>
             Inr (c'\<lparr>cc_tip_height := tip_height P ledger, cc_tip_hash := ldg_tip_hash P ledger\<rparr>))"

definition cache_block_by_height :: "('blk, 'acct) core_cache \<Rightarrow> u64 \<Rightarrow> 'blk option" where
  "cache_block_by_height c h = bt_get (cc_blocks_by_height c) h"

definition cache_block_by_hash :: "('blk, 'acct) core_cache \<Rightarrow> hash \<Rightarrow> 'blk option" where
  "cache_block_by_hash c h = bt_get (cc_blocks_by_hash c) h"

section \<open>A cache built from a ledger\<close>

definition hash_of :: "('tx, 'ldg, 'blk, 'z) block_api_scheme \<Rightarrow> 'blk \<Rightarrow> hash" where
  "hash_of P b = (case blk_hash P b of Inl _ \<Rightarrow> [] | Inr h \<Rightarrow> h)"

lemma fold_insert_account:
  "fold (cache_insert_account P) as c =
   c\<lparr>cc_accounts := fold (\<lambda>a. bt_insert (acct_address P a) a) as (cc_accounts c)\<rparr>"
  by (induction as arbitrary: c) (simp_all add: cache_insert_account_def)

lemma cache_insert_blocks_Inr:
  assumes "cache_insert_blocks P bs c = (c', Inr ())"
  shows "cc_accounts c' = cc_accounts c \<and>
    cc_blocks_by_height c' = fold (\<lambda>b. bt_insert (blk_height P b) b) bs (cc_blocks_by_height c) \<and>
    cc_blocks_by_hash c' = fold (\<lambda>b. bt_insert (hash_of P b) b) bs (cc_blocks_by_hash c) \<and>
    (\<forall>b \<in> set bs. blk_hash P b = Inr (hash_of P b))"
  using assms
proof (induction bs arbitrary: c)
  case (Cons b bs)
  obtain h where h: "blk_hash P b = Inr h"
    using Cons.prems by (cases "blk_hash P b") (auto simp: cache_insert_block_def)
  with Cons.prems have "cache_insert_blocks P bs (fst (cache_insert_block P b c)) = (c', Inr ())"
    by (simp add: cache_insert_block_def)
  from Cons.IH [OF this] h show ?case by (simp add: cache_insert_block_def hash_of_def)
qed simp

text \<open>C24: A cache built from a ledger answers every account, height and tip query like the ledger
  itself, and finds under a hash exactly a canonical block with that hash.\<close>

theorem cache_from_ledger_agrees:
  assumes "cache_from_ledger P ledger = Inr c"
    and "bt_wf (ldg_accounts P ledger)" "\<forall>e \<in> set (ldg_accounts P ledger). acct_address P (snd e) = fst e"
    and "bt_wf (ldg_blocks P ledger)" "\<forall>e \<in> set (ldg_blocks P ledger). blk_height P (snd e) = fst e"
  shows "(\<forall>a. cache_account c a = bt_get (ldg_accounts P ledger) a) \<and>
    (\<forall>h. cache_block_by_height c h = bt_get (ldg_blocks P ledger) h) \<and>
    (\<forall>h b. cache_block_by_hash c h = Some b \<longrightarrow>
       blk_hash P b = Inr h \<and> b \<in> snd ` set (ldg_blocks P ledger)) \<and>
    (\<forall>b \<in> snd ` set (ldg_blocks P ledger).
       \<exists>h. blk_hash P b = Inr h \<and> cache_block_by_hash c h \<noteq> None) \<and>
    cc_tip_height c = tip_height P ledger \<and> cc_tip_hash c = ldg_tip_hash P ledger"
proof -
  let ?bs = "map snd (ldg_blocks P ledger)"
  obtain c' where c': "cache_insert_blocks P ?bs
      (fold (cache_insert_account P) (map snd (ldg_accounts P ledger)) cache_new) = (c', Inr ())"
    and c: "c = c'\<lparr>cc_tip_height := tip_height P ledger, cc_tip_hash := ldg_tip_hash P ledger\<rparr>"
    using assms(1) by (auto simp: cache_from_ledger_def Let_def split: prod.splits sum.splits)
  note blocks = cache_insert_blocks_Inr [OF c', unfolded fold_insert_account]
  have dist: "distinct (map fst (ldg_accounts P ledger))" "distinct (map fst (ldg_blocks P ledger))"
    using bt.distinct_keys assms(2,4) by auto
  have accounts: "cache_account c a = bt_get (ldg_accounts P ledger) a" for a
    using blocks find_keyed [OF assms(3) dist(1), of a]
    by (simp add: c cache_account_def cache_new_def bt_get_fold_find bt_get_map_of [symmetric] split: option.splits)
  have heights: "cache_block_by_height c h = bt_get (ldg_blocks P ledger) h" for h
    using blocks find_keyed [OF assms(5) dist(2), of h]
    by (simp add: c cache_block_by_height_def cache_new_def bt_get_fold_find bt_get_map_of [symmetric] split: option.splits)
  have by_hash: "cache_block_by_hash c h = find (\<lambda>b. hash_of P b = h) (rev ?bs)" for h
    using blocks
    by (simp add: c cache_block_by_hash_def cache_new_def bt_get_fold_find split: option.splits)
  have hashes: "\<forall>b \<in> set ?bs. blk_hash P b = Inr (hash_of P b)"
    using blocks by blast
  have sound: "blk_hash P b = Inr h \<and> b \<in> snd ` set (ldg_blocks P ledger)"
    if "cache_block_by_hash c h = Some b" for h b
    using find_SomeD that hashes by (fastforce simp: by_hash)
  have complete: "\<exists>h. blk_hash P b = Inr h \<and> cache_block_by_hash c h \<noteq> None"
    if "b \<in> snd ` set (ldg_blocks P ledger)" for b
    using that hashes by (auto simp: by_hash find_None_iff)
  show ?thesis using accounts heights sound complete by (simp add: c)
qed

theorem cache_from_ledger_agrees_witness:
  "\<exists>c. cache_from_ledger sample_api (SLdg [4] [SBlk 7 0 0 []]) = Inr c \<and>
     cache_account c [4] = Some (SAcct 4 1) \<and> cache_block_by_height c 0 = Some (SBlk 7 0 0 [])"
proof -
  let ?l = "SLdg [4] [SBlk 7 0 0 []]"
  obtain c where c: "cache_from_ledger sample_api ?l = Inr c"
  proof (cases "cache_from_ledger sample_api ?l")
    case (Inl e)
    moreover have "\<not> isl (cache_from_ledger sample_api ?l)" by code_simp
    ultimately show ?thesis by simp
  qed
  have maps: "ldg_accounts sample_api ?l = [([4], SAcct 4 1)]"
    "ldg_blocks sample_api ?l = [(0, SBlk 7 0 0 [])]"
    by code_simp+
  then have "bt_wf (ldg_accounts sample_api ?l)" "bt_wf (ldg_blocks sample_api ?l)"
    by (simp_all add: bt_wf_def)
  moreover have "\<forall>e \<in> set (ldg_accounts sample_api ?l). acct_address sample_api (snd e) = fst e"
    "\<forall>e \<in> set (ldg_blocks sample_api ?l). blk_height sample_api (snd e) = fst e"
    unfolding maps by (simp_all add: sample_api_def)
  ultimately show ?thesis
    using cache_from_ledger_agrees [OF c] c maps by (simp add: bt_get_def)
qed

end
