(* ===== verification/Node.thy ===== *)
theory Node
  imports Orphans Miner Compact Cache Storage
begin

text \<open>
  The full node, \<open>node/src/runtime/node/node.rs\<close>: ledger, mempool, store, cache and fork graph,
  and how a block moves through them. \<open>P\<close> is the interface of the protocol crate and \<open>S\<close> that
  of the store. A method on \<open>&mut self\<close> returns the node it leaves beside its result, also when
  it fails. \<open>now\<close> is the clock reading of the call.
\<close>

section \<open>State\<close>

record pending_balance =
  pb_incoming :: u64
  pb_outgoing :: u64

definition pending_balance_default :: pending_balance where
  "pending_balance_default = \<lparr>pb_incoming = 0, pb_outgoing = 0\<rparr>"

record balance_summary =
  bs_confirmed :: u64
  bs_available :: u64
  bs_pending :: pending_balance

record account_view =
  av_balance :: u64
  av_unspendable :: u64
  av_statement :: hash

record draft_basis =
  db_signer :: address
  db_live_balance :: u64
  db_available_balance :: u64
  db_spendable_after_pending :: u64
  db_latest_statement :: hash
  db_tip_height :: u64
  db_finalized_height :: u64
  db_pending_incoming :: u64
  db_pending_outgoing :: u64
  db_pending_outgoing_hashes :: "hash list"
  db_recommended_fee_rate_per_byte :: u64
  db_min_relay_fee_rate_per_byte :: u64
  db_market_fee_rate_per_byte :: u64

record ('tx, 'ldg, 'blk, 'hdr, 'acct, 'fc, 'cons, 'env, 'gen, 'cb) node = "'blk orphan_state" +
  nd_ledger :: 'ldg
  nd_mempool :: "'tx mempool"
  nd_storage :: 'env
  nd_consensus :: 'cons
  nd_cache :: "('blk, 'acct) core_cache"
  nd_fork_choice :: 'fc
  nd_genesis_accounts :: "(address, 'acct) btree"
  nd_pending_compact_blocks :: "(hash, ('hdr, 'gen, 'cb) compact_block) btree"
  nd_snapshot_cache :: "(hash \<times> bytes) option"
  nd_block_validation_failures_total :: u64
  nd_reorgs_total :: u64

definition MAX_PENDING_COMPACT_BLOCKS :: nat where "MAX_PENDING_COMPACT_BLOCKS = 64"

text \<open>Calling a component that changes its own state, with its error as a \<open>NodeError\<close>.\<close>

definition on_storage where
  "on_storage f n =
     (case f (nd_storage n) of (env, r) \<Rightarrow> (n\<lparr>nd_storage := env\<rparr>, map_err NodeStorage r))"

definition on_mempool where
  "on_mempool f n =
     (case f (nd_mempool n) of (mp, r) \<Rightarrow> (n\<lparr>nd_mempool := mp\<rparr>, map_err NodeMempool r))"

definition on_fork where
  "on_fork f n =
     (case f (nd_fork_choice n) of (fc, r) \<Rightarrow> (n\<lparr>nd_fork_choice := fc\<rparr>, map_err NodeForkChoice r))"

definition on_cache where
  "on_cache f n =
     (case f (nd_cache n) of (c, r) \<Rightarrow> (n\<lparr>nd_cache := c\<rparr>, map_err NodeCodec r))"

section \<open>Views\<close>

definition node_tip_height where "node_tip_height P n = tip_height P (nd_ledger n)"

definition node_tip_hash where "node_tip_hash P n = ldg_tip_hash P (nd_ledger n)"

definition tip_work where
  "tip_work P n =
     (case ldg_tip_hash P (nd_ledger n) of
        None \<Rightarrow> None
      | Some h \<Rightarrow> map_option fn_cumulative_work (fc_get P (nd_fork_choice n) h))"

definition balance where "balance P n a = ldg_balance P (nd_ledger n) a"

definition confirmed_balance where "confirmed_balance P n a = ldg_confirmed_balance P (nd_ledger n) a"

definition available_balance_with_depth where
  "available_balance_with_depth P n a (depth :: u64) =
     (case tip_height P (nd_ledger n) of
        None \<Rightarrow> None
      | Some tip \<Rightarrow>
          map_option (\<lambda>account. acct_available_balance_at P account tip) (ldg_account P (nd_ledger n) a))"

definition available_balance where
  "available_balance P n a = available_balance_with_depth P n a (confirmation_depth P)"

definition pending_incoming_outputs where
  "pending_incoming_outputs P a outputs pending =
     fold (\<lambda>out pending.
       if target_address P (out_to out) = Some a
       then pending\<lparr>pb_incoming := sat_add (pb_incoming pending) (out_amount out)\<rparr> else pending)
       outputs pending"

definition add_pending where
  "add_pending P a t pending =
     (case tx_view P t of
        BatchTransfer from outputs _ \<Rightarrow>
          (let pending = pending_incoming_outputs P a outputs pending in
           if from = a
           then pending\<lparr>pb_outgoing := sat_add (pb_outgoing pending)
                  (case tx_total_amount P t of None \<Rightarrow> - 1 | Some amount \<Rightarrow> amount)\<rparr>
           else pending)
      | QCash signer kind _ \<Rightarrow>
          (if signer = a
           then (case kind of
                   Withdraw amount \<Rightarrow> pending\<lparr>pb_outgoing := sat_add (pb_outgoing pending) amount\<rparr>
                 | _ \<Rightarrow> pending)
           else pending))"

definition pending_balance_of where
  "pending_balance_of P n a =
     fold (add_pending P a) (mp_values (nd_mempool n)) pending_balance_default"

definition draft_basis_of where
  "draft_basis_of P n a =
     (case ldg_account P (nd_ledger n) a of
        None \<Rightarrow> None
      | Some account \<Rightarrow>
     (case tip_height P (nd_ledger n) of
        None \<Rightarrow> None
      | Some tip \<Rightarrow>
          let available = acct_available_balance_at P account tip;
              pending = pending_balance_of P n a
          in Some \<lparr>db_signer = a,
                db_live_balance = acct_balance P account,
                db_available_balance = available,
                db_spendable_after_pending = sat_sub available (pb_outgoing pending),
                db_latest_statement = acct_statement P account,
                db_tip_height = tip,
                db_finalized_height = sat_sub tip (finality_depth P),
                db_pending_incoming = pb_incoming pending,
                db_pending_outgoing = pb_outgoing pending,
                db_pending_outgoing_hashes =
                  List.map_filter (\<lambda>t. res_ok (tx_hash P t))
                    (filter (\<lambda>t. tx_signer P t = a) (mp_values (nd_mempool n))),
                db_recommended_fee_rate_per_byte = dynamic_market_fee_rate P (nd_mempool n),
                db_min_relay_fee_rate_per_byte = min_relay_fee (mp_config (nd_mempool n)),
                db_market_fee_rate_per_byte = market_fee (mp_config (nd_mempool n))\<rparr>))"

definition balance_summary_of where
  "balance_summary_of P n a =
     (case confirmed_balance P n a of
        None \<Rightarrow> None
      | Some confirmed \<Rightarrow>
          (case available_balance P n a of
             None \<Rightarrow> None
           | Some available \<Rightarrow>
               Some \<lparr>bs_confirmed = confirmed, bs_available = available,
                     bs_pending = pending_balance_of P n a\<rparr>))"

definition account_view_of where
  "account_view_of P n a =
     (case ldg_account P (nd_ledger n) a of
        None \<Rightarrow> None
      | Some account \<Rightarrow>
          map_option (\<lambda>tip. \<lparr>av_balance = acct_available_balance_at P account tip,
              av_unspendable = acct_immature_balance_at P account tip,
              av_statement = acct_statement P account\<rparr>) (tip_height P (nd_ledger n)))"

section \<open>Compact blocks and snapshots\<close>

definition stage_compact_block where
  "stage_compact_block h compact n =
     (let pending = nd_pending_compact_blocks n;
          pending = (if MAX_PENDING_COMPACT_BLOCKS \<le> length pending
                     then (case pending of [] \<Rightarrow> pending | (oldest, _) # _ \<Rightarrow> bt_remove oldest pending)
                     else pending)
      in n\<lparr>nd_pending_compact_blocks := bt_insert h compact pending\<rparr>)"

definition take_compact_block where
  "take_compact_block h n =
     (n\<lparr>nd_pending_compact_blocks := bt_remove h (nd_pending_compact_blocks n)\<rparr>,
      bt_get (nd_pending_compact_blocks n) h)"

definition snapshot_bytes where
  "snapshot_bytes P n =
     (case node_tip_hash P n of
        None \<Rightarrow> (n, Inl MissingActiveTip)
      | Some tip \<Rightarrow>
          sbind (if (case nd_snapshot_cache n of None \<Rightarrow> True | Some (cached_tip, _) \<Rightarrow> cached_tip \<noteq> tip)
                 then (case snapshot_paqus_bytes P (nd_ledger n) of
                         Inl e \<Rightarrow> (n, Inl e)
                       | Inr bs \<Rightarrow> (n\<lparr>nd_snapshot_cache := Some (tip, bs)\<rparr>, Inr ()))
                 else (n, Inr ()))
            (\<lambda>n _. (n, rbind (ok_or MissingActiveTip (nd_snapshot_cache n)) (\<lambda>cached. Inr (snd cached)))))"

section \<open>Transactions\<close>

definition submit_protocol_transaction where
  "submit_protocol_transaction P now t n = on_mempool (insert_validated P now (nd_ledger n) t) n"

definition submit_transaction where
  "submit_transaction P now t n = on_mempool (insert_validated P now (nd_ledger n) t) n"

definition submit_qcash_transaction where
  "submit_qcash_transaction P now t n = submit_protocol_transaction P now t n"

section \<open>The fork graph\<close>

definition headers_to_tip where
  "headers_to_tip P n tip =
     map_res (\<lambda>h. ok_or MissingForkNode
         (map_option (\<lambda>fork_node. blk_header P (fn_block fork_node)) (fc_get P (nd_fork_choice n) h)))
       (rev (fc_ancestor_hashes P (nd_fork_choice n) tip))"

definition common_ancestor where
  "common_ancestor P n old_tip new_tip =
     (case old_tip of
        None \<Rightarrow> None
      | Some old_tip \<Rightarrow>
          find (\<lambda>h. h \<in> set (fc_ancestor_hashes P (nd_fork_choice n) old_tip))
            (fc_ancestor_hashes P (nd_fork_choice n) new_tip))"

fun apply_branch where
  "apply_branch S [] ledger = Inr ledger"
| "apply_branch S (block # blocks) ledger =
     (case ledger_apply_block S ledger block of
        (_, Inl e) \<Rightarrow> Inl (NodeLedger e)
      | (ledger', Inr _) \<Rightarrow> apply_branch S blocks ledger')"

definition ledger_for_branch_tip where
  "ledger_for_branch_tip P S n tip =
     (let ancestors = fc_ancestor_hashes P (nd_fork_choice n) tip;
          genesis_hash = (if ancestors = [] then tip else last ancestors)
      in rbind (ok_or MissingForkNode (fc_get P (nd_fork_choice n) genesis_hash)) (\<lambda>genesis.
         rbind (map_err NodeLedger (ledger_from_accounts P (nd_genesis_accounts n))) (\<lambda>ledger.
           case ldg_chain_insert_block S ledger (fn_block genesis) of
             (_, Inl e) \<Rightarrow> Inl (NodeLedger e)
           | (ledger, Inr _) \<Rightarrow>
               rbind (ok_or MissingForkBranch
                        (fc_branch_from_ancestor P (nd_fork_choice n) genesis_hash tip)) (\<lambda>branch.
                 apply_branch S branch ledger))))"

definition prune_finalized_forks where
  "prune_finalized_forks P n =
     (case tip_height P (nd_ledger n) of
        None \<Rightarrow> (n, Inr 0)
      | Some tip \<Rightarrow>
          (case ldg_block P (nd_ledger n) (sat_sub tip (finality_depth P)) of
             None \<Rightarrow> (n, Inr 0)
           | Some finalized_block \<Rightarrow>
               (case blk_hash P finalized_block of
                  Inl e \<Rightarrow> (n, Inl (NodeCodec e))
                | Inr h \<Rightarrow> on_fork (fc_prune_finalized P h) n)))"

section \<open>Rollback issues\<close>

definition shared_count where
  "shared_count xs ys = length (takeWhile (\<lambda>(left, right). left = right) (zip xs ys))"

definition rollback_proof_bundle where
  "rollback_proof_bundle P S n issue =
     rbind (map_err NodeStorage (load_rollback_proof_context P S (ri_proof_context_id issue) (nd_storage n)))
       (\<lambda>found.
     rbind (ok_or MissingRollbackProofContext found) (\<lambda>context.
     rbind (case ldg_tip_hash P (nd_ledger n) of
              None \<Rightarrow> Inr (rpc_canonical_headers context)
            | Some tip \<Rightarrow> headers_to_tip P n tip) (\<lambda>current_canonical_headers.
       let losing = rpc_losing_headers context;
           shared = shared_count losing current_canonical_headers;
           canonical_headers =
             (if 0 < shared \<and> shared < length losing \<and> shared < length current_canonical_headers
              then current_canonical_headers else rpc_canonical_headers context);
           shared = shared_count losing canonical_headers
       in if shared = 0 then Inl RollbackProofContextMismatch
          else rbind (map_err NodeCodec (hdr_hash P (canonical_headers ! (shared - 1)))) (\<lambda>ancestor.
            rbind (ok_or MissingDisconnectedBlock
                     (find (\<lambda>header. hdr_hash P header = Inr (ri_disconnected_block_hash issue)) losing))
              (\<lambda>disconnected_block_header.
                Inr \<lparr>rb_version = rollback_proof_version P,
                     rb_transaction = ri_transaction issue,
                     rb_disconnected_block_header = disconnected_block_header,
                     rb_transaction_proof = ri_transaction_proof issue,
                     rb_losing_headers = losing,
                     rb_canonical_headers = canonical_headers,
                     rb_common_ancestor = ancestor\<rparr>)))))"

definition rollback_issue_of where
  "rollback_issue_of P S n i = map_err NodeStorage (load_rollback_issue P S i (nd_storage n))"

definition rollback_issues_for_account where
  "rollback_issues_for_account P S n a =
     rbind (map_err NodeStorage (load_rollback_issues P S (nd_storage n)))
       (\<lambda>issues. Inr (filter (\<lambda>issue. a \<in> set (ri_affected_accounts issue)) issues))"

text \<open>The two nested loops of \<open>canonical_transaction_location\<close>.\<close>

fun block_has_transaction where
  "block_has_transaction P transaction_hash [] = Inr False"
| "block_has_transaction P transaction_hash (t # ts) =
     rbind (map_err NodeCodec (tx_hash P t)) (\<lambda>h.
       if h = transaction_hash then Inr True else block_has_transaction P transaction_hash ts)"

fun find_transaction_block where
  "find_transaction_block P transaction_hash [] = Inr None"
| "find_transaction_block P transaction_hash (block # blocks) =
     rbind (block_has_transaction P transaction_hash (blk_transactions P block)) (\<lambda>found.
       if found
       then rbind (map_err NodeCodec (blk_hash P block)) (\<lambda>h. Inr (Some (blk_height P block, h)))
       else find_transaction_block P transaction_hash blocks)"

definition canonical_transaction_location where
  "canonical_transaction_location P n transaction_hash =
     find_transaction_block P transaction_hash (map snd (ldg_blocks P (nd_ledger n)))"

definition verify_rollback_issue where
  "verify_rollback_issue P S n issue =
     rbind (rollback_proof_bundle P S n issue) (\<lambda>bundle.
     rbind (map_err NodeRollbackProof (verify_bundle P bundle)) (\<lambda>verified.
       if vr_transaction_hash verified \<noteq> ri_transaction_hash issue \<or>
          rb_transaction bundle \<noteq> ri_transaction issue \<or>
          vr_disconnected_block_hash verified \<noteq> ri_disconnected_block_hash issue
       then Inl RollbackIssueMismatch else Inr ()))"

definition retry_rollback_issue_record where
  "retry_rollback_issue_record P S now issue verify_proof n =
     sbind (n, if verify_proof then verify_rollback_issue P S n issue else Inr ()) (\<lambda>n _.
       let issue = issue\<lparr>ri_retry_attempts := sat_add (ri_retry_attempts issue) 1\<rparr> in
     sbind (n, canonical_transaction_location P n (ri_transaction_hash issue)) (\<lambda>n location.
       case location of
         Some (block_height, block_hash) \<Rightarrow>
           let issue = issue\<lparr>ri_status := Reconfirmed block_height block_hash, ri_last_error := None\<rparr>
           in sbind (on_storage (save_rollback_issue P S issue) n) (\<lambda>n _. (n, Inr issue))
       | None \<Rightarrow>
           (case submit_protocol_transaction P now (ri_transaction issue) n of
              (n, r) \<Rightarrow>
                let issue =
                  (case r of
                     Inr _ \<Rightarrow> issue\<lparr>ri_status := Requeued, ri_last_error := None\<rparr>
                   | Inl error \<Rightarrow>
                       if error = NodeMempool DuplicateTransaction
                       then issue\<lparr>ri_status := Requeued, ri_last_error := None\<rparr>
                       else issue\<lparr>ri_status := Conflict,
                                  ri_last_error := Some (node_error_fmt (error_fmt_api P) error)\<rparr>)
                in sbind (on_storage (save_rollback_issue P S issue) n) (\<lambda>n _. (n, Inr issue)))))"

definition retry_rollback_issue where
  "retry_rollback_issue P S now i n =
     (case load_rollback_issue P S i (nd_storage n) of
        Inl e \<Rightarrow> (n, Inl (NodeStorage e))
      | Inr None \<Rightarrow> (n, Inr None)
      | Inr (Some issue) \<Rightarrow>
          if is_reconfirmed issue then (n, Inr (Some issue))
          else sbind (retry_rollback_issue_record P S now issue True n) (\<lambda>n issue. (n, Inr (Some issue))))"

definition reconfirm_issue where
  "reconfirm_issue P S block block_hash issue n =
     on_storage (save_rollback_issue P S
       (issue\<lparr>ri_status := Reconfirmed (blk_height P block) block_hash, ri_last_error := None\<rparr>)) n"

definition reconfirm_transaction where
  "reconfirm_transaction P S block block_hash t n =
     (case tx_hash P t of
        Inl e \<Rightarrow> (n, Inl (NodeCodec e))
      | Inr transaction_hash \<Rightarrow>
          (case load_rollback_issues P S (nd_storage n) of
             Inl e \<Rightarrow> (n, Inl (NodeStorage e))
           | Inr issues \<Rightarrow>
               for_each (reconfirm_issue P S block block_hash)
                 (filter (\<lambda>issue. ri_transaction_hash issue = transaction_hash \<and> \<not> is_reconfirmed issue)
                    issues) n))"

definition mark_rollback_issues_reconfirmed where
  "mark_rollback_issues_reconfirmed P S block n =
     (case blk_hash P block of
        Inl e \<Rightarrow> (n, Inl (NodeCodec e))
      | Inr block_hash \<Rightarrow> for_each (reconfirm_transaction P S block block_hash) (blk_transactions P block) n)"

section \<open>Reorganisation\<close>

text \<open>The body of the inner loop of \<open>reorg_to_best_tip\<close>, for one disconnected transaction.\<close>

definition record_rollback where
  "record_rollback P S now context_id old_block old_block_hash entry n =
     (case entry of (index, t) \<Rightarrow>
        if 2 ^ 32 \<le> int index then (n, Inl TransactionIndexOverflow)
        else sbind (n, blk_inclusion_proof P old_block (of_nat index)) (\<lambda>n proof.
          sbind (n, map_err NodeCodec (rollback_issue_new P (prf_leaf_index P) (blk_height P old_block)
                      old_block_hash (of_nat index) t context_id proof now)) (\<lambda>n issue.
          sbind (n, map_err NodeStorage (load_rollback_issue P S (ri_id issue) (nd_storage n))) (\<lambda>n found.
          sbind (case found of
                   Some existing \<Rightarrow> (n, Inr existing)
                 | None \<Rightarrow> sbind (on_storage (save_rollback_issue P S issue) n) (\<lambda>n _. (n, Inr issue)))
            (\<lambda>n issue.
          sbind (retry_rollback_issue_record P S now issue False n) (\<lambda>n _. (n, Inr ())))))))"

definition rollback_block where
  "rollback_block P S now context_id winning_hashes old_block n =
     (case blk_hash P old_block of
        Inl e \<Rightarrow> (n, Inl (NodeCodec e))
      | Inr old_block_hash \<Rightarrow>
          if old_block_hash \<in> set winning_hashes then (n, Inr ())
          else for_each (record_rollback P S now context_id old_block old_block_hash)
                 (enumerate 0 (blk_transactions P old_block)) n)"

definition reorg_to_best_tip where
  "reorg_to_best_tip P S now n =
     (let old_blocks = map snd (ldg_blocks P (nd_ledger n));
          old_tip_hash = ldg_tip_hash P (nd_ledger n)
      in sbind (n, ok_or MissingBestTip (map_option fn_hash (fc_best_tip P (nd_fork_choice n)))) (\<lambda>n best_tip.
         sbind (n, ok_or MissingCommonAncestor (common_ancestor P n old_tip_hash best_tip)) (\<lambda>n ancestor.
           if reorg_crosses_finality_boundary P (nd_ledger n) (nd_fork_choice n) ancestor
           then (n, Inl (NodeLedger LedgerFinalityViolation))
           else
         sbind (n, ok_or MissingForkBranch
                     (fc_branch_from_ancestor P (nd_fork_choice n) ancestor best_tip)) (\<lambda>n _.
         sbind (n, rbind (ok_or MissingActiveTip old_tip_hash) (headers_to_tip P n)) (\<lambda>n losing_headers.
         sbind (n, headers_to_tip P n best_tip) (\<lambda>n canonical_headers.
         sbind (n, map_err NodeCodec (rollback_context_new P losing_headers canonical_headers ancestor))
           (\<lambda>n proof_context.
         sbind (on_storage (save_rollback_proof_context P S proof_context) n) (\<lambda>n _.
         sbind (n, ledger_for_branch_tip P S n best_tip) (\<lambda>n ledger.
           let n = n\<lparr>nd_ledger := ledger, nd_snapshot_cache := None\<rparr> in
         sbind (n, map_err NodeCodec (cache_from_ledger P ledger)) (\<lambda>n cache.
           let n = n\<lparr>nd_cache := cache\<rparr> in
         sbind (on_storage (save_ledger P S ledger) n) (\<lambda>n _.
         sbind (for_each (rollback_block P S now (rpc_id proof_context)
                   (fc_ancestor_hashes P (nd_fork_choice n) best_tip)) old_blocks n) (\<lambda>n _.
           let n = n\<lparr>nd_reorgs_total := sat_add (nd_reorgs_total n) 1\<rparr> in
         sbind (prune_finalized_forks P n) (\<lambda>n _. (n, Inr ()))))))))))))))"

section \<open>Validation\<close>

definition extends_active_tip where
  "extends_active_tip P ledger block \<longleftrightarrow>
     (case ldg_tip_hash P ledger of
        Some tip_hash \<Rightarrow> blk_previous_hash P block = tip_hash
      | None \<Rightarrow> blk_height P block = 0)"

definition ensure_expected_genesis_hash where
  "ensure_expected_genesis_hash P genesis =
     rbind (map_err NodeCodec (blk_hash P genesis)) (\<lambda>found.
       if found \<noteq> genesis_hash P
       then Inl (NodeGenesis (GenesisHashMismatch (genesis_hash P) found))
       else Inr ())"

definition ensure_expected_genesis where
  "ensure_expected_genesis P ledger =
     (case ldg_block P ledger 0 of
        None \<Rightarrow> Inl MissingGenesisState
      | Some genesis \<Rightarrow> ensure_expected_genesis_hash P genesis)"

definition check_branch_checkpoint where
  "check_branch_checkpoint P n block checkpoint_height =
     (if blk_height P block \<le> checkpoint_height then Inl MissingCommonAncestor
      else rbind (ok_or MissingCommonAncestor
                    (fc_ancestor_hash_at_height P (nd_fork_choice n) (blk_previous_hash P block)
                       checkpoint_height)) (\<lambda>branch_checkpoint.
           rbind (ok_or MissingCommonAncestor (ldg_header P (nd_ledger n) checkpoint_height)) (\<lambda>header.
           rbind (map_err NodeCodec (hdr_hash P header)) (\<lambda>canonical_checkpoint.
             if branch_checkpoint \<noteq> canonical_checkpoint then Inl MissingCommonAncestor else Inr ()))))"

definition validate_block_for_known_parent where
  "validate_block_for_known_parent P n block =
     rbind (case ldg_checkpoint_height P (nd_ledger n) of
              None \<Rightarrow> Inr ()
            | Some checkpoint_height \<Rightarrow> check_branch_checkpoint P n block checkpoint_height) (\<lambda>_.
       if blk_height P block = 0
       then rbind (map_err NodeConsensus (validate_genesis_block P (nd_consensus n) block)) (\<lambda>_.
              ensure_expected_genesis_hash P block)
       else rbind (ok_or (NodeForkChoice ForkMissingParent)
                     (fc_get P (nd_fork_choice n) (blk_previous_hash P block))) (\<lambda>parent.
              map_err NodeConsensus
                (validate_next_block_with_tip P (nd_consensus n) block (fn_block parent))))"

definition validate_canonical_state_root where
  "validate_canonical_state_root P ledger block =
     rbind (map_err NodeLedger (state_root_after_block P ledger block)) (\<lambda>expected_state_root.
       if blk_state_root P block \<noteq> expected_state_root then Inl (NodeLedger LedgerInvalidStateRoot)
       else if \<not> blk_is_genesis P block \<and> blk_state_root P block = replicate (hash_size P) 0
       then Inl (NodeLedger LedgerInvalidStateRoot)
       else Inr ())"

definition validate_block_state_for_known_parent where
  "validate_block_state_for_known_parent P S n block =
     (if extends_active_tip P (nd_ledger n) block
      then rbind (validate_canonical_state_root P (nd_ledger n) block) (\<lambda>_.
           rbind (map_err NodeLedger (execute_block P (nd_ledger n) block)) (\<lambda>executed.
             Inr (Some (fst executed))))
      else rbind (ledger_for_branch_tip P S n (blk_previous_hash P block)) (\<lambda>ledger.
           rbind (validate_canonical_state_root P ledger block) (\<lambda>_. Inr None)))"

section \<open>Applying a block\<close>

text \<open>The accounts a connected block refreshes in the cache: senders, receivers and the miner.\<close>

definition refresh_account where
  "refresh_account P ledger a c =
     (case ldg_account P ledger a of None \<Rightarrow> c | Some account \<Rightarrow> cache_insert_account P account c)"

definition refresh_transaction_accounts where
  "refresh_transaction_accounts P ledger t c =
     (case tx_view P t of
        BatchTransfer from outputs _ \<Rightarrow>
          fold (\<lambda>out c. case target_address P (out_to out) of
                           None \<Rightarrow> c | Some a \<Rightarrow> refresh_account P ledger a c)
            outputs (refresh_account P ledger from c)
      | QCash _ _ _ \<Rightarrow> c)"

definition refresh_cached_accounts where
  "refresh_cached_accounts P ledger block c =
     refresh_account P ledger (blk_miner_address P block)
       (fold (refresh_transaction_accounts P ledger) (blk_transactions P block) c)"

text \<open>The block extends the active tip: the staged ledger becomes the node's.\<close>

definition connect_to_tip where
  "connect_to_tip P S block active_staged n =
     sbind (n, ok_or MissingStagedLedger active_staged) (\<lambda>n ledger.
       let n = n\<lparr>nd_ledger := ledger, nd_snapshot_cache := None\<rparr> in
     sbind (if blk_is_genesis P block
            then on_storage (save_genesis_accounts S (ldg_accounts P ledger))
                   (n\<lparr>nd_genesis_accounts := ldg_accounts P ledger\<rparr>)
            else (n, Inr ())) (\<lambda>n _.
     sbind (on_mempool (remove_confirmed P block) n) (\<lambda>n _.
     sbind (mark_rollback_issues_reconfirmed P S block n) (\<lambda>n _.
     sbind (on_cache (cache_insert_block P block) n) (\<lambda>n _.
       let n = n\<lparr>nd_cache := refresh_cached_accounts P (nd_ledger n) block (nd_cache n)\<rparr> in
     sbind (on_storage (save_ledger P S (nd_ledger n)) n) (\<lambda>n _.
     sbind (prune_finalized_forks P n) (\<lambda>n _. (n, Inr ()))))))))"

definition apply_known_parent_block where
  "apply_known_parent_block P S now block n =
     sbind (n, validate_block_for_known_parent P n block) (\<lambda>n _.
     sbind (n, validate_block_state_for_known_parent P S n block) (\<lambda>n active_staged.
     sbind (on_fork (fc_insert_block P block) n) (\<lambda>n block_hash.
       if map_option fn_hash (fc_best_tip P (nd_fork_choice n)) \<noteq> Some block_hash
       then on_storage (save_side_block P S block) n
       else if \<not> extends_active_tip P (nd_ledger n) block then reorg_to_best_tip P S now n
       else connect_to_tip P S block active_staged n)))"

definition node_known where "node_known P n = fc_contains P (nd_fork_choice n)"

section \<open>What a block on its way may change\<close>

text \<open>
  An invariant \<open>I\<close> of the node survives \<open>apply_known_parent_block b\<close> when it survives the steps
  that method is made of: a write to the store or the cache, a replaced ledger with the snapshot
  dropped, an admission or a confirmation in the mempool, the insertion of \<open>b\<close> into the fork
  graph and its pruning. The walk through the method is done once, here.
\<close>

locale node_frame =
  fixes P :: "('tx, 'ldg, 'blk, 'hdr, 'acct, 'fc, 'cons, 'prf, 'z) node_api_scheme"
    and b :: 'blk
    and I :: "('tx, 'ldg, 'blk, 'chdr, 'acct, 'fc, 'cons, 'env, 'gen, 'cb, 'y) node_scheme \<Rightarrow> bool"
  assumes I_storage: "I n \<Longrightarrow> I (n\<lparr>nd_storage := e\<rparr>)"
    and I_cache: "I n \<Longrightarrow> I (n\<lparr>nd_cache := c\<rparr>)"
    and I_genesis: "I n \<Longrightarrow> I (n\<lparr>nd_genesis_accounts := g\<rparr>)"
    and I_reorgs: "I n \<Longrightarrow> I (n\<lparr>nd_reorgs_total := k\<rparr>)"
    and I_ledger: "I n \<Longrightarrow> I (n\<lparr>nd_ledger := l, nd_snapshot_cache := None\<rparr>)"
    and I_admit: "I n \<Longrightarrow> I (n\<lparr>nd_mempool := fst (insert_validated P now (nd_ledger n) t (nd_mempool n))\<rparr>)"
    and I_confirm: "I n \<Longrightarrow> I (n\<lparr>nd_mempool := fst (remove_confirmed P b (nd_mempool n))\<rparr>)"
    and I_insert: "I n \<Longrightarrow> I (n\<lparr>nd_fork_choice := fst (fc_insert_block P b (nd_fork_choice n))\<rparr>)"
    and I_prune: "I n \<Longrightarrow> I (n\<lparr>nd_fork_choice := fst (fc_prune_finalized P h (nd_fork_choice n))\<rparr>)"
begin

lemma frame_sbind: "I (fst m) \<Longrightarrow> (\<And>n x. I n \<Longrightarrow> I (fst (f n x))) \<Longrightarrow> I (fst (sbind m f))"
  by (rule sbind_invariant)

lemma frame_for_each: "(\<And>x n. I n \<Longrightarrow> I (fst (f x n))) \<Longrightarrow> I n \<Longrightarrow> I (fst (for_each f xs n))"
  by (induction xs arbitrary: n) (auto intro!: frame_sbind)

lemma frame_on:
  "I n \<Longrightarrow> I (fst (on_storage f n))" "I n \<Longrightarrow> I (fst (on_cache k n))"
  "I n \<Longrightarrow> I (fst (on_mempool (remove_confirmed P b) n))"
  "I n \<Longrightarrow> I (fst (on_fork (fc_insert_block P b) n))"
  by (simp_all add: on_storage_def on_mempool_def on_fork_def on_cache_def case_prod_beta
      I_storage I_cache I_confirm I_insert)

lemma frame_submit: "I n \<Longrightarrow> I (fst (submit_protocol_transaction P now t n))"
  by (simp add: submit_protocol_transaction_def on_mempool_def case_prod_beta I_admit)

lemma frame_prune: "I n \<Longrightarrow> I (fst (prune_finalized_forks P n))"
  by (simp add: prune_finalized_forks_def on_fork_def case_prod_beta I_prune split: option.split sum.split)

lemmas frame = frame_sbind frame_for_each frame_on frame_submit frame_prune

lemma frame_retry_record: "I n \<Longrightarrow> I (fst (retry_rollback_issue_record P S now issue v n))"
  unfolding retry_rollback_issue_record_def Let_def case_prod_beta
  by (intro frame_sbind) (auto split: option.split intro!: frame)

lemma frame_mark_reconfirmed: "I n \<Longrightarrow> I (fst (mark_rollback_issues_reconfirmed P S block n))"
  by (auto simp: mark_rollback_issues_reconfirmed_def reconfirm_transaction_def reconfirm_issue_def
      split: sum.split intro!: frame)

lemma frame_rollback_block: "I n \<Longrightarrow> I (fst (rollback_block P S now c w block n))"
  by (auto simp: rollback_block_def record_rollback_def split: sum.split prod.split option.split
      intro!: frame frame_retry_record)

lemma frame_reorg: "I n \<Longrightarrow> I (fst (reorg_to_best_tip P S now n))"
  unfolding reorg_to_best_tip_def Let_def
  by (auto intro!: frame frame_rollback_block I_ledger I_cache I_reorgs)

lemma frame_connect_to_tip: "I n \<Longrightarrow> I (fst (connect_to_tip P S b staged n))"
  unfolding connect_to_tip_def Let_def
  by (auto intro!: frame frame_mark_reconfirmed I_ledger I_cache I_genesis)

lemma frame_apply_known: "I n \<Longrightarrow> I (fst (apply_known_parent_block P S now b n))"
  unfolding apply_known_parent_block_def
  by (auto intro!: frame frame_reorg frame_connect_to_tip)

end

text \<open>The orphan fields are never touched.\<close>

definition keeps :: "('blk, 'y) orphan_state_scheme \<Rightarrow> ('blk, 'y) orphan_state_scheme \<Rightarrow> bool" where
  "keeps n n' \<longleftrightarrow> orphan_state.truncate n' = orphan_state.truncate n"

interpretation orphan_frame: node_frame P b "keeps n0" for P b n0
  by unfold_locales (simp_all add: keeps_def truncate_iff)

lemma keeps_apply_known: "orphan_state.truncate (fst (apply_known_parent_block P S now block n)) = orphan_state.truncate n"
  using orphan_frame.frame_apply_known [of n n P S now block] by (simp add: keeps_def)

lemma node_known_more:
  fixes n n' :: "('tx, 'ldg, 'blk, 'hdr, 'acct, 'fc, 'cons, 'env, 'gen, 'cb, 'z) node_scheme"
  shows "orphan_state.more n = orphan_state.more n' \<Longrightarrow> node_known P n = node_known P n'"
  by (cases n; cases n') (simp add: node_known_def)

interpretation node_orphans: orphan_client P "node_known P" "node_tip_height P"
    "apply_known_parent_block P S now"
  for P S and now :: u64
  by unfold_locales (rule keeps_apply_known, erule node_known_more)

section \<open>Processing orphans\<close>

text \<open>
  The \<open>while\<close> loop of \<open>process_orphans_for_parent\<close>; the head of the list is the top of the stack.
  Every round pops a parent, and a parent is pushed only for a block that leaves the pool.
\<close>

function process_parents where
  "process_parents P S now [] n = (n, Inr ())"
| "process_parents P S now (parent # parents) n =
     (case bt_get (orphan_children_by_parent n) parent of
        None \<Rightarrow> process_parents P S now parents n
      | Some children \<Rightarrow>
          sbind (process_children P (node_known P) (node_tip_height P)
                   (apply_known_parent_block P S now) now children parents
                   (n\<lparr>orphan_children_by_parent := bt_remove parent (orphan_children_by_parent n)\<rparr>))
            (\<lambda>n parents. process_parents P S now parents n))"
  by pat_completeness auto
termination
proof (relation "measure (\<lambda>(P, S, now, parents, n). 2 * length (orphan_blocks n) + length parents)", goal_cases)
  case (3 P S now parent parents n children n' parents')
  then show ?case
    using node_orphans.process_children_measure [of P S now now children parents
        "n\<lparr>orphan_children_by_parent := bt_remove parent (orphan_children_by_parent n)\<rparr>" n' parents']
    by simp
qed simp_all

definition process_orphans_for_parent where
  "process_orphans_for_parent P S now parent_hash n =
     process_parents P S now [parent_hash] (prune_expired_orphans P (node_tip_height P n) now n)"

definition node_cache_orphan_block where
  "node_cache_orphan_block P now block n =
     (case cache_orphan_block P (node_known P n) (node_tip_height P n) now block n of
        (n, r) \<Rightarrow> (n, map_err NodeCodec r))"

definition apply_block where
  "apply_block P S now block n =
     (case apply_known_parent_block P S now block
             (prune_expired_orphans P (node_tip_height P n) now n) of
        (n, Inr _) \<Rightarrow>
          sbind (n, map_err NodeCodec (blk_hash P block)) (\<lambda>n h.
            process_orphans_for_parent P S now h n)
      | (n, Inl error) \<Rightarrow>
          if error = NodeForkChoice ForkMissingParent then node_cache_orphan_block P now block n
          else if error = NodeForkChoice ForkDuplicateBlock \<or> error = NodeLedger LedgerDuplicateBlock
          then (n, Inr ())
          else (n\<lparr>nd_block_validation_failures_total :=
                   sat_add (nd_block_validation_failures_total n) 1\<rparr>, Inl error))"

definition node_drain_missing_parent_requests where
  "node_drain_missing_parent_requests now n = drain_missing_parent_requests_at now n"

definition node_retry_missing_parent_request where
  "node_retry_missing_parent_request P now h n = retry_missing_parent_request (node_known P n) now h n"

section \<open>Start-up\<close>

fun index_chain where
  "index_chain P ledger [] fc = (fc, Inr ())"
| "index_chain P ledger ((height, header) # headers) fc =
     (case (case bt_get (ldg_blocks P ledger) height of
              Some block \<Rightarrow> fc_insert_block P block fc
            | None \<Rightarrow> fc_insert_header P header fc) of
        (fc, Inl e) \<Rightarrow> (fc, Inl e)
      | (fc, Inr _) \<Rightarrow> index_chain P ledger headers fc)"

definition try_with_genesis_accounts where
  "try_with_genesis_accounts P ledger env consensus genesis_accounts =
     rbind (map_err NodeCodec (cache_from_ledger P ledger)) (\<lambda>cache.
       case index_chain P ledger (ldg_headers P ledger) (fc_new P) of
         (_, Inl e) \<Rightarrow> Inl (NodeForkChoice e)
       | (fc, Inr _) \<Rightarrow>
           Inr \<lparr>orphan_blocks = [], orphan_children_by_parent = [], missing_parent_requests = [],
                missing_parent_request_set = {}, missing_parent_retry_at = [],
                nd_ledger = ledger, nd_mempool = mempool_new, nd_storage = env,
                nd_consensus = consensus, nd_cache = cache, nd_fork_choice = fc,
                nd_genesis_accounts = genesis_accounts, nd_pending_compact_blocks = [],
                nd_snapshot_cache = None, nd_block_validation_failures_total = 0,
                nd_reorgs_total = 0\<rparr>)"

text \<open>One round of \<open>index_stored_blocks\<close>: the fork graph, whether it progressed, and the blocks left.\<close>

fun index_round where
  "index_round P [] progressed remaining fc = (fc, Inr (progressed, remaining))"
| "index_round P (block # blocks) progressed remaining fc =
     (case blk_hash P block of
        Inl e \<Rightarrow> (fc, Inl (NodeCodec e))
      | Inr h \<Rightarrow>
          if fc_contains P fc h then index_round P blocks True remaining fc
          else (case fc_insert_block P block fc of
                  (fc, Inr _) \<Rightarrow> index_round P blocks True remaining fc
                | (fc, Inl error) \<Rightarrow>
                    if error = ForkMissingParent
                    then index_round P blocks progressed (remaining @ [block]) fc
                    else (fc, Inl (NodeForkChoice error))))"

lemma index_round_measure:
  assumes "index_round P blocks progressed remaining fc = (fc', Inr (progressed', remaining'))"
  shows "length remaining' \<le> length remaining + length blocks"
    and "progressed' \<Longrightarrow> \<not> progressed \<Longrightarrow> length remaining' < length remaining + length blocks"
proof -
  have "length remaining' \<le> length remaining + length blocks \<and>
      (progressed' \<and> \<not> progressed \<longrightarrow> length remaining' < length remaining + length blocks)"
    using assms
  proof (induction blocks arbitrary: progressed remaining fc)
    case (Cons block blocks)
    then show ?case
      by (fastforce split: sum.splits if_splits prod.splits)
  qed simp
  then show "length remaining' \<le> length remaining + length blocks"
    "progressed' \<Longrightarrow> \<not> progressed \<Longrightarrow> length remaining' < length remaining + length blocks"
    by simp_all
qed

function index_rounds where
  "index_rounds P blocks fc =
     sbind (index_round P blocks False [] fc) (\<lambda>fc (progressed, remaining).
       if progressed then index_rounds P remaining fc else (fc, Inr ()))"
  by pat_completeness auto
termination
  by (relation "measure (\<lambda>(P, blocks, fc). length blocks)") (auto dest: index_round_measure(2))

declare index_rounds.simps [simp del]

definition index_stored_blocks where
  "index_stored_blocks P S n =
     (case load_blocks_by_hash P S (nd_storage n) of
        Inl e \<Rightarrow> (n, Inl (NodeStorage e))
      | Inr blocks \<Rightarrow>
          (case index_rounds P (sort_key (blk_height P) blocks) (nd_fork_choice n) of
             (fc, Inl e) \<Rightarrow> (n\<lparr>nd_fork_choice := fc\<rparr>, Inl e)
           | (fc, Inr _) \<Rightarrow>
               sbind (prune_finalized_forks P (n\<lparr>nd_fork_choice := fc\<rparr>)) (\<lambda>n _. (n, Inr ()))))"

text \<open>
  \<open>init_or_load\<close> on an environment that has been opened: \<open>Storage::open\<close> settles the storage
  version, then the ledger is loaded or created, and the node is built around it.
\<close>

definition load_or_create_ledger where
  "load_or_create_ledger P S env =
     (case load_tip P S env of
        Inl e \<Rightarrow> (env, Inl (NodeStorage e))
      | Inr (Some _) \<Rightarrow> (case load_ledger P S env of (env, r) \<Rightarrow> (env, map_err NodeStorage r))
      | Inr None \<Rightarrow>
          (case genesis_ledger P of
             Inl e \<Rightarrow> (env, Inl (NodeGenesis e))
           | Inr ledger \<Rightarrow>
               (case save_ledger P S ledger env of
                  (env, Inl e) \<Rightarrow> (env, Inl (NodeStorage e))
                | (env, Inr _) \<Rightarrow> (env, Inr ledger))))"

definition initial_genesis_accounts where
  "initial_genesis_accounts P S ledger env =
     (case tip_height P ledger of
        None \<Rightarrow> Inr []
      | Some tip \<Rightarrow>
          if tip = 0 then Inr (ldg_accounts P ledger)
          else rbind (map_err NodeStorage (load_block_by_height P S 0 env)) (\<lambda>found.
               rbind (ok_or MissingGenesisState found) (\<lambda>genesis.
                 case ledger_apply_block S (ledger_new S) genesis of
                   (_, Inl e) \<Rightarrow> Inl (NodeLedger e)
                 | (applied, Inr _) \<Rightarrow> Inr (ldg_accounts P applied))))"

definition init_or_load where
  "init_or_load P S consensus env =
     sbind (case ensure_storage_version S env of (env, r) \<Rightarrow> (env, map_err NodeStorage r)) (\<lambda>env _.
     sbind (load_or_create_ledger P S env) (\<lambda>env ledger.
     sbind (env, ensure_expected_genesis P ledger) (\<lambda>env _.
     sbind (env, map_err NodeStorage (load_genesis_accounts S env)) (\<lambda>env stored.
     sbind (case stored of
              Some accounts \<Rightarrow> (env, Inr accounts)
            | None \<Rightarrow>
                sbind (env, initial_genesis_accounts P S ledger env) (\<lambda>env accounts.
                  case save_genesis_accounts S accounts env of
                    (env, r) \<Rightarrow> (env, map_err NodeStorage (rbind r (\<lambda>_. Inr accounts))))) (\<lambda>env genesis_accounts.
     sbind (env, try_with_genesis_accounts P ledger env consensus genesis_accounts) (\<lambda>env n.
       case index_stored_blocks P S n of
         (n, r) \<Rightarrow> (nd_storage n, rbind r (\<lambda>_. Inr n))))))))"

section \<open>Difficulty and mining\<close>

definition next_difficulty_after_tip where
  "next_difficulty_after_tip P n tip =
     (if tip_height P (nd_ledger n) \<noteq> Some tip then Inl MissingDifficultyAnchor
      else rbind (map_err NodeLedger (expected_difficulty_after_tip P (nd_ledger n))) (\<lambda>difficulty.
             Inr (max difficulty (min_difficulty P))))"

definition next_difficulty where
  "next_difficulty P n =
     (if cons_difficulty P (nd_consensus n) = 0 then Inr (min_difficulty P)
      else next_difficulty_after_tip P n
             (case tip_height P (nd_ledger n) of None \<Rightarrow> 0 | Some tip \<Rightarrow> tip))"

definition next_difficulty_at where
  "next_difficulty_at P n (block_timestamp :: u64) =
     (if cons_difficulty P (nd_consensus n) = 0 then Inr (min_difficulty P) else next_difficulty P n)"

text \<open>The loop over the window of \<open>next_difficulty_after_branch_tip\<close>; it stops at genesis.\<close>

fun window_weights where
  "window_weights P n 0 current = Inr []"
| "window_weights P n (Suc k) current =
     rbind (ok_or MissingDifficultyAnchor (fc_get P (nd_fork_choice n) current)) (\<lambda>fork_node.
     rbind (ok_or MissingDifficultyAnchor (blk_window_weight P (fn_block fork_node))) (\<lambda>weight.
       if fn_height fork_node = 0 then Inr [weight]
       else rbind (window_weights P n k (fn_parent fork_node)) (\<lambda>weights. Inr (weight # weights))))"

definition next_difficulty_after_branch_tip where
  "next_difficulty_after_branch_tip P n tip =
     rbind (ok_or (NodeForkChoice ForkMissingParent) (fc_get P (nd_fork_choice n) tip)) (\<lambda>tip_node.
       let parent_difficulty = max (blk_difficulty P (fn_block tip_node)) (min_difficulty P) in
       if \<not> is_wbda_epoch_boundary P (sat_add (fn_height tip_node) 1) then Inr parent_difficulty
       else rbind (window_weights P n (wbda_window P) tip) (\<lambda>weights.
         if length weights \<noteq> wbda_window P then Inl MissingDifficultyAnchor
         else ok_or MissingDifficultyAnchor
                (next_difficulty_from_window P parent_difficulty (rev weights))))"

definition mine_block where
  "mine_block P S now miner_address timestamp max_attempts transaction_limit n =
     sbind (on_mempool (evict_by_policy P timestamp) n) (\<lambda>n _.
     sbind (n, next_difficulty_at P n timestamp) (\<lambda>n difficulty.
     sbind (n, map_err NodeConsensus (mine_candidate_block P (nd_mempool n) (nd_ledger n) (nd_consensus n)
                 miner_address
                 \<lparr>mc_difficulty = difficulty, mc_start_nonce = 0, mc_max_attempts = max_attempts,
                  mc_transaction_limit = transaction_limit,
                  mc_min_fee_rate = dynamic_market_fee_rate P (nd_mempool n)\<rparr>)) (\<lambda>n mined.
     sbind (n, ok_or MiningExhausted mined) (\<lambda>n result.
     sbind (apply_block P S now (mr_block result) n) (\<lambda>n _. (n, Inr result))))))"

definition flush_to_storage where
  "flush_to_storage P S n = on_storage (save_ledger P S (nd_ledger n)) n"

end
