(* ===== verification/Handler.thy ===== *)
theory Handler
  imports Snapshot Node
begin

text \<open>
  The message handler, \<open>node/src/runtime/network/handler.rs\<close>: what a node answers to each message
  of a peer and how the message changes the node. The node and the global traffic counters are
  the state; the counters only matter for duplicate transactions here.
\<close>

section \<open>Constants and helpers\<close>

definition MAX_RANGE_RESPONSE_ITEMS :: u32 where "MAX_RANGE_RESPONSE_ITEMS = 64"
definition RECONCILE_BUCKETS :: u64 where "RECONCILE_BUCKETS = 16"

definition MAX_RECONCILE_SHORT_IDS ::
  "('blk, 'hdr, 'tx, 'gen, 'cb, 'y) compact_api_scheme \<Rightarrow> nat" where
  "MAX_RECONCILE_SHORT_IDS C = max_block_decode_items C"

definition reconcile_short_id ::
  "('blk, 'hdr, 'tx, 'gen, 'cb, 'y) compact_api_scheme \<Rightarrow> u64 \<Rightarrow> hash \<Rightarrow> u64" where
  "reconcile_short_id C epoch h =
     of_nat (be_value (rev (take 8 (domain_hash_raw C
       (bstr ''PAQUS_MEMPOOL_RECONCILE_V1'' @ rev (be_bytes 8 (unat epoch)) @ h)))))"

definition local_tip where
  "local_tip P n =
     (case node_tip_height P n of
        None \<Rightarrow> None
      | Some height \<Rightarrow>
          (case node_tip_hash P n of
             None \<Rightarrow> None
           | Some h \<Rightarrow>
               map_option (\<lambda>work. \<lparr>ti_height = height, ti_hash = h, ti_work = work\<rparr>) (tip_work P n)))"

definition local_version where
  "local_version P W n = version_local W (local_tip P n)"

text \<open>\<open>(start..start + limit).map_while(lookup)\<close>: the end saturates, and the first gap ends the answer.\<close>

definition height_range :: "u64 \<Rightarrow> u32 \<Rightarrow> u64 list" where
  "height_range start limit =
     map of_nat [unat start..<unat (sat_add start (ucast (min limit MAX_RANGE_RESPONSE_ITEMS)))]"

fun map_while :: "('a \<Rightarrow> 'b option) \<Rightarrow> 'a list \<Rightarrow> 'b list" where
  "map_while f [] = []"
| "map_while f (x # xs) = (case f x of None \<Rightarrow> [] | Some y \<Rightarrow> y # map_while f xs)"

text \<open>\<open>find_map\<close> over a locator: the first hash that the fork graph knows.\<close>

fun find_ancestor where
  "find_ancestor P n [] = None"
| "find_ancestor P n (h # locator) =
     (case fc_get P (nd_fork_choice n) h of
        None \<Rightarrow> find_ancestor P n locator
      | Some fork_node \<Rightarrow>
          Some \<lparr>ti_height = fn_height fork_node, ti_hash = h, ti_work = fn_cumulative_work fork_node\<rparr>)"

fun item_missing where
  "item_missing n (InvBlock h) \<longleftrightarrow> cache_block_by_hash (nd_cache n) h = None"
| "item_missing n (InvTransaction h) \<longleftrightarrow> \<not> mp_contains (nd_mempool n) h"

fun collect_data where
  "collect_data n [] = ([], [])"
| "collect_data n (InvBlock h # items) =
     (case cache_block_by_hash (nd_cache n) h of
        None \<Rightarrow> collect_data n items
      | Some block \<Rightarrow> apfst ((#) block) (collect_data n items))"
| "collect_data n (InvTransaction h # items) =
     (case mp_get (nd_mempool n) h of
        None \<Rightarrow> collect_data n items
      | Some t \<Rightarrow> apsnd ((#) t) (collect_data n items))"

definition invalid_message :: "string \<Rightarrow> ('blk, 'hdr, 'tx, 'gen, 'cb) network_message option" where
  "invalid_message message = Some (MsgReject InvalidMessage message)"

text \<open>The state of a handler is the node with the counters beside it.\<close>

definition on_node where
  "on_node f st =
     (case st of (m, n) \<Rightarrow> (case f n of (n, r) \<Rightarrow> ((m, n), map_err NetworkNode r)))"

section \<open>The larger cases\<close>

definition accept_transaction where
  "accept_transaction P now t st =
     (case st of (m, n) \<Rightarrow>
        if (case tx_hash P t of Inl _ \<Rightarrow> False | Inr h \<Rightarrow> mp_contains (nd_mempool n) h)
        then ((m\<lparr>nm_duplicate_transactions := nm_duplicate_transactions m + 1\<rparr>, n), Inr ())
        else sbind (on_node (submit_protocol_transaction P now t) st) (\<lambda>st _. (st, Inr ())))"

definition accept_blocks where
  "accept_blocks P S now blocks st = for_each (\<lambda>block. on_node (apply_block P S now block)) blocks st"

definition serve_manifest where
  "serve_manifest P W height block_hash st =
     (case st of (m, n) \<Rightarrow>
        if node_tip_height P n \<noteq> Some height \<or> node_tip_hash P n \<noteq> Some block_hash
        then (st, Inr (invalid_message ''snapshot checkpoint is not the current canonical tip''))
        else sbind (on_node (snapshot_bytes P) st) (\<lambda>st bytes.
          (st, Inr (Some (MsgSnapshotManifest height block_hash (of_nat (length bytes))
                            (artifact_payload_hash W bytes) SNAPSHOT_CHUNK_SIZE)))))"

definition serve_chunk where
  "serve_chunk P height block_hash offset len st =
     (case st of (m, n) \<Rightarrow>
        if len = 0 \<or> SNAPSHOT_CHUNK_SIZE < len \<or> node_tip_height P n \<noteq> Some height \<or>
           node_tip_hash P n \<noteq> Some block_hash
        then (st, Inr (invalid_message ''invalid snapshot chunk request''))
        else sbind (on_node (snapshot_bytes P) st) (\<lambda>st bytes.
          let start = unat offset; end = min (min (start + unat len) (2 ^ 64 - 1)) (length bytes) in
          if length bytes \<le> start
          then (st, Inr (invalid_message ''snapshot chunk offset is out of range''))
          else
            let chunk = take (end - start) (drop start bytes) in
            (case compress_chunk chunk of (compression, compressed) \<Rightarrow>
               (st, Inr (Some (MsgSnapshotChunk height block_hash offset compression
                                 (of_nat (length chunk)) compressed))))))"

text \<open>The loop over the pool of \<open>ReconcileMempool\<close>.\<close>

fun reconcile_missing where
  "reconcile_missing P C epoch remote [] = Inr []"
| "reconcile_missing P C epoch remote (t # ts) =
     rbind (map_err NodeCodec (tx_hash P t)) (\<lambda>h.
       let short_id = reconcile_short_id C epoch h in
       rbind (reconcile_missing P C epoch remote ts) (\<lambda>missing.
         if short_id mod RECONCILE_BUCKETS = epoch mod RECONCILE_BUCKETS \<and> short_id \<notin> set remote
         then Inr (t # missing) else Inr missing))"

definition reconcile_mempool where
  "reconcile_mempool P C epoch short_ids n =
     (if MAX_RECONCILE_SHORT_IDS C < length short_ids \<or> length (remdups short_ids) \<noteq> length short_ids
      then Inr (invalid_message ''invalid mempool reconciliation set'')
      else rbind (map_err NetworkNode (reconcile_missing P C epoch short_ids (mp_values (nd_mempool n))))
             (\<lambda>missing. Inr (Some (MsgTransactions missing))))"

definition mempool_inventory where
  "mempool_inventory P n =
     rbind (map_err NetworkNode (map_res (\<lambda>t. rbind (map_err NodeCodec (tx_hash P t)) (\<lambda>h. Inr (InvTransaction h)))
              (mp_values (nd_mempool n))))
       (\<lambda>items. Inr (Some (MsgInventory items)))"

definition accept_compact_block where
  "accept_compact_block P S C now compact st =
     (case st of (m, n) \<Rightarrow>
        (case compact_block_hash P compact of
           Inl _ \<Rightarrow> (st, Inr (invalid_message ''compact block header is invalid''))
         | Inr block_hash \<Rightarrow>
             if cache_block_by_hash (nd_cache n) block_hash \<noteq> None then (st, Inr None)
             else (case reconstruct P C compact (nd_mempool n) [] of
                 Inr (CompactComplete block) \<Rightarrow>
                   sbind (on_node (apply_block P S now block) st) (\<lambda>st _. (st, Inr None))
               | Inr (CompactMissing indexes) \<Rightarrow>
                   ((m, stage_compact_block block_hash compact n),
                    Inr (Some (MsgGetCompactBlockTransactions block_hash indexes)))
               | Inl _ \<Rightarrow> (st, Inr (Some (MsgGetBlockByHash block_hash))))))"

fun indexed_transactions where
  "indexed_transactions ts [] = Some []"
| "indexed_transactions ts (index # indexes) =
     (if unat index < length ts
      then map_option ((#) \<lparr>it_index = index, it_transaction = ts ! unat index\<rparr>) (indexed_transactions ts indexes)
      else None)"

definition serve_compact_transactions where
  "serve_compact_transactions P C block_hash indexes n =
     (if max_block_decode_items C < length indexes
      then invalid_message ''too many compact block transaction indexes''
      else if \<not> distinct indexes then invalid_message ''duplicate compact block transaction index''
      else (case cache_block_by_hash (nd_cache n) block_hash of
          None \<Rightarrow> invalid_message ''compact block is unavailable''
        | Some block \<Rightarrow>
            (case indexed_transactions (blk_transactions P block) indexes of
               None \<Rightarrow> invalid_message ''compact block transaction index is invalid''
             | Some transactions \<Rightarrow> Some (MsgCompactBlockTransactions block_hash transactions))))"

definition accept_compact_transactions where
  "accept_compact_transactions P S C now block_hash transactions st =
     (case st of (m, n) \<Rightarrow>
        (case take_compact_block block_hash n of
           (n, None) \<Rightarrow> ((m, n), Inr (Some (MsgGetBlockByHash block_hash)))
         | (n, Some compact) \<Rightarrow>
             (case reconstruct P C compact (nd_mempool n) transactions of
                Inr (CompactComplete block) \<Rightarrow>
                  sbind (on_node (apply_block P S now block) (m, n)) (\<lambda>st _. (st, Inr None))
              | _ \<Rightarrow> ((m, n), Inr (Some (MsgGetBlockByHash block_hash))))))"

section \<open>The handler\<close>

fun handle_message :: "_ \<Rightarrow> _ \<Rightarrow> _ \<Rightarrow> _ \<Rightarrow> _ \<Rightarrow> ('blk, 'hdr, 'tx, 'gen, 'cb) network_message \<Rightarrow> _ \<Rightarrow>
   _ \<times> (network_error + ('blk, 'hdr, 'tx, 'gen, 'cb) network_message option)" where
  "handle_message P S C W now (MsgVersion version) st =
     (st, Inr (Some (case validate_compatibility W version of
        Inr _ \<Rightarrow> MsgVerAck (local_version P W (snd st))
      | Inl reason \<Rightarrow> MsgReject reason ''incompatible peer version'')))"
| "handle_message P S C W now (MsgPing nonce) st = (st, Inr (Some (MsgPong nonce)))"
| "handle_message P S C W now MsgGetTip st = (st, Inr (map_option MsgTip (local_tip P (snd st))))"
| "handle_message P S C W now (MsgGetBlockByHeight height) st =
     (st, Inr (map_option MsgBlock (ldg_block P (nd_ledger (snd st)) height)))"
| "handle_message P S C W now (MsgGetBlocksByHeightRange start limit) st =
     (st, Inr (Some (MsgBlocks
        (map_while (ldg_block P (nd_ledger (snd st))) (height_range start limit)))))"
| "handle_message P S C W now (MsgGetBlockHeadersByHeightRange start limit) st =
     (st, Inr (Some (MsgBlockHeaders
        (map_while (ldg_header P (nd_ledger (snd st))) (height_range start limit)))))"
| "handle_message P S C W now (MsgGetCommonAncestor locator) st =
     (st, Inr (Some (MsgCommonAncestor (find_ancestor P (snd st) locator))))"
| "handle_message P S C W now (MsgGetBlockByHash h) st =
     (st, Inr (case cache_block_by_hash (nd_cache (snd st)) h of
          Some block \<Rightarrow> Some (MsgBlock block)
        | None \<Rightarrow> invalid_message (''block not found: '' @ hex_encode W h)))"
| "handle_message P S C W now (MsgBlock block) st =
     sbind (on_node (apply_block P S now block) st) (\<lambda>st _. (st, Inr None))"
| "handle_message P S C W now (MsgBlocks blocks) st =
     sbind (accept_blocks P S now blocks st) (\<lambda>st _. (st, Inr None))"
| "handle_message P S C W now (MsgGetSnapshotManifest height block_hash) st =
     serve_manifest P W height block_hash st"
| "handle_message P S C W now (MsgGetSnapshotChunk height block_hash offset len) st =
     serve_chunk P height block_hash offset len st"
| "handle_message P S C W now (MsgInventory items) st =
     (st, Inr (let missing = filter (item_missing (snd st)) items in
        if missing = [] then None else Some (MsgGetData missing)))"
| "handle_message P S C W now (MsgGetData items) st =
     (st, Inr (case collect_data (snd st) items of (blocks, transactions) \<Rightarrow>
        if blocks \<noteq> [] then Some (MsgBlocks blocks)
        else if transactions \<noteq> [] then Some (MsgTransactions transactions) else None))"
| "handle_message P S C W now (MsgTransaction t) st =
     sbind (accept_transaction P now t st) (\<lambda>st _. (st, Inr None))"
| "handle_message P S C W now (MsgTransactions ts) st =
     sbind (for_each (accept_transaction P now) ts st) (\<lambda>st _. (st, Inr None))"
| "handle_message P S C W now MsgGetMempoolInventory st = (st, mempool_inventory P (snd st))"
| "handle_message P S C W now (MsgReconcileMempool epoch short_ids) st =
     (st, reconcile_mempool P C epoch short_ids (snd st))"
| "handle_message P S C W now MsgGetPeers st = (st, Inr (Some (MsgPeers [])))"
| "handle_message P S C W now (MsgCompactBlock compact) st = accept_compact_block P S C now compact st"
| "handle_message P S C W now (MsgGetCompactBlockTransactions block_hash indexes) st =
     (st, Inr (serve_compact_transactions P C block_hash indexes (snd st)))"
| "handle_message P S C W now (MsgCompactBlockTransactions block_hash transactions) st =
     accept_compact_transactions P S C now block_hash transactions st"
| "handle_message P S C W now _ st = (st, Inr None)"

end
