(* ===== verification/Peers.thy ===== *)
theory Peers
  imports Handler
begin

text \<open>
  What a node knows about its peers, \<open>node/src/p2p/mod.rs\<close> and \<open>node/src/p2p/gossip.rs\<close>: the
  reputation of a peer, its request budget, the memory of gossip already seen, the comparison of
  chain tips, the block locator and the plan of a parallel download. Instants and durations are
  milliseconds, wall-clock times seconds; a call reads the clock once.
\<close>

section \<open>Reputation\<close>

type_synonym instant = nat
type_synonym addr = string

definition DEFAULT_SYNC_INTERVAL :: nat where "DEFAULT_SYNC_INTERVAL = 5000"
definition PEER_RETRY_BASE :: u64 where "PEER_RETRY_BASE = 2"
definition PEER_RETRY_MAX :: u64 where "PEER_RETRY_MAX = 60"
definition PEER_BAN_SCORE_THRESHOLD :: int where "PEER_BAN_SCORE_THRESHOLD = 100"
definition PEER_FAILURE_PENALTY :: int where "PEER_FAILURE_PENALTY = 20"
definition PEER_SUCCESS_REWARD :: int where "PEER_SUCCESS_REWARD = 2"
definition PEER_SYNC_REWARD :: int where "PEER_SYNC_REWARD = 5"
definition PEER_BAN_DURATION :: nat where "PEER_BAN_DURATION = 600000"
definition MIN_BLOCKS_PER_SYNC :: u64 where "MIN_BLOCKS_PER_SYNC = 32"
definition INITIAL_BLOCKS_PER_SYNC :: u64 where "INITIAL_BLOCKS_PER_SYNC = 64"
definition MAX_BLOCKS_PER_SYNC :: u64 where "MAX_BLOCKS_PER_SYNC = 256"
definition MAX_BLOCKS_PER_BATCH :: u64 where "MAX_BLOCKS_PER_BATCH = 32"

lemmas peer_constants = DEFAULT_SYNC_INTERVAL_def PEER_RETRY_BASE_def PEER_RETRY_MAX_def
  PEER_BAN_SCORE_THRESHOLD_def PEER_FAILURE_PENALTY_def PEER_SUCCESS_REWARD_def PEER_SYNC_REWARD_def
  PEER_BAN_DURATION_def MIN_BLOCKS_PER_SYNC_def INITIAL_BLOCKS_PER_SYNC_def MAX_BLOCKS_PER_SYNC_def
  MAX_BLOCKS_PER_BATCH_def

text \<open>The score is an \<open>i32\<close>; its operations saturate.\<close>

definition i32_sat :: "int \<Rightarrow> int" where
  "i32_sat x = max (- (2 ^ 31)) (min (2 ^ 31 - 1) x)"

record peer_state =
  pe_addr :: addr
  pe_failures :: u32
  pe_next_attempt :: instant
  pe_last_tip :: "u64 option"
  pe_sync_window :: u64
  pe_score :: int
  pe_ban_until :: "instant option"
  pe_last_seen :: "nat option"
  pe_last_success :: "nat option"
  pe_latency :: "nat option"

definition peer_new :: "instant \<Rightarrow> nat \<Rightarrow> addr \<Rightarrow> peer_state" where
  "peer_new now time a = \<lparr>pe_addr = a, pe_failures = 0, pe_next_attempt = now, pe_last_tip = None,
     pe_sync_window = INITIAL_BLOCKS_PER_SYNC, pe_score = 0, pe_ban_until = None,
     pe_last_seen = Some time, pe_last_success = None, pe_latency = None\<rparr>"

definition mark_ok :: "instant \<Rightarrow> nat \<Rightarrow> u64 option \<Rightarrow> peer_state \<Rightarrow> peer_state" where
  "mark_ok now time tip p = p\<lparr>pe_failures := 0, pe_last_tip := tip, pe_last_seen := Some time,
     pe_last_success := Some time, pe_score := max (i32_sat (pe_score p - PEER_SUCCESS_REWARD)) 0,
     pe_next_attempt := now + DEFAULT_SYNC_INTERVAL\<rparr>"

definition mark_synced :: "instant \<Rightarrow> nat \<Rightarrow> u64 \<Rightarrow> usize \<Rightarrow> peer_state \<Rightarrow> peer_state" where
  "mark_synced now time tip synced_blocks p = p\<lparr>pe_failures := 0, pe_last_tip := Some tip,
     pe_last_seen := Some time, pe_last_success := Some time,
     pe_score := max (i32_sat (pe_score p - PEER_SYNC_REWARD)) 0,
     pe_sync_window :=
       (if pe_sync_window p \<le> synced_blocks
        then min (sat_mul (pe_sync_window p) 2) MAX_BLOCKS_PER_SYNC else pe_sync_window p),
     pe_next_attempt := now + DEFAULT_SYNC_INTERVAL\<rparr>"

definition retry_secs :: "u32 \<Rightarrow> u64" where
  "retry_secs failures =
     min (sat_mul PEER_RETRY_BASE (push_bit (unat (min (sat_sub failures 1) 5)) 1)) PEER_RETRY_MAX"

definition mark_failed :: "instant \<Rightarrow> nat \<Rightarrow> peer_state \<Rightarrow> peer_state" where
  "mark_failed now time p =
     (let failures = sat_add (pe_failures p) 1; score = i32_sat (pe_score p + PEER_FAILURE_PENALTY) in
      p\<lparr>pe_failures := failures, pe_last_seen := Some time, pe_score := score,
        pe_ban_until :=
          (if PEER_BAN_SCORE_THRESHOLD \<le> score then Some (now + PEER_BAN_DURATION) else pe_ban_until p),
        pe_sync_window := max (pe_sync_window p div 2) MIN_BLOCKS_PER_SYNC,
        pe_next_attempt := now + unat (retry_secs failures) * 1000\<rparr>)"

definition is_banned :: "instant \<Rightarrow> peer_state \<Rightarrow> bool" where
  "is_banned now p = (case pe_ban_until p of None \<Rightarrow> False | Some until \<Rightarrow> now < until)"

definition set_latency :: "nat \<Rightarrow> nat \<Rightarrow> peer_state \<Rightarrow> peer_state" where
  "set_latency time latency p = p\<lparr>pe_latency := Some latency, pe_last_seen := Some time\<rparr>"

section \<open>The request budget\<close>

definition PEER_REQUEST_WINDOW :: nat where "PEER_REQUEST_WINDOW = 10000"
definition MAX_PEER_REQUESTS_PER_WINDOW :: u32 where "MAX_PEER_REQUESTS_PER_WINDOW = 64"

record request_budget =
  rq_window_started :: instant
  rq_count :: u32

definition check_request_budget :: "instant \<Rightarrow> 'z request_budget_scheme \<Rightarrow> 'z request_budget_scheme \<times> (string + unit)" where
  "check_request_budget now b =
     (let b = (if PEER_REQUEST_WINDOW \<le> now - rq_window_started b
               then b\<lparr>rq_window_started := now, rq_count := 0\<rparr> else b);
          b = b\<lparr>rq_count := sat_add (rq_count b) 1\<rparr> in
      (b, if MAX_PEER_REQUESTS_PER_WINDOW < rq_count b
          then Inl ''peer request rate limit exceeded'' else Inr ()))"

section \<open>Gossip already seen\<close>

record gossip_dedupe =
  gd_capacity :: nat
  gd_blocks :: "hash set"
  gd_block_order :: "hash list"
  gd_transactions :: "hash set"
  gd_transaction_order :: "hash list"

definition gossip_new :: "nat \<Rightarrow> gossip_dedupe" where
  "gossip_new capacity = \<lparr>gd_capacity = capacity, gd_blocks = {}, gd_block_order = [],
     gd_transactions = {}, gd_transaction_order = []\<rparr>"

text \<open>The eviction loop: the oldest hash goes while there are too many.\<close>

fun evict_seen :: "nat \<Rightarrow> 'a set \<Rightarrow> 'a list \<Rightarrow> 'a set \<times> 'a list" where
  "evict_seen capacity seen [] = (seen, [])"
| "evict_seen capacity seen (evicted # order) =
     (if capacity < card seen then evict_seen capacity (seen - {evicted}) order
      else (seen, evicted # order))"

definition mark_seen :: "nat \<Rightarrow> 'a set \<Rightarrow> 'a list \<Rightarrow> 'a \<Rightarrow> ('a set \<times> 'a list) \<times> bool" where
  "mark_seen capacity seen order v =
     (if v \<in> seen then ((seen, order), False)
      else if capacity = 0 then ((seen, order), True)
      else (evict_seen capacity (insert v seen) (order @ [v]), True))"

definition mark_block_seen :: "hash \<Rightarrow> gossip_dedupe \<Rightarrow> gossip_dedupe \<times> bool" where
  "mark_block_seen h g =
     (case mark_seen (gd_capacity g) (gd_blocks g) (gd_block_order g) h of
        ((seen, order), fresh) \<Rightarrow> (g\<lparr>gd_blocks := seen, gd_block_order := order\<rparr>, fresh))"

definition mark_transaction_seen :: "hash \<Rightarrow> gossip_dedupe \<Rightarrow> gossip_dedupe \<times> bool" where
  "mark_transaction_seen h g =
     (case mark_seen (gd_capacity g) (gd_transactions g) (gd_transaction_order g) h of
        ((seen, order), fresh) \<Rightarrow> (g\<lparr>gd_transactions := seen, gd_transaction_order := order\<rparr>, fresh))"

fun dedupe_loop :: "addr set \<Rightarrow> addr list \<Rightarrow> addr list" where
  "dedupe_loop seen [] = []"
| "dedupe_loop seen (p # ps) = (if p \<in> seen then dedupe_loop seen ps else p # dedupe_loop (insert p seen) ps)"

definition dedupe_peers :: "addr list \<Rightarrow> addr list" where
  "dedupe_peers peers = dedupe_loop {} peers"

section \<open>Chain tips\<close>

datatype ordering = Less | Equal | Greater

text \<open>
  \<open>compare_chain_tips\<close> of the crate compares the work of two chains and breaks ties by hash; it is
  a parameter. \<open>max_by\<close> keeps the last of several maxima.
\<close>

definition compare_tips ::
  "(u64 list \<Rightarrow> hash \<Rightarrow> u64 list \<Rightarrow> hash \<Rightarrow> ordering) \<Rightarrow> tip_info \<Rightarrow> tip_info \<Rightarrow> ordering" where
  "compare_tips compare_chain_tips left right =
     compare_chain_tips (ti_work left) (ti_hash left) (ti_work right) (ti_hash right)"

definition is_remote_tip_better where
  "is_remote_tip_better compare_chain_tips local remote \<longleftrightarrow> compare_tips compare_chain_tips remote local = Greater"

fun max_by :: "('a \<Rightarrow> 'a \<Rightarrow> ordering) \<Rightarrow> 'a list \<Rightarrow> 'a option" where
  "max_by cmp [] = None"
| "max_by cmp [x] = Some x"
| "max_by cmp (x # y # zs) = max_by cmp ((if cmp x y = Greater then x else y) # zs)"

definition work_hex :: "(bytes \<Rightarrow> string) \<Rightarrow> u64 list \<Rightarrow> string" where
  "work_hex hex work =
     (let trimmed = dropWhile (\<lambda>c. c = CHR ''0'') (hex (concat (map (\<lambda>limb. be_bytes 8 (unat limb)) work))) in
      if trimmed = [] then ''0'' else trimmed)"

section \<open>The block locator\<close>

definition MAX_BLOCK_LOCATOR_HASHES :: nat where "MAX_BLOCK_LOCATOR_HASHES = 32"

text \<open>
  The loop: the height falls by the step, which doubles once ten hashes are collected. The step
  is one or more, so the test for zero, which makes the recursion end for all arguments, never
  fires.
\<close>

function locator_loop where
  "locator_loop P ledger height step locator =
     rbind (case ldg_header P ledger height of
              None \<Rightarrow> Inr locator
            | Some header \<Rightarrow>
                rbind (map_err (txt_codec (error_fmt_api P)) (hdr_hash P header)) (\<lambda>h. Inr (locator @ [h])))
       (\<lambda>locator.
          if height = 0 \<or> step = 0 \<or> MAX_BLOCK_LOCATOR_HASHES \<le> length locator then Inr locator
          else locator_loop P ledger (sat_sub height step)
                 (if 10 \<le> length locator then sat_mul step 2 else step) locator)"
  by pat_completeness auto
termination
  by (relation "measure (\<lambda>(P, ledger, height, step, locator). unat height)")
    (auto simp: unat_sat_sub unat_gt_0)

declare locator_loop.simps [simp del]

definition block_locator where
  "block_locator P n =
     (case node_tip_height P n of
        None \<Rightarrow> Inr []
      | Some tip \<Rightarrow>
          rbind (locator_loop P (nd_ledger n) tip 1 []) (\<lambda>locator.
            case ldg_header P (nd_ledger n) 0 of
              None \<Rightarrow> Inr locator
            | Some genesis \<Rightarrow>
                if locator \<noteq> [] \<and> hdr_hash P genesis \<noteq> Inr (last locator)
                then rbind (map_err (txt_codec (error_fmt_api P)) (hdr_hash P genesis)) (\<lambda>h. Inr (locator @ [h]))
                else Inr locator))"

section \<open>Parallel download plans\<close>

record 'hdr sync_range =
  sr_peer :: addr
  sr_start :: u64
  sr_target :: u64
  sr_headers :: "'hdr list"

lemma plan_step:
  fixes h t :: u64
  assumes "h \<le> t" "h \<noteq> - 1"
  shows "unat h < unat (sat_add h (min (sat_add (sat_sub t h) 1) 32))"
proof -
  have "unat h < 2 ^ 64 - 1"
  proof -
    have "unat h \<noteq> unat (- 1 :: u64)" using assms(2) by (simp add: word_unat_eq_iff)
    then show ?thesis using u64_less [of h] by (simp add: unsigned_minus_1_eq_mask mask_eq_exp_minus_1)
  qed
  moreover have "0 < unat (min (sat_add (sat_sub t h) 1) 32)"
    by (simp add: min_def unat_sat_add)
  ultimately show ?thesis by (simp add: unat_sat_add)
qed

text \<open>
  The loop that cuts the heights into batches; \<open>None\<close> is the panic of the slice when there are too few
  headers. \<open>next_height\<close> saturates, so that for a target of \<open>u64::MAX\<close> the source loops for ever; the
  model stops there, and its claims exclude that target.
\<close>

function plan_loop :: "addr list \<Rightarrow> u64 \<Rightarrow> 'hdr list \<Rightarrow> nat \<Rightarrow> u64 \<Rightarrow> 'hdr sync_range list option" where
  "plan_loop available target headers i height =
     (if height \<le> target \<and> height \<noteq> - 1 then
        (let remaining = sat_add (sat_sub target height) 1;
             n = min remaining MAX_BLOCKS_PER_BATCH in
         if length headers < unat n then None
         else map_option ((#) \<lparr>sr_peer = available ! (i mod length available), sr_start = height,
             sr_target = sat_sub (sat_add height n) 1, sr_headers = take (unat n) headers\<rparr>)
           (plan_loop available target (drop (unat n) headers) (Suc i) (sat_add height n)))
      else Some [])"
  by pat_completeness auto
termination
proof (relation "measure (\<lambda>(available, target, headers, i, height). 2 ^ 64 - unat height)", goal_cases)
  case (2 available target headers i height remaining n)
  then have "unat height < unat (sat_add height n)" using plan_step by (simp add: MAX_BLOCKS_PER_BATCH_def)
  moreover have "unat (sat_add height n) < 2 ^ 64" by (rule u64_less)
  ultimately show ?case by (simp only: in_measure case_prod_conv)
qed simp

declare plan_loop.simps [simp del]

text \<open>\<open>sort_by\<close> is stable; better tips come first.\<close>

fun insert_by :: "('a \<Rightarrow> 'a \<Rightarrow> ordering) \<Rightarrow> 'a \<Rightarrow> 'a list \<Rightarrow> 'a list" where
  "insert_by cmp x [] = [x]"
| "insert_by cmp x (y # ys) = (if cmp x y = Greater then y # insert_by cmp x ys else x # y # ys)"

definition sort_by :: "('a \<Rightarrow> 'a \<Rightarrow> ordering) \<Rightarrow> 'a list \<Rightarrow> 'a list" where
  "sort_by cmp xs = foldr (insert_by cmp) xs []"

definition plan_parallel_ranges ::
  "(u64 list \<Rightarrow> hash \<Rightarrow> u64 list \<Rightarrow> hash \<Rightarrow> ordering) \<Rightarrow> u64 \<Rightarrow> u64 \<Rightarrow> 'hdr list \<Rightarrow> (addr \<times> tip_info) list \<Rightarrow>
   'hdr sync_range list option" where
  "plan_parallel_ranges compare_chain_tips start target headers candidates =
     (let available = map fst (sort_by (\<lambda>(_, left) (_, right). compare_tips compare_chain_tips right left)
            (filter (\<lambda>(_, tip). target \<le> ti_height tip) candidates)) in
      if available = [] then Some [] else plan_loop available target headers 0 start)"

end
