(* ===== verification/Storage_Laws.thy ===== *)
theory Storage_Laws
  imports Storage
begin

text \<open>
  How the store's operations act on the tables of an LMDB environment: the laws the environment
  is assumed to satisfy, what reads return and writes leave in terms of those tables, which
  tables a write can touch, and prefix scans as filters.
\<close>

section \<open>What the store relies on\<close>

type_synonym store = "database \<Rightarrow> (bytes, bytes) btree"

text \<open>
  The behaviour of an LMDB environment, seen through the tables it and its transactions hold:
  reading is exact, a write changes one table, a committed transaction replaces the tables, and a
  failed commit, an abort and a sync leave them alone.
\<close>

definition lmdb_laws ::
  "('env, 'txn, 'y) lmdb_api_scheme \<Rightarrow> ('env \<Rightarrow> store) \<Rightarrow> ('txn \<Rightarrow> store) \<Rightarrow> bool" where
  "lmdb_laws S ev tv \<longleftrightarrow>
     (\<forall>env. \<exists>txn. begin_ro_txn S env = Inr txn \<and> tv txn = ev env) \<and>
     (\<forall>env txn. begin_rw_txn S env = Inr txn \<longrightarrow> tv txn = ev env) \<and>
     (\<forall>txn db k. txn_get S txn db k =
        (case bt_get (tv txn db) k of None \<Rightarrow> Inl LmdbNotFound | Some v \<Rightarrow> Inr v)) \<and>
     (\<forall>txn db. txn_iter S txn db = Inr (map Inr (tv txn db))) \<and>
     (\<forall>txn db k v txn'. txn_put S txn db k v = (txn', Inr ()) \<longrightarrow>
        tv txn' = (tv txn)(db := bt_insert k v (tv txn db))) \<and>
     (\<forall>txn db k. tv (fst (txn_del S txn db k)) = (tv txn)(db := bt_remove k (tv txn db))) \<and>
     (\<forall>txn db txn'. txn_clear_db S txn db = (txn', Inr ()) \<longrightarrow> tv txn' = (tv txn)(db := [])) \<and>
     (\<forall>env txn env'. txn_commit S env txn = (env', Inr ()) \<longrightarrow> ev env' = tv txn) \<and>
     (\<forall>env txn env' e. txn_commit S env txn = (env', Inl e) \<longrightarrow> ev env' = ev env) \<and>
     (\<forall>env txn. ev (txn_abort S env txn) = ev env) \<and>
     (\<forall>env. ev (fst (env_sync S env)) = ev env)"

text \<open>LMDB keeps the keys of every table in byte order.\<close>

definition tables_ok :: "store \<Rightarrow> bool" where
  "tables_ok tables \<longleftrightarrow> (\<forall>db. bt_wf (tables db))"

lemmas lmdb_lawsD =
  lmdb_laws_def [THEN iffD1, THEN conjunct1, rule_format]
  lmdb_laws_def [THEN iffD1, THEN conjunct2, THEN conjunct1, rule_format]
  lmdb_laws_def [THEN iffD1, THEN conjunct2, THEN conjunct2, THEN conjunct1, rule_format]
  lmdb_laws_def [THEN iffD1, THEN conjunct2, THEN conjunct2, THEN conjunct2, THEN conjunct1, rule_format]
  lmdb_laws_def [THEN iffD1, THEN conjunct2, THEN conjunct2, THEN conjunct2, THEN conjunct2, THEN conjunct1, rule_format]
  lmdb_laws_def [THEN iffD1, THEN conjunct2, THEN conjunct2, THEN conjunct2, THEN conjunct2, THEN conjunct2, THEN conjunct1, rule_format]
  lmdb_laws_def [THEN iffD1, THEN conjunct2, THEN conjunct2, THEN conjunct2, THEN conjunct2, THEN conjunct2, THEN conjunct2, THEN conjunct1, rule_format]
  lmdb_laws_def [THEN iffD1, THEN conjunct2, THEN conjunct2, THEN conjunct2, THEN conjunct2, THEN conjunct2, THEN conjunct2, THEN conjunct2, THEN conjunct1, rule_format]
  lmdb_laws_def [THEN iffD1, THEN conjunct2, THEN conjunct2, THEN conjunct2, THEN conjunct2, THEN conjunct2, THEN conjunct2, THEN conjunct2, THEN conjunct2, THEN conjunct1, rule_format]
  lmdb_laws_def [THEN iffD1, THEN conjunct2, THEN conjunct2, THEN conjunct2, THEN conjunct2, THEN conjunct2, THEN conjunct2, THEN conjunct2, THEN conjunct2, THEN conjunct2, THEN conjunct1, rule_format]
  lmdb_laws_def [THEN iffD1, THEN conjunct2, THEN conjunct2, THEN conjunct2, THEN conjunct2, THEN conjunct2, THEN conjunct2, THEN conjunct2, THEN conjunct2, THEN conjunct2, THEN conjunct2, rule_format]

section \<open>Reads\<close>

lemma read_bytes_view:
  assumes "lmdb_laws S ev tv"
  shows "read_bytes S txn db k = Inr (bt_get (tv txn db) k)"
  using lmdb_lawsD(3) [OF assms, of txn db k] by (simp add: read_bytes_def split: option.splits)

lemma with_ro_txn_view:
  assumes "lmdb_laws S ev tv" "\<And>txn. tv txn = ev env \<Longrightarrow> body txn = r"
  shows "with_ro_txn S env body = r"
  using lmdb_lawsD(1) [OF assms(1), of env] assms(2) by (auto simp: with_ro_txn_def)

lemma read_value_view:
  assumes "lmdb_laws S ev tv"
  shows "read_value S c txn db k =
    (case bt_get (tv txn db) k of
       None \<Rightarrow> Inr None | Some bs \<Rightarrow> rbind (decode c bs) (\<lambda>v. Inr (Some v)))"
  by (simp add: read_value_def read_bytes_view [OF assms])

lemma decode_encode: "codec_ok c \<Longrightarrow> encode c v = Inr bs \<Longrightarrow> decode c bs = Inr v"
  by (auto simp: codec_ok_def encode_def decode_def)

section \<open>Writes\<close>

text \<open>\<open>put_effect\<close> says what a successful step of a write transaction did to the tables.\<close>

lemma put_bytes_view:
  assumes "lmdb_laws S ev tv" "put_bytes S db k bs txn = (txn', Inr ())"
  shows "tv txn' = (tv txn)(db := bt_insert k bs (tv txn db))"
proof -
  have "txn_put S txn db k bs = (txn', Inr ())"
    using assms(2) by (auto simp: put_bytes_def split: prod.splits)
  then show ?thesis by (rule lmdb_lawsD(5) [OF assms(1)])
qed

lemma put_value_view:
  assumes "lmdb_laws S ev tv" "put_value S c db k v txn = (txn', Inr ())"
  shows "\<exists>bs. encode c v = Inr bs \<and> tv txn' = (tv txn)(db := bt_insert k bs (tv txn db))"
  using assms put_bytes_view [OF assms(1)] by (auto simp: put_value_def split: sum.splits)

lemma clear_db_view:
  assumes "lmdb_laws S ev tv" "clear_db S db txn = (txn', Inr ())"
  shows "tv txn' = (tv txn)(db := [])"
proof -
  have "txn_clear_db S txn db = (txn', Inr ())"
    using assms(2) by (auto simp: clear_db_def split: prod.splits)
  then show ?thesis by (rule lmdb_lawsD(7) [OF assms(1)])
qed

lemma with_rw_txn_Inr:
  assumes "lmdb_laws S ev tv" "with_rw_txn S env body = (env', Inr ())"
  obtains txn txn' where "tv txn = ev env" "body txn = (txn', Inr ())" "ev env' = tv txn'"
proof -
  obtain txn where txn: "begin_rw_txn S env = Inr txn"
    using assms(2) by (cases "begin_rw_txn S env") (auto simp: with_rw_txn_def)
  obtain txn' where body: "body txn = (txn', Inr ())" and "txn_commit S env txn' = (env', Inr ())"
    using assms(2) txn by (auto simp: with_rw_txn_def split: prod.splits sum.splits)
  then show ?thesis
    using that [of txn txn'] lmdb_lawsD(2) [OF assms(1) txn] lmdb_lawsD(8) [OF assms(1)] by blast
qed

lemma with_rw_txn_Inl:
  assumes "lmdb_laws S ev tv" "with_rw_txn S env body = (env', Inl e)"
  shows "ev env' = ev env"
  using assms(2) lmdb_lawsD(9,10) [OF assms(1)]
  by (auto simp: with_rw_txn_def map_err_Inl_iff split: sum.splits prod.splits)

lemma flush_view: "lmdb_laws S ev tv \<Longrightarrow> ev (fst (flush S env)) = ev env"
  using lmdb_lawsD(11) [of S ev tv env] by (simp add: flush_def case_prod_unfold Let_def)

text \<open>A write step that only touches some tables.\<close>

definition writes_only ::
  "('txn \<Rightarrow> store) \<Rightarrow> database set \<Rightarrow> ('txn \<Rightarrow> 'txn \<times> (storage_error + unit)) \<Rightarrow> bool" where
  "writes_only tv dbs f \<longleftrightarrow>
     (\<forall>txn txn' db. f txn = (txn', Inr ()) \<longrightarrow> db \<notin> dbs \<longrightarrow> tv txn' db = tv txn db)"

named_theorems frame \<open>introduction rules for \<open>writes_only\<close>\<close>

lemma writes_onlyD:
  "writes_only tv dbs f \<Longrightarrow> f txn = (txn', Inr ()) \<Longrightarrow> db \<notin> dbs \<Longrightarrow> tv txn' db = tv txn db"
  by (auto simp: writes_only_def)

lemma writes_only_mono: "writes_only tv dbs f \<Longrightarrow> dbs \<subseteq> dbs' \<Longrightarrow> writes_only tv dbs' f"
  by (auto simp: writes_only_def)

lemma writes_only_bind:
  assumes "writes_only tv dbs f" "\<And>x. writes_only tv dbs (\<lambda>txn. g txn x)"
  shows "writes_only tv dbs (\<lambda>txn. sbind (f txn) g)"
  unfolding writes_only_def
proof (intro allI impI)
  fix txn txn' db
  assume "sbind (f txn) g = (txn', Inr ())" "db \<notin> dbs"
  then obtain s where "f txn = (s, Inr ())" "g s () = (txn', Inr ())"
    by (auto simp: sbind_Inr_iff)
  then have "tv txn' db = tv s db" "tv s db = tv txn db"
    using writes_onlyD [OF assms(1) _ \<open>db \<notin> dbs\<close>] writes_onlyD [OF assms(2) _ \<open>db \<notin> dbs\<close>] by blast+
  then show "tv txn' db = tv txn db" by simp
qed

lemma writes_only_for_each:
  assumes "\<And>x. x \<in> set xs \<Longrightarrow> writes_only tv dbs (f x)"
  shows "writes_only tv dbs (for_each f xs)"
  using assms
proof (induction xs)
  case Nil
  then show ?case by (simp add: writes_only_def)
next
  case (Cons x xs)
  have unfold: "for_each f (x # xs) = (\<lambda>s. sbind (f x s) (\<lambda>s' _. for_each f xs s'))"
    by (rule ext) simp
  show ?case
    unfolding unfold by (rule writes_only_bind) (use Cons in simp_all)
qed

lemma writes_only_put_bytes:
  "lmdb_laws S ev tv \<Longrightarrow> db \<in> dbs \<Longrightarrow> writes_only tv dbs (put_bytes S db k bs)"
  unfolding writes_only_def by (intro allI impI, drule (1) put_bytes_view) auto

lemma writes_only_put_value:
  "lmdb_laws S ev tv \<Longrightarrow> db \<in> dbs \<Longrightarrow> writes_only tv dbs (put_value S c db k v)"
  unfolding writes_only_def by (intro allI impI, drule (1) put_value_view) auto

lemma writes_only_clear_db:
  "lmdb_laws S ev tv \<Longrightarrow> db \<in> dbs \<Longrightarrow> writes_only tv dbs (clear_db S db)"
  unfolding writes_only_def by (intro allI impI, drule (1) clear_db_view) auto

lemma writes_only_fail: "writes_only tv dbs (\<lambda>txn. (txn, Inl e))"
  and writes_only_skip: "writes_only tv dbs (\<lambda>txn. (txn, Inr ()))"
  by (simp_all add: writes_only_def)

lemma writes_only_if:
  "writes_only tv dbs f \<Longrightarrow> writes_only tv dbs g \<Longrightarrow>
   writes_only tv dbs (\<lambda>txn. if b then f txn else g txn)"
  by (cases b) simp_all

lemma writes_only_case_sum:
  "(\<And>e. writes_only tv dbs (\<lambda>txn. l txn e)) \<Longrightarrow> (\<And>x. writes_only tv dbs (\<lambda>txn. r txn x)) \<Longrightarrow>
   writes_only tv dbs (\<lambda>txn. case s of Inl e \<Rightarrow> l txn e | Inr x \<Rightarrow> r txn x)"
  by (cases s) simp_all

lemma writes_only_case_option:
  "writes_only tv dbs n \<Longrightarrow> (\<And>x. writes_only tv dbs (\<lambda>txn. j txn x)) \<Longrightarrow>
   writes_only tv dbs (\<lambda>txn. case opt of None \<Rightarrow> n txn | Some x \<Rightarrow> j txn x)"
  by (cases opt) simp_all

lemma writes_only_case_prod:
  "(\<And>a b. writes_only tv dbs (\<lambda>txn. p txn a b)) \<Longrightarrow>
   writes_only tv dbs (\<lambda>txn. case ab of (a, b) \<Rightarrow> p txn a b)"
  by (cases ab) simp_all

lemmas frame_rules [frame] = writes_only_bind writes_only_for_each writes_only_if
  writes_only_case_sum writes_only_case_option writes_only_case_prod writes_only_fail
  writes_only_skip

section \<open>Prefix scans over ordered keys\<close>

lemma prefix_not_less: "prefix p k \<Longrightarrow> \<not> k < (p :: bytes)"
  by (induction p arbitrary: k) (auto simp: prefix_def)

lemma prefix_between: "prefix p k2 \<Longrightarrow> \<not> k1 < p \<Longrightarrow> k1 \<le> k2 \<Longrightarrow> prefix p (k1 :: bytes)"
proof (induction p arbitrary: k1 k2)
  case (Cons x p)
  obtain k2' where k2: "k2 = x # k2'" "prefix p k2'" using Cons.prems(1) by (auto simp: prefix_def)
  obtain y k1' where k1: "k1 = y # k1'" using Cons.prems(2) by (cases k1) auto
  have "y = x" using Cons.prems(2,3) k1 k2 by auto
  with Cons.prems(2,3) k1 k2 Cons.IH [OF k2(2), of k1'] show ?case by auto
qed simp

lemma scan_prefix_filter:
  assumes "sorted_wrt (<) (map fst m)"
  shows "scan_prefix p f (map Inr m) = map_res f (map snd (filter (\<lambda>e. prefix p (fst e)) m))"
  using assms
proof (induction m)
  case (Cons e m)
  obtain k bs where e: "e = (k, bs)" by (cases e)
  have IH: "scan_prefix p f (map Inr m) = map_res f (map snd (filter (\<lambda>e. prefix p (fst e)) m))"
    using Cons by simp
  consider "k < p" | "\<not> k < p" "\<not> prefix p k" | "prefix p k" by blast
  then show ?case
  proof cases
    case 1
    then have "\<not> prefix p k" using prefix_not_less by blast
    with 1 e IH show ?thesis by simp
  next
    case 2
    have "\<not> prefix p (fst x)" if "x \<in> set m" for x
      using that Cons.prems e 2 prefix_between [of p "fst x" k] by (auto simp: less_imp_le)
    then have "filter (\<lambda>e. prefix p (fst e)) m = []" by (simp add: filter_empty_conv)
    with 2 e show ?thesis by simp
  next
    case 3
    with e IH prefix_not_less [OF 3] show ?thesis by simp
  qed
qed simp

section \<open>Saving a block\<close>

lemma index_transaction_view:
  assumes "lmdb_laws S ev tv" "index_transaction P S block bh (i, t) txn = (txn', Inr ())"
  shows "\<exists>h bs. tx_hash P t = Inr h \<and> i < 2 ^ 32 \<and>
    encode (cod_location S) \<lparr>tl_block_height = blk_height P block, tl_block_hash = bh,
      tl_tx_index = of_nat i, tl_family = tx_family P t\<rparr> = Inr bs \<and>
    tv txn' TX_INDEX = bt_insert h bs (tv txn TX_INDEX)"
proof -
  have i: "int i < 2 ^ 32"
    using assms(2) by (auto simp: index_transaction_def not_le split: if_splits)
  then obtain h where h: "tx_hash P t = Inr h"
    using assms(2) by (cases "tx_hash P t") (auto simp: index_transaction_def)
  let ?loc = "\<lparr>tl_block_height = blk_height P block, tl_block_hash = bh,
    tl_tx_index = of_nat i, tl_family = tx_family P t\<rparr>"
  obtain t1 t2 where 1: "put_value S (cod_location S) TX_INDEX h ?loc txn = (t1, Inr ())"
    and 2: "put_value S (cod_location S) WTX_INDEX h ?loc t1 = (t2, Inr ())"
    and 3: "for_each (\<lambda>(a, sent). put_value S (cod_address_location S) ADDRESS_TX_INDEX
                 (address_tx_key a (blk_height P block) (of_nat i) sent)
                 \<lparr>al_tx_hash = h, al_block_height = blk_height P block, al_block_hash = bh,
                  al_tx_index = of_nat i, al_sent = sent, al_family = tx_family P t\<rparr>)
               (transaction_addresses P t) t2 = (txn', Inr ())"
    using assms(2) i h by (auto simp: index_transaction_def Let_def sbind_Inr_iff)
  obtain bs where bs: "encode (cod_location S) ?loc = Inr bs"
    "tv t1 = (tv txn)(TX_INDEX := bt_insert h bs (tv txn TX_INDEX))"
    using put_value_view [OF assms(1) 1] by blast
  moreover have "tv t2 TX_INDEX = tv t1 TX_INDEX"
    using put_value_view [OF assms(1) 2] by auto
  moreover have "tv txn' TX_INDEX = tv t2 TX_INDEX"
    by (rule writes_onlyD [OF writes_only_for_each [of _ _ "{ADDRESS_TX_INDEX}"] 3])
      (auto intro: writes_only_put_value [OF assms(1)])
  ultimately show ?thesis using h i by auto
qed

lemma writes_only_index_transaction:
  assumes "lmdb_laws S ev tv"
  shows "writes_only tv {TX_INDEX, WTX_INDEX, ADDRESS_TX_INDEX} (index_transaction P S block bh x)"
  unfolding index_transaction_def Let_def case_prod_unfold
  by (intro frame writes_only_put_value [OF assms]) simp_all

lemma writes_only_index_block_transactions:
  assumes "lmdb_laws S ev tv"
  shows "writes_only tv {TX_INDEX, WTX_INDEX, ADDRESS_TX_INDEX} (index_block_transactions P S block)"
  unfolding index_block_transactions_def
  by (intro frame writes_only_index_transaction [OF assms])

lemma writes_only_index_miner_block:
  assumes "lmdb_laws S ev tv"
  shows "writes_only tv {MINER_BLOCK_INDEX} (index_miner_block P S block)"
  unfolding index_miner_block_def
  by (intro frame writes_only_put_value [OF assms]) simp_all

definition location_of ::
  "('tx, 'ldg, 'blk, 'z) block_api_scheme \<Rightarrow> 'blk \<Rightarrow> hash \<Rightarrow> nat \<times> 'tx \<Rightarrow> transaction_location" where
  "location_of P block bh x =
     \<lparr>tl_block_height = blk_height P block, tl_block_hash = bh,
      tl_tx_index = of_nat (fst x), tl_family = tx_family P (snd x)\<rparr>"

definition indexed_at ::
  "('tx, 'ldg, 'blk, 'z) block_api_scheme \<Rightarrow>
   ('env, 'txn, 'tx, 'hdr, 'acct, 'evt, 'utxo, 'prf, 'y) codec_api_scheme \<Rightarrow> 'blk \<Rightarrow> hash \<Rightarrow>
   (bytes, bytes) btree \<Rightarrow> nat \<times> 'tx \<Rightarrow> bool" where
  "indexed_at P S block bh table x \<longleftrightarrow>
     fst x < 2 ^ 32 \<and>
     (\<exists>h bs. tx_hash P (snd x) = Inr h \<and> bt_get table h = Some bs \<and>
       encode (cod_location S) (location_of P block bh x) = Inr bs)"

lemma for_each_index_view:
  assumes "lmdb_laws S ev tv"
  shows "for_each (index_transaction P S block bh) xs txn = (txn', Inr ()) \<Longrightarrow>
    distinct (map (\<lambda>x. tx_hash P (snd x)) xs) \<Longrightarrow>
    \<forall>x \<in> set xs. indexed_at P S block bh (tv txn' TX_INDEX) x"
proof (induction xs arbitrary: txn' rule: rev_induct)
  case (snoc x xs)
  obtain t1 where t1: "for_each (index_transaction P S block bh) xs txn = (t1, Inr ())"
    and "for_each (index_transaction P S block bh) [x] t1 = (txn', Inr ())"
    using snoc.prems(1) by (auto simp: for_each_append sbind_Inr_iff)
  then have last: "index_transaction P S block bh (fst x, snd x) t1 = (txn', Inr ())"
    by (auto simp: sbind_Inr_iff)
  obtain h bs where h: "tx_hash P (snd x) = Inr h" "fst x < 2 ^ 32"
    "encode (cod_location S) (location_of P block bh x) = Inr bs"
    "tv txn' TX_INDEX = bt_insert h bs (tv t1 TX_INDEX)"
    using index_transaction_view [OF assms last] by (auto simp: location_of_def)
  then have "indexed_at P S block bh (tv txn' TX_INDEX) x" by (simp add: indexed_at_def)
  moreover have "indexed_at P S block bh (tv txn' TX_INDEX) y" if y: "y \<in> set xs" for y
  proof -
    have "tx_hash P (snd y) \<noteq> Inr h" using snoc.prems(2) h(1) y by (force simp: image_iff)
    moreover have "indexed_at P S block bh (tv t1 TX_INDEX) y"
      using snoc.IH [OF t1] snoc.prems(2) y by simp
    ultimately show ?thesis using h(4) by (auto simp: indexed_at_def)
  qed
  ultimately show ?case by auto
qed simp

lemma save_block_view:
  assumes "lmdb_laws S ev tv" "save_block P S block env = (env', Inr ())"
  obtains bs h hb where "block_bytes P block = Inr bs" "blk_hash P block = Inr h"
    "encode (cod_header S) (blk_header P block) = Inr hb"
    "ev env' BLOCKS_BY_HEIGHT = bt_insert (height_key (blk_height P block)) bs (ev env BLOCKS_BY_HEIGHT)"
    "ev env' BLOCKS_BY_HASH = bt_insert h bs (ev env BLOCKS_BY_HASH)"
    "ev env' HEADERS_BY_HEIGHT = bt_insert (height_key (blk_height P block)) hb (ev env HEADERS_BY_HEIGHT)"
    "distinct (map (tx_hash P) (blk_transactions P block)) \<Longrightarrow>
       \<forall>x \<in> set (enumerate 0 (blk_transactions P block)). indexed_at P S block h (ev env' TX_INDEX) x"
proof -
  note laws = assms(1)
  obtain bs h where bs: "block_bytes P block = Inr bs" "blk_hash P block = Inr h"
    "validate_block_for_storage P block = Inr ()"
    using assms(2) by (auto simp: save_block_def rbind_def split: sum.splits)
  let ?k = "height_key (blk_height P block)"
  have run: "with_rw_txn S env (\<lambda>txn.
          sbind (put_bytes S BLOCKS_BY_HEIGHT ?k bs txn) (\<lambda>txn _.
          sbind (put_bytes S BLOCKS_BY_HASH h bs txn) (\<lambda>txn _.
          sbind (put_value S (cod_header S) HEADERS_BY_HEIGHT ?k (blk_header P block) txn) (\<lambda>txn _.
          sbind (index_block_transactions P S block txn) (\<lambda>txn _.
          index_miner_block P S block txn))))) = (env', Inr ())"
    using assms(2) bs by (simp add: save_block_def)
  obtain t0 t1 t2 t3 t4 t5 where v0: "tv t0 = ev env"
    and 1: "put_bytes S BLOCKS_BY_HEIGHT ?k bs t0 = (t1, Inr ())"
    and 2: "put_bytes S BLOCKS_BY_HASH h bs t1 = (t2, Inr ())"
    and 3: "put_value S (cod_header S) HEADERS_BY_HEIGHT ?k (blk_header P block) t2 = (t3, Inr ())"
    and 4: "index_block_transactions P S block t3 = (t4, Inr ())"
    and 5: "index_miner_block P S block t4 = (t5, Inr ())" and v5: "ev env' = tv t5"
    by (rule with_rw_txn_Inr [OF laws run]) (auto simp: sbind_Inr_iff)
  obtain hb where hb: "encode (cod_header S) (blk_header P block) = Inr hb"
    "tv t3 = (tv t2)(HEADERS_BY_HEIGHT := bt_insert ?k hb (tv t2 HEADERS_BY_HEIGHT))"
    using put_value_view [OF laws 3] by blast
  note views = put_bytes_view [OF laws 1] put_bytes_view [OF laws 2] hb(2)
    writes_onlyD [OF writes_only_index_block_transactions [OF laws] 4]
    writes_onlyD [OF writes_only_index_miner_block [OF laws] 5]
  have each: "for_each (index_transaction P S block h) (enumerate 0 (blk_transactions P block)) t3 =
      (t4, Inr ())"
    using 4 bs by (simp add: index_block_transactions_def)
  have "\<forall>x \<in> set (enumerate 0 (blk_transactions P block)). indexed_at P S block h (ev env' TX_INDEX) x"
    if "distinct (map (tx_hash P) (blk_transactions P block))"
  proof -
    have "map (\<lambda>x. tx_hash P (snd x)) (enumerate 0 (blk_transactions P block)) =
        map (tx_hash P) (blk_transactions P block)"
      by (metis (no_types, lifting) comp_apply list.map_comp map_eq_conv map_snd_enumerate)
    with for_each_index_view [OF laws each] that views(5) [of TX_INDEX] v5 show ?thesis by simp
  qed
  then show ?thesis
    using that [OF bs(1,2) hb(1)] views v0 v5 by simp
qed

lemma be_bytes_8_inj: "height_key h = height_key g \<longleftrightarrow> h = g"
  using be_bytes_inj [of 8 "unat h" "unat g"] u64_less [of h] u64_less [of g]
  by (auto simp: height_key_def intro: unsigned_word_eqI)

lemma load_block_by_height_view:
  assumes "lmdb_laws S ev tv"
  shows "load_block_by_height P S height env =
    (case bt_get (ev env BLOCKS_BY_HEIGHT) (height_key height) of
       None \<Rightarrow> Inr None
     | Some bs \<Rightarrow> rbind (decode_stored_block P bs) (\<lambda>block.
         if blk_height P block \<noteq> height
         then Inl (StorageIntegrity ''stored block height does not match height key'')
         else Inr (Some block)))"
  unfolding load_block_by_height_def
  by (rule with_ro_txn_view [OF assms]) (simp add: read_bytes_view [OF assms])

lemma load_block_by_hash_view:
  assumes "lmdb_laws S ev tv"
  shows "load_block_by_hash P S h env =
    (case bt_get (ev env BLOCKS_BY_HASH) h of
       None \<Rightarrow> Inr None
     | Some bs \<Rightarrow> rbind (decode_stored_block P bs) (\<lambda>block.
         rbind (map_err StorageCodec (blk_hash P block)) (\<lambda>g.
           if g \<noteq> h then Inl (StorageIntegrity ''stored block hash does not match hash key'')
           else Inr (Some block))))"
  unfolding load_block_by_hash_def
  by (rule with_ro_txn_view [OF assms]) (simp add: read_bytes_view [OF assms])

lemma ro_read_value_view:
  assumes "lmdb_laws S ev tv"
  shows "with_ro_txn S env (\<lambda>txn. read_value S c txn db k) =
    (case bt_get (ev env db) k of
       None \<Rightarrow> Inr None | Some bs \<Rightarrow> rbind (decode c bs) (\<lambda>v. Inr (Some v)))"
  by (rule with_ro_txn_view [OF assms]) (simp add: read_value_view [OF assms])

lemma load_indexed_transaction:
  assumes laws: "lmdb_laws S ev tv" and cod: "codec_ok (cod_location S)"
    and block: "load_block_by_height P S (blk_height P block) env = Inr (Some block)"
      "blk_hash P block = Inr bh"
    and i: "i < length (blk_transactions P block)"
    and ix: "indexed_at P S block bh (ev env TX_INDEX) (i, blk_transactions P block ! i)"
  shows "\<exists>h. tx_hash P (blk_transactions P block ! i) = Inr h \<and>
    load_protocol_transaction P S h env =
      Inr (Some (location_of P block bh (i, blk_transactions P block ! i), blk_transactions P block ! i))"
proof -
  let ?t = "blk_transactions P block ! i" and ?l = "location_of P block bh (i, blk_transactions P block ! i)"
  obtain h bs where h: "tx_hash P ?t = Inr h" "bt_get (ev env TX_INDEX) h = Some bs"
    "encode (cod_location S) ?l = Inr bs" "i < 2 ^ 32"
    using ix by (auto simp: indexed_at_def)
  then have "load_transaction_location S h env = Inr (Some ?l)"
    using decode_encode [OF cod h(3)]
    by (simp add: load_transaction_location_def ro_read_value_view [OF laws])
  moreover have "unat (of_nat i :: u32) = i"
    using h(4) by (simp add: unat_of_nat)
  ultimately show ?thesis
    using h(1) block i
    by (simp add: load_protocol_transaction_def transaction_at_def location_of_def Let_def)
qed

end
