(* ===== verification/Sample_Store.thy ===== *)
theory Sample_Store
  imports Storage_Laws
begin

text \<open>
  A concrete store for the sample chain: the environment and its transactions are the tables
  themselves, and the codecs write one byte per field. Codecs of types the examples do not store
  refuse to encode.
\<close>

definition sample_lmdb_get :: "store \<Rightarrow> database \<Rightarrow> bytes \<Rightarrow> lmdb_error + bytes" where
  "sample_lmdb_get txn db k =
     (case bt_get (txn db) k of None \<Rightarrow> Inl LmdbNotFound | Some v \<Rightarrow> Inr v)"

definition no_codec :: "'a codec" where
  "no_codec = ((\<lambda>_. Inl (IoOther 0)), (\<lambda>_. Inl (IoOther 0)))"

fun dec_u64 :: "bytes \<Rightarrow> io_error + u64" where
  "dec_u64 [b] = Inr (ucast b)"
| "dec_u64 _ = Inl (IoOther 1)"

definition codec_u64 :: "u64 codec" where
  "codec_u64 = ((\<lambda>n. if n < 256 then Inr [ucast n] else Inl (IoOther 0)), dec_u64)"

fun dec_u8 :: "bytes \<Rightarrow> io_error + u8" where
  "dec_u8 [b] = Inr b"
| "dec_u8 _ = Inl (IoOther 1)"

definition codec_u8 :: "u8 codec" where
  "codec_u8 = ((\<lambda>n. Inr [n]), dec_u8)"

definition enc_location :: "transaction_location \<Rightarrow> io_error + bytes" where
  "enc_location l =
     (if tl_block_height l < 256 \<and> tl_tx_index l < 256
      then Inr (ucast (tl_block_height l) # ucast (tl_tx_index l) #
                (case tl_family l of FamilyBatchTransfer \<Rightarrow> 0 | FamilyQCash \<Rightarrow> 1) # tl_block_hash l)
      else Inl (IoOther 0))"

fun dec_location :: "bytes \<Rightarrow> io_error + transaction_location" where
  "dec_location (h # i # f # bh) =
     Inr \<lparr>tl_block_height = ucast h, tl_block_hash = bh, tl_tx_index = ucast i,
          tl_family = (if f = 0 then FamilyBatchTransfer else FamilyQCash)\<rparr>"
| "dec_location _ = Inl (IoOther 1)"

definition enc_address_location :: "address_transaction_location \<Rightarrow> io_error + bytes" where
  "enc_address_location l = Inr (of_bool (al_sent l) # al_tx_hash l)"

definition enc_header :: "sample_header \<Rightarrow> io_error + bytes" where
  "enc_header h =
     (if sh_height h < 256 then Inr [sh_id h, sh_parent h, ucast (sh_height h)] else Inl (IoOther 0))"

fun dec_header :: "bytes \<Rightarrow> io_error + sample_header" where
  "dec_header [i, p, h] = Inr (SHdr i p (ucast h))"
| "dec_header _ = Inl (IoOther 1)"

definition enc_account :: "sample_account \<Rightarrow> io_error + bytes" where
  "enc_account a =
     (if sa_balance a < 256 then Inr [sa_address a, ucast (sa_balance a)] else Inl (IoOther 0))"

fun dec_account :: "bytes \<Rightarrow> io_error + sample_account" where
  "dec_account [a, b] = Inr (SAcct a (ucast b))"
| "dec_account _ = Inl (IoOther 1)"

text \<open>The sample ledger's own operations for the store.\<close>

definition sample_ledger_insert :: "sample_ledger \<Rightarrow> sample_block \<Rightarrow> sample_ledger \<times> (ledger_error + unit)" where
  "sample_ledger_insert l b = (SLdg (sl_applied l) (sl_chain l @ [b]), Inr ())"

definition sample_store ::
  "(store, store, sample_tx, sample_header, sample_account, u8, unit, unit, sample_ledger, sample_block)
   store_api" where
  "sample_store = \<lparr>
     begin_ro_txn = Inr, begin_rw_txn = Inr, txn_get = sample_lmdb_get,
     txn_iter = (\<lambda>txn db. Inr (map Inr (txn db))),
     txn_put = (\<lambda>txn db k v. (txn(db := bt_insert k v (txn db)), Inr ())),
     txn_del = (\<lambda>txn db k. (txn(db := bt_remove k (txn db)), Inr ())),
     txn_clear_db = (\<lambda>txn db. (txn(db := []), Inr ())),
     txn_commit = (\<lambda>env txn. (txn, Inr ())),
     txn_abort = (\<lambda>env txn. env),
     env_sync = (\<lambda>env. (env, Inr ())),
     cod_version = codec_u8, cod_height = codec_u64,
     cod_location = (enc_location, dec_location),
     cod_address_location = (enc_address_location, \<lambda>_. Inl (IoOther 0)),
     cod_miner_location = ((\<lambda>l. Inr (ml_block_hash l)), \<lambda>_. Inl (IoOther 0)),
     cod_header = (enc_header, dec_header), cod_account = (enc_account, dec_account),
     cod_accounts = ((\<lambda>m. Inr []), \<lambda>_. Inl (IoOther 0)),
     cod_event = codec_u8, cod_event_id = ((\<lambda>h. Inr h), Inr),
     cod_issue = no_codec, cod_context = no_codec,
     cod_state = ((\<lambda>s. Inr []), \<lambda>_. Inr \<lparr>sp_qcash_utxos = (), sp_events_by_block = []\<rparr>),
     ev_validate = (\<lambda>e. True), ev_id = (\<lambda>e. Inr [e]), ev_block_hash = (\<lambda>e. [e]),
     ev_block_height = (\<lambda>e. 0), ev_event_index = (\<lambda>e. 0), ev_transaction_hash = (\<lambda>e. None),
     ev_kind = (\<lambda>e. EvCoinbasePaid [9]),
     ledger_new = SLdg [] [], ledger_apply_block = sample_ledger_insert,
     ldg_replace_accounts = (\<lambda>l m. (SLdg (map (sa_address \<circ> snd) m) (sl_chain l), Inr ())),
     ldg_qcash_utxos = (\<lambda>l. ()), ldg_events_by_block = (\<lambda>l. []),
     ldg_set_protocol_state = (\<lambda>u e l. l), ldg_events_for_block = (\<lambda>l h. []),
     ldg_restore_authenticated_headers = (\<lambda>l hs c. (l, Inr ())),
     ldg_attach_stored_block_body = sample_ledger_insert,
     ldg_chain_insert_block = sample_ledger_insert,
     ldg_validate_supply = (\<lambda>l. Inr ()), ldg_state_root = (\<lambda>l. [1]),
     ldg_protocol_state_root = (\<lambda>l. Inr [1])\<rparr>"

definition empty_store :: store where
  "empty_store = (\<lambda>_. [])"

end
