(* ===== verification/Sample_Node.thy ===== *)
theory Sample_Node
  imports Node Sample_Store
begin

text \<open>
  A concrete instance of the node's interface over the sample chain: the fork graph is the list
  of the blocks inserted into it, and the nonce of a block is its one-byte id. A second store,
  which accepts every write and keeps nothing, serves examples that do not read back.
\<close>

definition sample_fork_node :: "sample_block \<Rightarrow> sample_block fork_node" where
  "sample_fork_node b = \<lparr>fn_hash = [sb_id b], fn_parent = [sb_parent b], fn_height = sb_height b,
     fn_block = b, fn_cumulative_work = [sb_height b]\<rparr>"

definition sample_fc_get :: "sample_block list \<Rightarrow> hash \<Rightarrow> sample_block option" where
  "sample_fc_get fc h = find (\<lambda>b. [sb_id b] = h) fc"

definition sample_fc_insert ::
  "sample_block \<Rightarrow> sample_block list \<Rightarrow> sample_block list \<times> (fork_choice_error + hash)" where
  "sample_fc_insert b fc =
     (if sample_fc_get fc [sb_id b] \<noteq> None then (fc, Inl ForkDuplicateBlock)
      else if fc \<noteq> [] \<and> sample_fc_get fc [sb_parent b] = None then (fc, Inl ForkMissingParent)
      else (fc @ [b], Inr [sb_id b]))"

fun sample_best :: "sample_block list \<Rightarrow> sample_block option" where
  "sample_best [] = None"
| "sample_best (b # bs) =
     (case sample_best bs of
        None \<Rightarrow> Some b
      | Some c \<Rightarrow> Some (if sb_height c \<le> sb_height b then b else c))"

fun sample_ancestors :: "nat \<Rightarrow> sample_block list \<Rightarrow> hash \<Rightarrow> sample_block list" where
  "sample_ancestors 0 fc h = []"
| "sample_ancestors (Suc k) fc h =
     (case sample_fc_get fc h of
        None \<Rightarrow> []
      | Some b \<Rightarrow> b # (if sb_height b = 0 then [] else sample_ancestors k fc [sb_parent b]))"

definition sample_branch :: "sample_block list \<Rightarrow> hash \<Rightarrow> hash \<Rightarrow> sample_block list option" where
  "sample_branch fc ancestor tip =
     Some (rev (takeWhile (\<lambda>b. [sb_id b] \<noteq> ancestor) (sample_ancestors (length fc) fc tip)))"

definition sample_texts :: error_texts where
  "sample_texts = \<lparr>txt_codec = (\<lambda>_. ''codec''), txt_transaction = (\<lambda>_. ''transaction''),
     txt_ledger = (\<lambda>_. ''ledger''), txt_consensus = (\<lambda>_. ''consensus''), txt_genesis = (\<lambda>_. ''genesis''),
     txt_fork_choice = (\<lambda>_. ''fork''), txt_rollback_proof = (\<lambda>_. ''proof''),
     txt_lmdb = (\<lambda>_. ''lmdb''), txt_io = (\<lambda>_. ''io'')\<rparr>"

definition sample_genesis :: sample_block where
  "sample_genesis = SBlk 7 0 0 []"

definition sample_node ::
  "(sample_tx, sample_ledger, sample_block, sample_header, sample_account, sample_block list, unit, unit) node_api" where
  "sample_node = chain_api.extend sample_api (node_api.fields
     []
     sample_fc_insert
     (\<lambda>h fc. (fc, Inl (ForkOther 0)))
     (\<lambda>fc. map_option sample_fork_node (sample_best fc))
     (\<lambda>fc h. sample_fc_get fc h \<noteq> None)
     (\<lambda>fc h. map_option sample_fork_node (sample_fc_get fc h))
     (\<lambda>fc h. map (\<lambda>b. [sb_id b]) (sample_ancestors (length fc) fc h))
     sample_branch
     (\<lambda>fc h n. map_option (\<lambda>b. [sb_id b]) (find (\<lambda>b. sb_height b = n) (sample_ancestors (length fc) fc h)))
     (\<lambda>h fc. (fc, Inr 0))
     (\<lambda>l fc h. False)
     (\<lambda>l b. Inr (SLdg (sl_applied l) (sl_chain l @ [b]), [1]))
     (\<lambda>l b. Inr [1])
     (\<lambda>accounts. Inr (SLdg [] []))
     (\<lambda>l. Inr 1)
     (\<lambda>l a. None)
     (\<lambda>l a. None)
     sa_balance
     (\<lambda>a. [])
     (\<lambda>a h. sa_balance a)
     (\<lambda>a h. 0)
     (\<lambda>t. Some (st_bounty t))
     (\<lambda>c. 1)
     (\<lambda>c b. Inr ())
     (\<lambda>c b p. Inr ())
     (\<lambda>c b. Inr [sb_id b])
     (\<lambda>c h d. if hd h = 3 then Inr () else Inl (ConsensusOther 0))
     1
     2
     (\<lambda>h. False)
     (\<lambda>d ws. Some d)
     (\<lambda>b. 1)
     (\<lambda>d b. b)
     (\<lambda>b. ucast (sb_id b))
     (\<lambda>k b. SBlk (ucast k) (sb_parent b) (sb_height b) (sb_txs b))
     (\<lambda>r b. b)
     (\<lambda>b. Some 1)
     (\<lambda>b i. Inr ())
     (\<lambda>p. 0)
     (\<lambda>b. Inl (RollbackProofError 0))
     1
     (Inr (SLdg [] [sample_genesis]))
     [7]
     (\<lambda>a. Inr sample_genesis)
     (\<lambda>l h. Inr 0)
     (\<lambda>h p m d s. Inr (SBlk 0 (hd p) h []))
     (\<lambda>l. Inr (sl_applied l))
     2
     1
     sample_texts)"

definition null_store ::
  "(unit, unit, sample_tx, sample_header, sample_account, u8, unit, unit, sample_ledger, sample_block) store_api" where
  "null_store = \<lparr>
     begin_ro_txn = Inr, begin_rw_txn = Inr, txn_get = (\<lambda>txn db k. Inl LmdbNotFound),
     txn_iter = (\<lambda>txn db. Inr []), txn_put = (\<lambda>txn db k v. (txn, Inr ())),
     txn_del = (\<lambda>txn db k. (txn, Inr ())), txn_clear_db = (\<lambda>txn db. (txn, Inr ())),
     txn_commit = (\<lambda>env txn. (txn, Inr ())), txn_abort = (\<lambda>env txn. env),
     env_sync = (\<lambda>env. (env, Inr ())),
     cod_version = codec_u8, cod_height = codec_u64,
     cod_location = (enc_location, dec_location),
     cod_address_location = (enc_address_location, \<lambda>_. Inl (IoOther 0)),
     cod_miner_location = ((\<lambda>l. Inr (ml_block_hash l)), \<lambda>_. Inl (IoOther 0)),
     cod_header = (enc_header, dec_header), cod_account = (enc_account, dec_account),
     cod_accounts = ((\<lambda>m. Inr []), \<lambda>_. Inl (IoOther 0)),
     cod_event = codec_u8, cod_event_id = ((\<lambda>h. Inr h), Inr),
     cod_issue = no_codec, cod_context = no_codec,
     cod_state = ((\<lambda>s. Inr []), \<lambda>_. Inr \<lparr>sp_qcash_utxos = (), sp_events_by_block = []\<rparr>),
     ev_validate = (\<lambda>e. True), ev_id = (\<lambda>e. Inr [e]), ev_block_hash = (\<lambda>e. [e]),
     ev_block_height = (\<lambda>e. 0), ev_event_index = (\<lambda>e. 0), ev_transaction_hash = (\<lambda>e. None),
     ev_kind = (\<lambda>e. EvCoinbasePaid [9]),
     ledger_new = SLdg [] [], ledger_apply_block = sample_ledger_insert,
     ldg_replace_accounts = (\<lambda>l m. (SLdg (map (sa_address \<circ> snd) m) (sl_chain l), Inr ())),
     ldg_qcash_utxos = (\<lambda>l. ()), ldg_events_by_block = (\<lambda>l. []),
     ldg_set_protocol_state = (\<lambda>u e l. l), ldg_events_for_block = (\<lambda>l h. []),
     ldg_restore_authenticated_headers = (\<lambda>l hs c. (l, Inr ())),
     ldg_attach_stored_block_body = sample_ledger_insert,
     ldg_chain_insert_block = sample_ledger_insert,
     ldg_validate_supply = (\<lambda>l. Inr ()), ldg_state_root = (\<lambda>l. [1]),
     ldg_protocol_state_root = (\<lambda>l. Inr [1])\<rparr>"

text \<open>A node started on the empty store.\<close>

definition sample_start ::
  "(sample_tx, sample_ledger, sample_block, sample_header, sample_account, sample_block list, unit, unit, unit, unit) node" where
  "sample_start = (case snd (init_or_load sample_node null_store () ()) of Inr n \<Rightarrow> n)"

lemma sample_start_loads: "\<exists>env. init_or_load sample_node null_store () () = (env, Inr sample_start)"
proof -
  have "\<not> isl (snd (init_or_load sample_node null_store () () ::
      unit \<times> (node_error + (sample_tx, sample_ledger, sample_block, sample_header, sample_account,
        sample_block list, unit, unit, unit, unit) node)))"
    by code_simp
  then show ?thesis
    by (cases "snd (init_or_load sample_node null_store () () ::
      unit \<times> (node_error + (sample_tx, sample_ledger, sample_block, sample_header, sample_account,
        sample_block list, unit, unit, unit, unit) node))")
      (auto simp: sample_start_def prod_eq_iff)
qed

theorem mine_prepared_block_first_witness:
  "nonce_laws sample_node \<and>
   mine_prepared_block sample_node (SBlk 0 7 1 []) () \<lparr>mc_difficulty = 1, mc_start_nonce = 1, mc_max_attempts = 5, mc_transaction_limit = 0, mc_min_fee_rate = 0\<rparr> =
     Inr (Some \<lparr>mr_block = SBlk 3 7 1 [], mr_attempts = 3\<rparr>)"
proof -
  let ?config = "\<lparr>mc_difficulty = 1, mc_start_nonce = 1, mc_max_attempts = 5, mc_transaction_limit = 0, mc_min_fee_rate = 0\<rparr> :: mining_config"
  have laws: "nonce_laws sample_node"
    by (simp add: nonce_laws_def sample_node_def chain_api.defs node_api.defs)
  have hashes: "\<forall>k. \<exists>h. proof_of_work_hash sample_node () (attempt_block sample_node ?config (SBlk 0 7 1 []) k) = Inr h"
    by (simp add: sample_node_def chain_api.defs node_api.defs)
  have "map_option (attempt_result sample_node ?config (SBlk 0 7 1 []))
      (find (attempt_passes sample_node () ?config (SBlk 0 7 1 [])) [0..<5]) =
      Some \<lparr>mr_block = SBlk 3 7 1 [], mr_attempts = 3\<rparr>"
    by code_simp
  with mine_prepared_block_first [OF laws hashes] laws show ?thesis by simp
qed

end
