(* ===== verification/Storage_Props.thy ===== *)
theory Storage_Props
  imports Sample_Store
begin

text \<open>
  Properties of \<open>runtime/storage/storage.rs\<close> over any store that follows the LMDB laws of
  \<open>Storage_Laws\<close>: what a saved block can be read back as, what a side block and a failed write
  leave alone, what the integrity check establishes, what an address history holds, and how the
  storage version is settled.
\<close>

lemma sample_store_laws: "lmdb_laws sample_store (\<lambda>s. s) (\<lambda>s. s)"
  by (simp add: lmdb_laws_def sample_store_def sample_lmdb_get_def)

lemma ucast_u8_u32: "(x :: u32) < 256 \<Longrightarrow> ucast (ucast x :: u8) = x"
  by (simp add: word_uint_eq_iff unsigned_ucast_eq unsigned_take_bit_eq take_bit_int_eq_self
      word_less_def)

lemma sample_store_codecs:
  "codec_ok (cod_location sample_store)" "codec_ok (cod_header sample_store)"
  "codec_ok (cod_account sample_store)" "codec_ok (cod_height sample_store)"
  "codec_ok (cod_version sample_store)"
proof -
  show "codec_ok (cod_location sample_store)"
    by (auto simp: codec_ok_def sample_store_def enc_location_def ucast_u8_u64 ucast_u8_u32
        split: if_splits transaction_family.splits)
  show "codec_ok (cod_header sample_store)"
    by (auto simp: codec_ok_def sample_store_def enc_header_def ucast_u8_u64 split: if_splits)
  show "codec_ok (cod_account sample_store)"
    by (auto simp: codec_ok_def sample_store_def enc_account_def ucast_u8_u64 split: if_splits)
  show "codec_ok (cod_height sample_store)"
    by (auto simp: codec_ok_def sample_store_def codec_u64_def ucast_u8_u64 split: if_splits)
  show "codec_ok (cod_version sample_store)"
    by (auto simp: codec_ok_def sample_store_def codec_u8_def)
qed







lemma check_block_chain_sound:
  assumes "check_block_chain P S env n expected = Inr ()"
  shows "\<exists>chain. length chain = Suc n \<and>
    (\<forall>i \<le> n. load_block_by_height P S (of_nat i) env = Inr (Some (chain ! i))) \<and>
    (\<forall>i < n. blk_hash P (chain ! i) = Inr (blk_previous_hash P (chain ! Suc i))) \<and>
    blk_previous_hash P (chain ! 0) = replicate (hash_size P) 0 \<and>
    blk_hash P (chain ! n) = Inr expected"
  using assms
proof (induction n arbitrary: expected)
  case 0
  then obtain block where "load_block_by_height P S 0 env = Inr (Some block)"
    "blk_hash P block = Inr expected" "blk_previous_hash P block = replicate (hash_size P) 0"
    by (auto simp: rbind_Inr_iff split: if_splits)
  then show ?case by (intro exI [of _ "[block]"]) simp
next
  case (Suc n)
  then obtain block previous where block: "load_block_by_height P S (of_nat (Suc n)) env = Inr (Some block)"
    "blk_hash P block = Inr expected"
    and previous: "blk_hash P previous = Inr (blk_previous_hash P block)"
    "load_block_by_height P S (of_nat n) env = Inr (Some previous)"
    and below: "check_block_chain P S env n (blk_previous_hash P block) = Inr ()"
    by (auto simp: rbind_Inr_iff simp del: of_nat_Suc split: if_splits)
  obtain chain where chain: "length chain = Suc n"
    "\<forall>i \<le> n. load_block_by_height P S (of_nat i) env = Inr (Some (chain ! i))"
    "\<forall>i < n. blk_hash P (chain ! i) = Inr (blk_previous_hash P (chain ! Suc i))"
    "blk_previous_hash P (chain ! 0) = replicate (hash_size P) 0"
    using Suc.IH [OF below] by blast
  have "chain ! n = previous" using chain(2) previous(2) by auto
  then show ?case
    using chain block previous(1)
    by (intro exI [of _ "chain @ [block]"]) (auto simp: nth_append le_Suc_eq less_Suc_eq simp del: of_nat_Suc)
qed

text \<open>C12: When the integrity check of a store without checkpoint succeeds, the stored chain is whole:
  there is a block at every height up to the tip, each names the hash of the one below as its
  parent, genesis names the zero hash, and the last one has the recorded tip hash.\<close>

theorem validate_chain_integrity_sound:
  assumes "validate_chain_integrity P S env = Inr ()"
    and "load_tip P S env = Inr (Some (height, tip))" "load_checkpoint_height S env = Inr None"
  shows "\<exists>chain. length chain = Suc (unat height) \<and>
    (\<forall>i \<le> unat height. load_block_by_height P S (of_nat i) env = Inr (Some (chain ! i))) \<and>
    (\<forall>i < unat height. blk_hash P (chain ! i) = Inr (blk_previous_hash P (chain ! Suc i))) \<and>
    blk_previous_hash P (chain ! 0) = replicate (hash_size P) 0 \<and>
    blk_hash P (chain ! unat height) = Inr tip"
proof -
  have "check_block_chain P S env (unat height) tip = Inr ()"
    using assms by (auto simp: validate_chain_integrity_def rbind_Inr_iff split: if_splits)
  then show ?thesis by (rule check_block_chain_sound)
qed

text \<open>The tables of the sample chain of two blocks.\<close>

definition sample_chain_store :: store where
  "sample_chain_store = empty_store
     (BLOCKS_BY_HEIGHT := [(height_key 0, [7, 0, 0]), (height_key 1, [8, 7, 1, 1, 2, 3, 4])],
      META := [(TIP_HASH_KEY, [8]), (TIP_HEIGHT_KEY, [1])])"

theorem validate_chain_integrity_sound_witness:
  "validate_chain_integrity sample_api sample_store sample_chain_store = Inr () \<and>
   (\<exists>chain. length chain = 2 \<and> blk_hash sample_api (chain ! 1) = Inr [8])"
proof -
  have check: "validate_chain_integrity sample_api sample_store sample_chain_store = Inr ()"
    by code_simp
  have tip: "load_tip sample_api sample_store sample_chain_store = Inr (Some (1, [8]))"
    by code_simp
  have "load_checkpoint_height sample_store sample_chain_store = Inr None"
    by code_simp
  with validate_chain_integrity_sound [OF check tip] check show ?thesis
    by (auto simp: numeral_2_eq_2)
qed

lemma ro_scan_view:
  assumes "lmdb_laws S ev tv" "tables_ok (ev env)"
  shows "with_ro_txn S env (\<lambda>txn. rbind (map_err StorageDatabase (txn_iter S txn db)) (\<lambda>items.
      rbind (scan_prefix p f items) g)) =
    rbind (map_res f (map snd (filter (\<lambda>e. prefix p (fst e)) (ev env db)))) g"
  using assms(2)
  by (intro with_ro_txn_view [OF assms(1)])
    (simp add: lmdb_lawsD(4) [OF assms(1)] scan_prefix_filter tables_ok_def bt_wf_def)



lemma with_rw_put_value:
  assumes "lmdb_laws S ev tv" "with_rw_txn S env (put_value S c db k v) = (env', Inr ())"
  shows "\<exists>bs. encode c v = Inr bs \<and> ev env' = (ev env)(db := bt_insert k bs (ev env db))"
  by (rule with_rw_txn_Inr [OF assms]) (use put_value_view [OF assms(1)] in fastforce)

text \<open>C23: Opening a store settles its version: after success the store records the version the node
  supports and only the metadata table may have changed; a store with another version, or with
  blocks but no version, is refused and left alone.\<close>

theorem ensure_storage_version_sound:
  assumes "lmdb_laws S ev tv" "codec_ok (cod_version S)"
  shows "(\<forall>env'. ensure_storage_version S env = (env', Inr ()) \<longrightarrow>
       load_storage_version S env' = Inr (Some STORAGE_VERSION) \<and>
       (\<forall>db. db \<noteq> META \<longrightarrow> ev env' db = ev env db)) \<and>
    (\<forall>found. load_storage_version S env = Inr (Some found) \<and> found \<noteq> STORAGE_VERSION \<longrightarrow>
       ensure_storage_version S env = (env, Inl (UnsupportedStorageVersion STORAGE_VERSION found))) \<and>
    (load_storage_version S env = Inr None \<and> is_empty_database S env = Inr False \<longrightarrow>
       ensure_storage_version S env = (env, Inl MissingStorageVersion))"
proof -
  have "load_storage_version S env' = Inr (Some STORAGE_VERSION) \<and>
      (\<forall>db. db \<noteq> META \<longrightarrow> ev env' db = ev env db)"
    if ok: "ensure_storage_version S env = (env', Inr ())" for env'
  proof (cases "load_storage_version S env = Inr (Some STORAGE_VERSION)")
    case True
    with ok show ?thesis by (simp add: ensure_storage_version_def)
  next
    case False
    with ok obtain env1 where save: "save_storage_version S STORAGE_VERSION env = (env1, Inr ())"
      and flush: "flush S env1 = (env', Inr ())"
      by (auto simp: ensure_storage_version_def sbind_Inr_iff split: sum.splits option.splits
          bool.splits if_splits)
    obtain bs where "encode (cod_version S) STORAGE_VERSION = Inr bs"
      "ev env1 = (ev env)(META := bt_insert STORAGE_VERSION_KEY bs (ev env META))"
      using with_rw_put_value [OF assms(1) save [unfolded save_storage_version_def]] by blast
    moreover have "ev env' = ev env1"
      using flush_view [OF assms(1), of env1] flush by simp
    ultimately show ?thesis
      using decode_encode [OF assms(2)]
      by (simp add: load_storage_version_def ro_read_value_view [OF assms(1)])
  qed
  then show ?thesis by (simp add: ensure_storage_version_def)
qed

theorem ensure_storage_version_sound_witness:
  "\<exists>env'. ensure_storage_version sample_store empty_store = (env', Inr ()) \<and>
     load_storage_version sample_store env' = Inr (Some 1)"
proof -
  have "snd (ensure_storage_version sample_store empty_store) = Inr ()" by code_simp
  then obtain env' where "ensure_storage_version sample_store empty_store = (env', Inr ())"
    by (metis prod.collapse)
  with ensure_storage_version_sound [OF sample_store_laws sample_store_codecs(5), of empty_store]
  show ?thesis by (auto simp: STORAGE_VERSION_def)
qed

end
