(* ===== verification/Node_Props.thy ===== *)
theory Node_Props
  imports Sample_Node Storage_Props
begin

text \<open>
  Properties of the node as a whole: the invariant every reachable node satisfies, what happens
  to waiting blocks and to the requests for their parents, and what connecting a block, a
  reorganisation and the start-up leave behind.
\<close>

section \<open>The node's invariant\<close>

text \<open>
  Beside the orphan fields: the mempool is well formed, the pending compact blocks stay within
  their limit, and a cached snapshot is the snapshot of the ledger the node has now.
\<close>

definition core_ok where
  "core_ok P n \<longleftrightarrow>
     mempool_ok P (nd_mempool n) \<and> max_bytes (mp_config (nd_mempool n)) \<noteq> - 1 \<and>
     bt_wf (nd_pending_compact_blocks n) \<and>
     length (nd_pending_compact_blocks n) \<le> MAX_PENDING_COMPACT_BLOCKS \<and>
     (\<forall>tip bs. nd_snapshot_cache n = Some (tip, bs) \<longrightarrow>
        node_tip_hash P n = Some tip \<and> snapshot_paqus_bytes P (nd_ledger n) = Inr bs)"

definition node_ok where
  "node_ok P n \<longleftrightarrow> core_ok P n \<and> orphan_ok P {} n \<and> requests_ok n"

lemma core_ok_admit:
  "core_ok P n \<Longrightarrow> core_ok P (n\<lparr>nd_mempool := fst (insert_validated P now (nd_ledger n) t (nd_mempool n))\<rparr>)"
  using insert_validated_ok [of P "nd_mempool n" now "nd_ledger n" t]
  by (simp add: core_ok_def node_tip_hash_def)

lemma core_ok_confirm:
  "core_ok P n \<Longrightarrow> core_ok P (n\<lparr>nd_mempool := fst (remove_confirmed P b (nd_mempool n))\<rparr>)"
  using remove_confirmed_ok [of P "nd_mempool n" b] by (simp add: core_ok_def node_tip_hash_def)

interpretation core_frame: node_frame P b "core_ok P" for P b
  by unfold_locales
    (erule core_ok_admit | erule core_ok_confirm | simp add: core_ok_def node_tip_hash_def)+

lemma core_ok_more:
  fixes n n' :: "('tx, 'ldg, 'blk, 'chdr, 'acct, 'fc, 'cons, 'env, 'gen, 'cb, 'y) node_scheme"
  shows "orphan_state.more n = orphan_state.more n' \<Longrightarrow> core_ok P n = core_ok P n'"
  by (cases n; cases n') (simp add: core_ok_def node_tip_hash_def)

lemma core_ok_prune [simp]: "core_ok P (prune_expired_orphans P' tip now n) = core_ok P n"
  by (rule core_ok_more) simp

lemma process_parents_ok:
  assumes "node_ok P n"
  shows "node_ok P (fst (process_parents P S now parents n)) \<and> snd (process_parents P S now parents n) = Inr ()"
  using assms
proof (induction P S now parents n rule: process_parents.induct)
  case (2 P S now parent parents n)
  show ?case
  proof (cases "bt_get (orphan_children_by_parent n) parent")
    case None
    with 2 show ?thesis by simp
  next
    case (Some children)
    let ?n = "n\<lparr>orphan_children_by_parent := bt_remove parent (orphan_children_by_parent n)\<rparr>"
    have ok: "orphan_ok P (set children) ?n" "distinct children"
      using "2.prems" orphan_ok_detach [OF _ Some, of P] by (simp_all add: node_ok_def)
    have "requests_ok ?n" "core_ok P ?n"
      using "2.prems" core_ok_more [of ?n n P] by (simp_all add: node_ok_def requests_ok_def)
    obtain n1 parents1 where eq: "process_children P (node_known P) (node_tip_height P)
        (apply_known_parent_block P S now) now children parents ?n = (n1, Inr parents1)"
      and "orphan_ok P {} n1" "requests_ok n1"
      using node_orphans.process_children_ok [OF ok \<open>requests_ok ?n\<close>] by blast
    moreover have "core_ok P n1"
      using node_orphans.process_children_frame [where I = "core_ok P" and P = P,
          OF core_frame.frame_apply_known core_ok_more \<open>core_ok P ?n\<close>] eq
      by (metis fst_conv)
    ultimately have "node_ok P n1" by (simp add: node_ok_def)
    with "2.IH"(2) [OF Some eq] eq Some show ?thesis by simp
  qed
qed simp

lemma node_ok_cong:
  assumes "orphan_state.truncate n' = orphan_state.truncate n" "core_ok P n'" "node_ok P n"
  shows "node_ok P n'"
  using assms orphan_ok_truncate [OF assms(1), of P "{}"] requests_ok_truncate [OF assms(1)]
  by (simp add: node_ok_def)

lemma node_ok_failures [simp]: "node_ok P (n\<lparr>nd_block_validation_failures_total := k\<rparr>) = node_ok P n"
  by (simp add: node_ok_def core_ok_def node_tip_hash_def orphan_ok_def indexed_under_def requests_ok_def)

lemma apply_known_ok: "node_ok P n \<Longrightarrow> node_ok P (fst (apply_known_parent_block P S now block n))"
  by (rule node_ok_cong [OF keeps_apply_known])
    (auto simp: node_ok_def intro: core_frame.frame_apply_known)

lemma prune_node_ok: "node_ok P n \<Longrightarrow> node_ok P (prune_expired_orphans P' tip now n)"
  by (simp add: node_ok_def prune_ok)

lemma process_orphans_ok:
  "node_ok P n \<Longrightarrow> node_ok P (fst (process_orphans_for_parent P S now h n)) \<and>
     snd (process_orphans_for_parent P S now h n) = Inr ()"
  unfolding process_orphans_for_parent_def by (intro process_parents_ok prune_node_ok)

lemma node_cache_orphan_block_ok: "node_ok P n \<Longrightarrow> node_ok P (fst (node_cache_orphan_block P now block n))"
proof -
  assume ok: "node_ok P n"
  obtain n' r where cache: "cache_orphan_block P (node_known P n) (node_tip_height P n) now block n = (n', r)"
    by fastforce
  have "orphan_ok P {} n'" using ok by (intro cache_orphan_block_ok [OF _ cache]) (simp_all add: node_ok_def)
  moreover have "core_ok P n'"
    using core_ok_more [OF cache_orphan_block_fields(1) [OF cache], of P] ok by (simp add: node_ok_def)
  moreover have "requests_ok n'"
    using cache_orphan_block_fields(2) [OF cache] ok by (simp add: node_ok_def)
  ultimately show ?thesis by (simp add: node_cache_orphan_block_def cache node_ok_def)
qed

lemma apply_block_ok:
  assumes "node_ok P n"
  shows "node_ok P (fst (apply_block P S now block n))"
proof -
  let ?n = "prune_expired_orphans P (node_tip_height P n) now n"
  obtain n1 r where known: "apply_known_parent_block P S now block ?n = (n1, r)" by fastforce
  have ok: "node_ok P n1"
    using apply_known_ok [OF prune_node_ok [OF assms]] known by (metis fst_conv)
  have "node_ok P (fst (sbind (n1, map_err NodeCodec (blk_hash P block))
      (\<lambda>n h. process_orphans_for_parent P S now h n)))"
    by (rule sbind_invariant) (use ok in \<open>simp_all add: process_orphans_ok\<close>)
  with ok node_cache_orphan_block_ok [OF ok] show ?thesis
    by (simp add: apply_block_def known split: sum.split)
qed

lemma submit_ok:
  assumes "node_ok P n"
  shows "node_ok P (fst (submit_protocol_transaction P now t n))"
  by (rule node_ok_cong [OF _ _ assms])
    (use assms in \<open>simp_all add: node_ok_def submit_protocol_transaction_def on_mempool_def
      case_prod_beta truncate_iff core_ok_admit\<close>)

lemma node_ok_sbind:
  "node_ok P (fst m) \<Longrightarrow> (\<And>n x. node_ok P n \<Longrightarrow> node_ok P (fst (f n x))) \<Longrightarrow> node_ok P (fst (sbind m f))"
  by (rule sbind_invariant)

lemma core_ok_expire:
  "core_ok P n \<Longrightarrow> core_ok P (n\<lparr>nd_mempool := fst (evict_by_policy P ts (nd_mempool n))\<rparr>)"
  using evict_by_policy_ok [of P "nd_mempool n" ts] by (simp add: core_ok_def node_tip_hash_def)

lemma mine_block_ok: "node_ok P n \<Longrightarrow> node_ok P (fst (mine_block P S now a ts k l n))"
proof -
  assume ok: "node_ok P n"
  have "node_ok P (fst (on_mempool (evict_by_policy P ts) n))"
    by (rule node_ok_cong [OF _ _ ok])
      (use ok in \<open>simp_all add: on_mempool_def case_prod_beta truncate_iff node_ok_def core_ok_expire\<close>)
  then show ?thesis
    unfolding mine_block_def by (auto intro!: node_ok_sbind apply_block_ok)
qed

lemma retry_rollback_issue_ok:
  fixes P :: "('tx, 'ldg, 'blk, 'hdr, 'acct, 'fc, 'cons, 'prf, 'z) node_api_scheme"
    and n :: "('tx, 'ldg, 'blk, 'chdr, 'acct, 'fc, 'cons, 'env, 'gen, 'cb, 'y) node_scheme"
  assumes ok: "node_ok P n"
  shows "node_ok P (fst (retry_rollback_issue P S now i n))"
proof -
  have "node_ok P (fst (retry_rollback_issue_record P S now issue v n))" for issue v
    by (rule node_ok_cong [OF _ _ ok])
      (use ok core_frame.frame_retry_record [of P n S now issue v]
        orphan_frame.frame_retry_record [of n n P S now issue v] in \<open>simp_all add: node_ok_def keeps_def\<close>)
  with ok show ?thesis
    by (auto simp: retry_rollback_issue_def split: sum.split option.split intro!: node_ok_sbind)
qed

lemma stage_compact_block_ok:
  assumes ok: "node_ok P n"
  shows "node_ok P (stage_compact_block h compact n)"
proof -
  let ?m = "nd_pending_compact_blocks n"
  let ?kept = "if MAX_PENDING_COMPACT_BLOCKS \<le> length ?m
    then (case ?m of [] \<Rightarrow> ?m | (oldest, _) # _ \<Rightarrow> bt_remove oldest ?m) else ?m"
  have m: "bt_wf ?m" "length ?m \<le> MAX_PENDING_COMPACT_BLOCKS" using ok by (simp_all add: node_ok_def core_ok_def)
  have "length ?kept < MAX_PENDING_COMPACT_BLOCKS"
  proof (cases ?m)
    case (Cons e es)
    then have "length (bt_remove (fst e) ?m) < length ?m" by (intro length_bt_remove_less) simp
    with Cons m(2) show ?thesis by (auto split: prod.split)
  qed (simp add: MAX_PENDING_COMPACT_BLOCKS_def)
  moreover have wf: "bt_wf ?kept" using m(1) by (auto split: list.split)
  ultimately have "length (bt_insert h compact ?kept) \<le> MAX_PENDING_COMPACT_BLOCKS"
    using bt.length_insert_le [OF wf, of h compact] by linarith
  with wf ok show ?thesis
    by (simp add: stage_compact_block_def Let_def node_ok_def core_ok_def node_tip_hash_def
        orphan_ok_def indexed_under_def requests_ok_def)
qed

lemma node_ok_fork [simp]: "node_ok P (n\<lparr>nd_fork_choice := f\<rparr>) = node_ok P n"
  by (simp add: node_ok_def core_ok_def node_tip_hash_def orphan_ok_def indexed_under_def requests_ok_def)

lemma prune_finalized_ok: "node_ok P n \<Longrightarrow> node_ok P (fst (prune_finalized_forks P' n))"
  by (simp add: prune_finalized_forks_def on_fork_def case_prod_beta split: option.split sum.split)

lemma mempool_new_ok: "mempool_ok P mempool_new" "max_bytes (mp_config mempool_new) \<noteq> - 1"
  by (simp_all add: mempool_new_def with_config_ok)
    (simp add: with_config_def mempool_config_default_def MAX_MEMPOOL_BYTES_def)

lemma try_with_genesis_accounts_ok:
  assumes "try_with_genesis_accounts P ledger env consensus accounts = Inr n"
  shows "node_ok P n"
proof -
  obtain cache where cache: "cache_from_ledger P ledger = Inr cache"
    using assms by (auto simp: try_with_genesis_accounts_def rbind_Inr_iff)
  obtain fc r where fc: "index_chain P ledger (ldg_headers P ledger) (fc_new P) = (fc, r)" by fastforce
  have "orphan_blocks n = [] \<and> orphan_children_by_parent n = [] \<and> missing_parent_requests n = [] \<and>
      missing_parent_request_set n = {} \<and> missing_parent_retry_at n = [] \<and> nd_mempool n = mempool_new \<and>
      nd_pending_compact_blocks n = [] \<and> nd_snapshot_cache n = None"
    using assms by (cases r) (auto simp: try_with_genesis_accounts_def cache fc)
  then show ?thesis
    by (simp add: node_ok_def core_ok_def orphan_ok_def requests_ok_def indexed_under_def bt_has_def
        mempool_new_ok)
qed

lemma init_or_load_ok:
  assumes "init_or_load P S consensus env = (env', Inr n)"
  shows "node_ok P n"
proof -
  obtain env1 ledger accounts n1 where n1: "try_with_genesis_accounts P ledger env1 consensus accounts = Inr n1"
    and "fst (index_stored_blocks P S n1) = n"
    using assms by (auto simp: init_or_load_def sbind_Inr_iff rbind_Inr_iff case_prod_beta)
  moreover have "node_ok P (fst (index_stored_blocks P S n1))"
    using try_with_genesis_accounts_ok [OF n1]
    by (auto simp: index_stored_blocks_def split: sum.split prod.split
        intro!: node_ok_sbind prune_finalized_ok)
  ultimately show ?thesis by simp
qed

text \<open>The calls that other parts of the program make on a running node.\<close>

inductive node_reachable where
  start: "init_or_load P S consensus env = (env', Inr n) \<Longrightarrow> node_reachable P S n"
| block: "node_reachable P S n \<Longrightarrow> node_reachable P S (fst (apply_block P S now block n))"
| submit: "node_reachable P S n \<Longrightarrow> node_reachable P S (fst (submit_protocol_transaction P now t n))"
| mine: "node_reachable P S n \<Longrightarrow>
    node_reachable P S (fst (mine_block P S now a timestamp max_attempts limit n))"
| retry_issue: "node_reachable P S n \<Longrightarrow> node_reachable P S (fst (retry_rollback_issue P S now i n))"
| drain: "node_reachable P S n \<Longrightarrow> node_reachable P S (fst (node_drain_missing_parent_requests now n))"
| retry_parent: "node_reachable P S n \<Longrightarrow>
    node_reachable P S (node_retry_missing_parent_request P now h n)"
| stage: "node_reachable P S n \<Longrightarrow> node_reachable P S (stage_compact_block h compact n)"
| take: "node_reachable P S n \<Longrightarrow> node_reachable P S (fst (take_compact_block h n))"
| snapshot: "node_reachable P S n \<Longrightarrow> node_reachable P S (fst (snapshot_bytes P n))"
| flush: "node_reachable P S n \<Longrightarrow> node_reachable P S (fst (flush_to_storage P S n))"

lemma drain_ok: "node_ok P n \<Longrightarrow> node_ok P (fst (node_drain_missing_parent_requests now n))"
  using drain_loop_exact [of "missing_parent_requests n" now "[]" "[]" n] requests_ok_drain [of n now]
  by (auto simp: node_drain_missing_parent_requests_def drain_missing_parent_requests_at_def node_ok_def
      core_ok_def node_tip_hash_def orphan_ok_def indexed_under_def requests_ok_def)

lemma retry_parent_ok: "node_ok P n \<Longrightarrow> node_ok P (node_retry_missing_parent_request P' now h n)"
  using core_ok_more [OF queue_at_pool(3), of P "node_known P' n" h "sat_add now MISSING_PARENT_RETRY_SECS" n]
  by (auto simp: node_retry_missing_parent_request_def retry_missing_parent_request_def node_ok_def
      orphan_ok_def indexed_under_def requests_ok_queue_at)

lemma take_ok: "node_ok P n \<Longrightarrow> node_ok P (fst (take_compact_block h n))"
  using bt.length_remove_le [of "nd_pending_compact_blocks n" h]
  by (auto simp: take_compact_block_def node_ok_def core_ok_def node_tip_hash_def orphan_ok_def
      indexed_under_def requests_ok_def)

lemma snapshot_bytes_ok: "node_ok P n \<Longrightarrow> node_ok P (fst (snapshot_bytes P n))"
  by (auto simp: snapshot_bytes_def node_ok_def core_ok_def node_tip_hash_def orphan_ok_def
      indexed_under_def requests_ok_def split: option.splits sum.splits prod.splits)

lemma flush_ok: "node_ok P n \<Longrightarrow> node_ok P (fst (flush_to_storage P' S n))"
  by (auto simp: flush_to_storage_def on_storage_def case_prod_beta node_ok_def core_ok_def node_tip_hash_def
      orphan_ok_def indexed_under_def requests_ok_def)

lemmas node_steps_ok = init_or_load_ok apply_block_ok submit_ok mine_block_ok retry_rollback_issue_ok drain_ok
  retry_parent_ok stage_compact_block_ok take_ok snapshot_bytes_ok flush_ok

lemma node_reachable_ok: "node_reachable P S n \<Longrightarrow> node_ok P n"
  by (induction rule: node_reachable.induct) (blast intro: node_steps_ok)+

lemma sample_start_reachable: "node_reachable sample_node null_store sample_start"
proof -
  obtain env where "init_or_load sample_node null_store () () = (env, Inr sample_start)"
    using sample_start_loads by blast
  then show ?thesis by (rule node_reachable.start)
qed

lemma orphan_index_exact:
  assumes "orphan_ok P {} n"
  shows "(case bt_get (orphan_children_by_parent n) p of None \<Rightarrow> {} | Some cs \<Rightarrow> set cs) = {h. indexed_under P n p h}"
  using orphan_ok_child [OF assms, of p] orphan_ok_index [OF assms, of p] by (auto split: option.splits)

text \<open>C1: On every node that started up and then handled any sequence of calls: at most 1024 blocks
  wait for a parent, each under its hash, and the parent index lists exactly them; the queue of
  missing parents has no duplicates and agrees with its set and its retry times; the mempool is
  consistent; at most 64 compact blocks are pending; and a cached snapshot is the snapshot of the
  current ledger.\<close>

theorem node_reachable_consistent:
  assumes "node_reachable P S n"
  shows "length (orphan_blocks n) \<le> 1024 \<and>
    (\<forall>h ob. bt_get (orphan_blocks n) h = Some ob \<longrightarrow> blk_hash P (ob_block ob) = Inr h) \<and>
    (\<forall>p. (case bt_get (orphan_children_by_parent n) p of None \<Rightarrow> {} | Some cs \<Rightarrow> set cs) =
       {h. \<exists>ob. bt_get (orphan_blocks n) h = Some ob \<and> blk_previous_hash P (ob_block ob) = p}) \<and>
    distinct (missing_parent_requests n) \<and>
    set (missing_parent_requests n) = missing_parent_request_set n \<and>
    (\<forall>h. bt_get (missing_parent_retry_at n) h \<noteq> None \<longleftrightarrow> h \<in> missing_parent_request_set n) \<and>
    mempool_ok P (nd_mempool n) \<and> length (nd_pending_compact_blocks n) \<le> 64 \<and>
    (\<forall>tip bs. nd_snapshot_cache n = Some (tip, bs) \<longrightarrow>
       node_tip_hash P n = Some tip \<and> snapshot_paqus_bytes P (nd_ledger n) = Inr bs)"
proof -
  have ok: "core_ok P n" "orphan_ok P {} n" "requests_ok n"
    using node_reachable_ok [OF assms] by (simp_all add: node_ok_def)
  have "length (orphan_blocks n) \<le> 1024 \<and>
      (\<forall>h ob. bt_get (orphan_blocks n) h = Some ob \<longrightarrow> blk_hash P (ob_block ob) = Inr h)"
    using ok(2) by (simp add: orphan_ok_def MAX_ORPHAN_BLOCKS_def)
  moreover have "\<forall>p. (case bt_get (orphan_children_by_parent n) p of None \<Rightarrow> {} | Some cs \<Rightarrow> set cs) =
       {h. \<exists>ob. bt_get (orphan_blocks n) h = Some ob \<and> blk_previous_hash P (ob_block ob) = p}"
    using orphan_index_exact [OF ok(2)] by (simp add: indexed_under_def)
  ultimately show ?thesis
    using ok(1,3) by (simp add: core_ok_def requests_ok_def bt_has_def MAX_PENDING_COMPACT_BLOCKS_def)
qed

theorem node_reachable_consistent_witness:
  "node_reachable sample_node null_store (fst (apply_block sample_node null_store 5 (SBlk 9 8 2 []) sample_start)) \<and>
   length (orphan_blocks (fst (apply_block sample_node null_store 5 (SBlk 9 8 2 []) sample_start))) \<le> 1024"
proof -
  note sample_start_reachable
  then have "node_reachable sample_node null_store
      (fst (apply_block sample_node null_store 5 (SBlk 9 8 2 []) sample_start))"
    by (rule node_reachable.block)
  with node_reachable_consistent [OF this] show ?thesis by blast
qed



end
