(* ===== verification/Node_Live.thy ===== *)
theory Node_Live
  imports Node_Props
begin

text \<open>
  Waiting blocks are not forgotten. Applying a block retries the blocks that waited for it, their
  children and so on, so that a block is left waiting only while its parent is missing, or for a
  parent whose connection failed after it entered the fork graph.
\<close>

section \<open>No waiting block is forgotten\<close>

text \<open>
  What the node relies on of the crate's fork graph: \<open>contains\<close> and \<open>get\<close> agree, a successful
  insertion adds exactly the hash of the block, a failed one adds nothing and reports a missing
  parent only when the parent is absent, and pruning only removes. Inclusion proofs do not
  report fork graph errors.
\<close>

definition fork_laws where
  "fork_laws P \<longleftrightarrow>
     (\<forall>fc h. fc_contains P fc h \<longleftrightarrow> fc_get P fc h \<noteq> None) \<and>
     (\<forall>b fc fc' h. fc_insert_block P b fc = (fc', Inr h) \<longrightarrow>
        blk_hash P b = Inr h \<and> (\<forall>x. fc_contains P fc' x \<longleftrightarrow> fc_contains P fc x \<or> x = h)) \<and>
     (\<forall>b fc fc' e. fc_insert_block P b fc = (fc', Inl e) \<longrightarrow>
        (\<forall>x. fc_contains P fc' x = fc_contains P fc x) \<and>
        (e = ForkMissingParent \<longrightarrow> \<not> fc_contains P fc (blk_previous_hash P b))) \<and>
     (\<forall>h fc fc' r. fc_prune_finalized P h fc = (fc', r) \<longrightarrow>
        (\<forall>x. fc_contains P fc' x \<longrightarrow> fc_contains P fc x) \<and> r \<noteq> Inl ForkMissingParent) \<and>
     (\<forall>b i e. blk_inclusion_proof P b i = Inl e \<longrightarrow> e \<noteq> NodeForkChoice ForkMissingParent)"

lemmas fork_lawsD =
  fork_laws_def [THEN iffD1, THEN conjunct1, rule_format]
  fork_laws_def [THEN iffD1, THEN conjunct2, THEN conjunct1, rule_format]
  fork_laws_def [THEN iffD1, THEN conjunct2, THEN conjunct2, THEN conjunct1, rule_format]
  fork_laws_def [THEN iffD1, THEN conjunct2, THEN conjunct2, THEN conjunct2, THEN conjunct1, rule_format]
  fork_laws_def [THEN iffD1, THEN conjunct2, THEN conjunct2, THEN conjunct2, THEN conjunct2, rule_format]

text \<open>Applying a block adds at most its own hash to the fork graph.\<close>

definition only_adds where
  "only_adds P b n0 n \<longleftrightarrow>
     (fork_laws P \<longrightarrow> (\<forall>x. node_known P n x \<longrightarrow> node_known P n0 x \<or> blk_hash P b = Inr x))"

lemma only_adds_insert:
  assumes "only_adds P b n0 n"
  shows "only_adds P b n0 (n\<lparr>nd_fork_choice := fst (fc_insert_block P b (nd_fork_choice n))\<rparr>)"
proof -
  obtain fc r where eq: "fc_insert_block P b (nd_fork_choice n) = (fc, r)" by fastforce
  show ?thesis
    using assms eq fork_lawsD(2) [of P b "nd_fork_choice n" fc] fork_lawsD(3) [of P b "nd_fork_choice n" fc]
    by (cases r) (auto simp: only_adds_def node_known_def)
qed

lemma only_adds_prune:
  assumes "only_adds P b n0 n"
  shows "only_adds P b n0 (n\<lparr>nd_fork_choice := fst (fc_prune_finalized P h (nd_fork_choice n))\<rparr>)"
proof -
  obtain fc r where eq: "fc_prune_finalized P h (nd_fork_choice n) = (fc, r)" by fastforce
  show ?thesis
    using assms eq fork_lawsD(4) [of P h "nd_fork_choice n" fc r] by (auto simp: only_adds_def node_known_def)
qed

interpretation graph_frame: node_frame P b "only_adds P b n0" for P b n0
  by unfold_locales
    (erule only_adds_insert | erule only_adds_prune | simp add: only_adds_def node_known_def)+

lemma apply_known_adds:
  assumes "fork_laws P" "apply_known_parent_block P S now b n = (n', r)" "node_known P n' x"
  shows "node_known P n x \<or> blk_hash P b = Inr x"
proof -
  have "only_adds P b n n" by (simp add: only_adds_def)
  then have "only_adds P b n (fst (apply_known_parent_block P S now b n))"
    by (rule graph_frame.frame_apply_known)
  with assms show ?thesis by (simp add: only_adds_def)
qed

text \<open>Only the parent lookup and the insertion itself report a missing parent.\<close>

definition no_missing :: "node_error + 'a \<Rightarrow> bool" where
  "no_missing r \<longleftrightarrow> r \<noteq> Inl (NodeForkChoice ForkMissingParent)"

lemma no_missing_simps [simp]:
  "no_missing (Inr x)" "no_missing (map_err NodeStorage a)" "no_missing (map_err NodeMempool b)"
  "no_missing (map_err NodeCodec c)" "no_missing (map_err NodeLedger d)" "no_missing (map_err NodeConsensus f)"
  "no_missing (Inl e) \<longleftrightarrow> e \<noteq> NodeForkChoice ForkMissingParent"
  by (auto simp: no_missing_def map_err_def split: sum.split)

lemma no_missing_ok_or [simp]: "e \<noteq> NodeForkChoice ForkMissingParent \<Longrightarrow> no_missing (ok_or e v)"
  by (cases v) simp_all

lemma no_missing_rbind: "no_missing r \<Longrightarrow> (\<And>x. no_missing (f x)) \<Longrightarrow> no_missing (rbind r f)"
  by (cases r) simp_all

lemma no_missing_sbind: "no_missing (snd m) \<Longrightarrow> (\<And>s x. no_missing (snd (f s x))) \<Longrightarrow> no_missing (snd (sbind m f))"
  by (cases m; cases "snd m") simp_all

lemma no_missing_for_each: "(\<And>x s. no_missing (snd (f x s))) \<Longrightarrow> no_missing (snd (for_each f xs s))"
  by (induction xs arbitrary: s) (auto intro!: no_missing_sbind)

lemma no_missing_map_res: "(\<And>x. no_missing (f x)) \<Longrightarrow> no_missing (map_res f xs)"
  by (induction xs) (auto intro!: no_missing_rbind)

lemma no_missing_on [simp]:
  "no_missing (snd (on_storage f n))" "no_missing (snd (on_mempool g n))" "no_missing (snd (on_cache h n))"
  by (simp_all add: on_storage_def on_mempool_def on_cache_def split: prod.split)

lemmas no_missing = no_missing_rbind no_missing_sbind no_missing_for_each no_missing_map_res

lemma no_missing_prune:
  assumes "fork_laws P"
  shows "no_missing (snd (prune_finalized_forks P n))"
proof -
  have "no_missing (snd (on_fork (fc_prune_finalized P h) n))" for h
    using fork_lawsD(4) [OF assms, of h "nd_fork_choice n"]
    by (cases "fc_prune_finalized P h (nd_fork_choice n)"; cases "snd (fc_prune_finalized P h (nd_fork_choice n))")
      (auto simp: on_fork_def)
  then show ?thesis by (simp add: prune_finalized_forks_def split: option.split sum.split)
qed

lemma no_missing_location: "no_missing (canonical_transaction_location P n h)"
proof -
  have "no_missing (block_has_transaction P h ts)" for ts
    by (induction ts) (auto intro!: no_missing)
  then have "no_missing (find_transaction_block P h bs)" for bs
    by (induction bs) (auto intro!: no_missing)
  then show ?thesis by (simp add: canonical_transaction_location_def)
qed

lemma no_missing_retry_record: "no_missing (snd (retry_rollback_issue_record P S now issue False n))"
  unfolding retry_rollback_issue_record_def Let_def case_prod_beta
  by (auto split: option.split intro!: no_missing simp: no_missing_location)

lemma no_missing_record_rollback:
  assumes "fork_laws P"
  shows "no_missing (snd (record_rollback P S now c b h e n))"
proof -
  have "no_missing (blk_inclusion_proof P b i)" for i
    using fork_lawsD(5) [OF assms, of b i] by (auto simp: no_missing_def)
  then show ?thesis
    unfolding record_rollback_def
    by (auto split: prod.split option.split intro!: no_missing simp: no_missing_retry_record)
qed

lemma no_missing_headers: "no_missing (headers_to_tip P n tip)"
  by (auto simp: headers_to_tip_def intro!: no_missing)

lemma no_missing_apply_branch: "no_missing (apply_branch S bs l)"
  by (induction bs arbitrary: l) (auto split: prod.split sum.split)

lemma no_missing_branch_ledger: "no_missing (ledger_for_branch_tip P S n tip)"
  by (auto simp: ledger_for_branch_tip_def Let_def no_missing_apply_branch intro!: no_missing
      split: prod.split sum.split)

lemma no_missing_reorg:
  assumes "fork_laws P"
  shows "no_missing (snd (reorg_to_best_tip P S now n))"
  unfolding reorg_to_best_tip_def Let_def rollback_block_def
  by (auto intro!: no_missing simp: no_missing_headers no_missing_branch_ledger
      no_missing_record_rollback [OF assms] no_missing_prune [OF assms] split: sum.split)

lemma no_missing_connect:
  assumes "fork_laws P"
  shows "no_missing (snd (connect_to_tip P S b staged n))"
  unfolding connect_to_tip_def Let_def mark_rollback_issues_reconfirmed_def reconfirm_transaction_def
    reconfirm_issue_def
  by (auto intro!: no_missing simp: no_missing_prune [OF assms] split: sum.split)

lemma no_missing_state: "no_missing (validate_block_state_for_known_parent P S n b)"
  by (auto simp: validate_block_state_for_known_parent_def validate_canonical_state_root_def
      no_missing_branch_ledger intro!: no_missing)

lemma apply_known_missing:
  assumes laws: "fork_laws P"
    and "apply_known_parent_block P S now b n = (n', Inl (NodeForkChoice ForkMissingParent))"
  shows "\<not> node_known P n' (blk_previous_hash P b)"
proof -
  have "n' = n \<and> validate_block_for_known_parent P n b = Inl (NodeForkChoice ForkMissingParent) \<or>
      on_fork (fc_insert_block P b) n = (n', Inl (NodeForkChoice ForkMissingParent))"
  proof (cases "validate_block_for_known_parent P n b")
    case (Inl e)
    with assms(2) show ?thesis by (simp add: apply_known_parent_block_def)
  next
    case valid: (Inr u)
    show ?thesis
    proof (cases "validate_block_state_for_known_parent P S n b")
      case (Inl e)
      then have "e \<noteq> NodeForkChoice ForkMissingParent"
        using no_missing_state [of P S n b] by simp
      with assms(2) valid Inl show ?thesis by (simp add: apply_known_parent_block_def)
    next
      case state: (Inr staged)
      obtain n1 r where fork: "on_fork (fc_insert_block P b) n = (n1, r)" by fastforce
      have ne: "(if c then on_storage (save_side_block P S b) n1
          else if d then reorg_to_best_tip P S now n1 else connect_to_tip P S b staged n1) \<noteq>
          (n', Inl (NodeForkChoice ForkMissingParent))" (is "?rest \<noteq> _") for c d
      proof
        assume eq: "?rest = (n', Inl (NodeForkChoice ForkMissingParent))"
        have "no_missing (snd ?rest)"
          using no_missing_reorg [OF laws, of S now n1] no_missing_connect [OF laws, of S b staged n1] by simp
        then show False unfolding eq by simp
      qed
      show ?thesis
        using assms(2) valid state fork by (cases r) (auto simp: apply_known_parent_block_def ne)
    qed
  qed
  then show ?thesis
  proof
    assume a: "n' = n \<and> validate_block_for_known_parent P n b = Inl (NodeForkChoice ForkMissingParent)"
    have "no_missing (check_branch_checkpoint P n b c)" for c
      by (auto simp: check_branch_checkpoint_def intro!: no_missing)
    moreover have "no_missing (ensure_expected_genesis_hash P b)"
      by (auto simp: ensure_expected_genesis_hash_def intro!: no_missing)
    ultimately have "fc_get P (nd_fork_choice n) (blk_previous_hash P b) = None"
      using a by (cases "fc_get P (nd_fork_choice n) (blk_previous_hash P b)")
        (auto simp: validate_block_for_known_parent_def rbind_Inl_iff no_missing_def map_err_Inl_iff
          split: option.splits if_splits)
    with a fork_lawsD(1) [OF laws] show ?thesis by (simp add: node_known_def)
  next
    assume a: "on_fork (fc_insert_block P b) n = (n', Inl (NodeForkChoice ForkMissingParent))"
    then obtain fc where "fc_insert_block P b (nd_fork_choice n) = (fc, Inl ForkMissingParent)"
      "nd_fork_choice n' = fc"
      by (auto simp: on_fork_def map_err_Inl_iff split: prod.splits)
    with fork_lawsD(3) [OF laws] show ?thesis by (simp add: node_known_def)
  qed
qed

text \<open>
  The states a node passes through: between its calls, after each block it tries to connect, and
  while its orphan pool is rearranged or its mempool trimmed.
\<close>

inductive node_visits where
  call: "node_reachable P S n \<Longrightarrow> node_visits P S n"
| connect: "node_visits P S n \<Longrightarrow> node_visits P S (fst (apply_known_parent_block P S now block n))"
| orphans: "node_visits P S n \<Longrightarrow> orphan_state.more n' = orphan_state.more n \<Longrightarrow> node_visits P S n'"
| evict: "node_visits P S n \<Longrightarrow> node_visits P S (fst (on_mempool (evict_by_policy P ts) n))"

text \<open>
  A block can enter the fork graph and still fail to connect, for instance when the store fails
  or a reorganisation is refused; the blocks that wait for it are then not retried. The node
  argument only fixes the type of the nodes.
\<close>

definition failed_connect ::
  "('tx, 'ldg, 'blk, 'hdr, 'acct, 'fc, 'cons, 'prf, 'z) node_api_scheme \<Rightarrow>
   ('env, 'txn, 'tx, 'hdr, 'acct, 'evt, 'utxo, 'prf, 'ldg, 'blk, 'y) store_api_scheme \<Rightarrow>
   ('tx, 'ldg, 'blk, 'chdr, 'acct, 'fc, 'cons, 'env, 'gen, 'cb) node \<Rightarrow> hash \<Rightarrow> bool" where
  "failed_connect P S n0 p \<longleftrightarrow>
     (\<exists>now b (n :: ('tx, 'ldg, 'blk, 'chdr, 'acct, 'fc, 'cons, 'env, 'gen, 'cb) node) n' e.
        node_visits P S n \<and> apply_known_parent_block P S now b n = (n', Inl e) \<and>
        blk_hash P b = Inr p \<and> \<not> node_known P n p \<and> node_known P n' p)"

lemma visits_more: "orphan_state.more n = orphan_state.more n' \<Longrightarrow> node_visits P S n = node_visits P S n'"
  using node_visits.orphans by metis

lemma visits_prune: "node_visits P S n \<Longrightarrow> node_visits P S (prune_expired_orphans P' tip now n)"
  by (erule node_visits.orphans) simp

lemma visits_known: "node_visits P S n \<Longrightarrow> apply_known_parent_block P S now b n = (n', r) \<Longrightarrow> node_visits P S n'"
  using node_visits.connect [of P S n now b] by simp

text \<open>Every waiting block whose parent is in the fork graph waits for a block of \<open>Q\<close>.\<close>

definition waits_for where
  "waits_for P Q n \<longleftrightarrow>
     (\<forall>h ob. bt_get (orphan_blocks n) h = Some ob \<and> node_known P n (blk_previous_hash P (ob_block ob)) \<longrightarrow>
        Q (blk_previous_hash P (ob_block ob)))"

lemma apply_known_new:
  assumes "fork_laws P" "node_visits P S n" "apply_known_parent_block P S now b n = (n', r)" "node_known P n' x"
  shows "node_known P n x \<or> blk_hash P b = Inr x \<and> (r = Inr () \<or> failed_connect P S n x)"
proof (cases r)
  case (Inl e)
  with apply_known_adds [OF assms(1,3,4)] assms(2-) show ?thesis unfolding failed_connect_def by blast
next
  case (Inr u)
  with apply_known_adds [OF assms(1,3,4)] show ?thesis by simp
qed

lemma failed_connect_node:
  fixes n n' :: "('tx, 'ldg, 'blk, 'chdr, 'acct, 'fc, 'cons, 'env, 'gen, 'cb) node"
  shows "failed_connect P S n = failed_connect P S n'"
  by (simp add: failed_connect_def fun_eq_iff)

lemma process_parents_waits:
  fixes n :: "('tx, 'ldg, 'blk, 'chdr, 'acct, 'fc, 'cons, 'env, 'gen, 'cb) node"
  assumes "fork_laws P" "node_ok P n" "node_visits P S n"
    and "waits_for P (\<lambda>p. p \<in> set parents \<or> failed_connect P S n p) n"
  shows "waits_for P (failed_connect P S n) (fst (process_parents P S now parents n))"
  using assms
proof (induction P S now parents n rule: process_parents.induct)
  case (1 P S now n)
  then show ?case by simp
next
  case (2 P S now parent parents n)
  show ?case
  proof (cases "bt_get (orphan_children_by_parent n) parent")
    case None
    then have "\<not> indexed_under P n parent h" for h
      using "2.prems"(2) orphan_ok_index [of P "{}" n parent h] by (auto simp: node_ok_def)
    then have "waits_for P (\<lambda>p. p \<in> set parents \<or> failed_connect P S n p) n"
      using "2.prems"(4) by (fastforce simp: waits_for_def indexed_under_def)
    with None "2.IH"(1) "2.prems" show ?thesis by simp
  next
    case (Some children)
    let ?n = "n\<lparr>orphan_children_by_parent := bt_remove parent (orphan_children_by_parent n)\<rparr>"
    have ok: "orphan_ok P (set children) ?n" "distinct children"
      using "2.prems"(2) orphan_ok_detach [OF _ Some, of P] by (simp_all add: node_ok_def)
    have visits: "node_visits P S ?n" by (rule node_visits.orphans [OF "2.prems"(3)]) simp
    have req: "requests_ok ?n" "core_ok P ?n"
      using "2.prems"(2) core_ok_more [of ?n n P] by (simp_all add: node_ok_def requests_ok_def)
    obtain n1 parents1 where eq: "process_children P (node_known P) (node_tip_height P)
        (apply_known_parent_block P S now) now children parents ?n = (n1, Inr parents1)"
      and ok1: "orphan_ok P {} n1" "requests_ok n1"
      using node_orphans.process_children_ok [OF ok req(1)] by blast
    have "core_ok P n1"
      using node_orphans.process_children_frame [where I = "core_ok P" and P = P,
          OF core_frame.frame_apply_known core_ok_more req(2)] eq
      by (metis fst_conv)
    moreover have "node_visits P S n1"
      using node_orphans.process_children_frame [where I = "node_visits P S" and P = P,
          OF node_visits.connect visits_more visits] eq
      by (metis fst_conv)
    note visits1 = this
    ultimately have "node_ok P n1" using ok1 by (simp add: node_ok_def)
    with ok1 have "node_ok P n1" by (simp add: node_ok_def)
    moreover have "waits_for P (\<lambda>p. p \<in> set parents1 \<or> failed_connect P S n1 p) n1"
    proof -
      have new: "node_known P s x \<or> blk_hash P b = Inr x \<and> (r = Inr () \<or> failed_connect P S n1 x)"
        if "node_visits P S s" "apply_known_parent_block P S now b s = (s', r)" "node_known P s' x"
        for b r x and s s' :: "('tx, 'ldg, 'blk, 'chdr, 'acct, 'fc, 'cons, 'env, 'gen, 'cb) node"
        using apply_known_new [OF "2.prems"(1) that] failed_connect_node [of P S s n1] by simp
      have missing: "\<not> node_known P s' (blk_previous_hash P b)"
        if "apply_known_parent_block P S now b s = (s', Inl (NodeForkChoice ForkMissingParent))"
        for b and s s' :: "('tx, 'ldg, 'blk, 'chdr, 'acct, 'fc, 'cons, 'env, 'gen, 'cb) node"
        by (rule apply_known_missing [OF "2.prems"(1) that])
      have kids: "h \<in> set children" if "indexed_under P n parent h" for h
        using orphan_ok_index [of P "{}" n parent h] that Some "2.prems"(2) by (auto simp: node_ok_def)
      have "\<forall>h ob. bt_get (orphan_blocks ?n) h = Some ob \<and> h \<notin> set children \<and>
          node_known P ?n (blk_previous_hash P (ob_block ob)) \<longrightarrow>
          blk_previous_hash P (ob_block ob) \<in> set parents \<or>
          failed_connect P S n1 (blk_previous_hash P (ob_block ob))"
        using "2.prems"(4) kids failed_connect_node [of P S n n1]
        by (fastforce simp: waits_for_def indexed_under_def node_known_def)
      note start = this
      show ?thesis
        unfolding waits_for_def
        by (rule node_orphans.process_children_waiting [where I = "node_visits P S",
              OF node_visits.connect visits_more _ _ visits ok start eq])
          (assumption, assumption, erule (2) new, erule missing)
    qed
    ultimately have "waits_for P (failed_connect P S n1) (fst (process_parents P S now parents1 n1))"
      using "2.IH"(2) [OF Some eq] "2.prems"(1) visits1 by blast
    with eq Some failed_connect_node [of P S n1 n] show ?thesis by simp
  qed
qed


lemma waits_for_prune:
  assumes "waits_for P Q n"
  shows "waits_for P Q (prune_expired_orphans P' tip now n)"
proof -
  have "node_known P (prune_expired_orphans P' tip now n) = node_known P n"
    by (rule node_known_more) simp
  with assms show ?thesis by (auto simp: waits_for_def dest: prune_sub)
qed

lemma apply_known_waits:
  fixes n n0 :: "('tx, 'ldg, 'blk, 'chdr, 'acct, 'fc, 'cons, 'env, 'gen, 'cb) node"
  assumes "fork_laws P" "node_visits P S n" "waits_for P (failed_connect P S n0) n"
    and "apply_known_parent_block P S now b n = (n', r)"
  shows "waits_for P (\<lambda>p. r = Inr () \<and> blk_hash P b = Inr p \<or> failed_connect P S n0 p) n'"
  unfolding waits_for_def
proof (intro allI impI, elim conjE)
  fix h and ob :: "'blk orphan_block"
  let ?p = "blk_previous_hash P (ob_block ob)"
  assume wait: "bt_get (orphan_blocks n') h = Some ob" and known: "node_known P n' ?p"
  have "bt_get (orphan_blocks n) h = Some ob"
    using wait node_orphans.connect_blocks [OF assms(4)] by simp
  then have "node_known P n ?p \<Longrightarrow> failed_connect P S n0 ?p"
    using assms(3) by (simp add: waits_for_def)
  with apply_known_new [OF assms(1,2,4) known] failed_connect_node [of P S n0 n]
  show "r = Inr () \<and> blk_hash P b = Inr ?p \<or> failed_connect P S n0 ?p" by auto
qed

lemma apply_block_waits:
  fixes n n0 :: "('tx, 'ldg, 'blk, 'chdr, 'acct, 'fc, 'cons, 'env, 'gen, 'cb) node"
  assumes laws: "fork_laws P" and ok: "node_ok P n"
    and visits: "node_visits P S n" and waits: "waits_for P (failed_connect P S n0) n"
  shows "waits_for P (failed_connect P S n0) (fst (apply_block P S now b n))"
proof -
  let ?n = "prune_expired_orphans P (node_tip_height P n) now n" and ?F = "failed_connect P S n0"
  obtain n1 r where known: "apply_known_parent_block P S now b ?n = (n1, r)" by fastforce
  have ok1: "node_ok P n1" using apply_known_ok [OF prune_node_ok [OF ok]] known by (metis fst_conv)
  have visits1: "node_visits P S n1" by (rule visits_known [OF visits_prune [OF visits] known])
  note w1 = apply_known_waits [OF laws visits_prune [OF visits] waits_for_prune [OF waits] known]
  have drop: "waits_for P ?F n1" if "\<not> (r = Inr () \<and> (\<exists>h. blk_hash P b = Inr h))"
    using w1 that by (auto simp: waits_for_def)
  have process: "waits_for P ?F (fst (process_orphans_for_parent P S now h n1))" if "blk_hash P b = Inr h" for h
  proof -
    let ?n1 = "prune_expired_orphans P (node_tip_height P n1) now n1"
    have "waits_for P (\<lambda>p. p \<in> set [h] \<or> failed_connect P S ?n1 p) ?n1"
      using waits_for_prune [OF w1, of P "node_tip_height P n1" now] that failed_connect_node [of P S n0 ?n1]
      by (auto simp: waits_for_def)
    from process_parents_waits [OF laws prune_node_ok [OF ok1] visits_prune [OF visits1] this] show ?thesis
      unfolding process_orphans_for_parent_def using failed_connect_node [of P S n0 ?n1] by simp
  qed
  have cache: "waits_for P ?F (fst (node_cache_orphan_block P now b n1))"
    if r: "r = Inl (NodeForkChoice ForkMissingParent)"
  proof -
    obtain n2 r2 where eq: "cache_orphan_block P (node_known P n1) (node_tip_height P n1) now b n1 = (n2, r2)"
      by fastforce
    have "node_known P n2 = node_known P n1"
      by (rule node_known_more) (rule cache_orphan_block_fields(1) [OF eq])
    moreover have "\<not> node_known P n1 (blk_previous_hash P b)"
      using apply_known_missing [OF laws] known r by blast
    moreover have "waits_for P ?F n1" using drop r by simp
    ultimately have "waits_for P ?F n2"
      using cache_orphan_block_get [OF eq] by (fastforce simp: waits_for_def)
    then show ?thesis by (simp add: node_cache_orphan_block_def eq)
  qed
  have fail: "waits_for P ?F (n1\<lparr>nd_block_validation_failures_total := k\<rparr>) = waits_for P ?F n1" for k
    by (simp add: waits_for_def node_known_def)
  show ?thesis
  proof (cases r)
    case (Inl e)
    then show ?thesis using drop cache fail by (simp add: apply_block_def known)
  next
    case (Inr u)
    then show ?thesis using drop process by (cases "blk_hash P b") (simp_all add: apply_block_def known)
  qed
qed

lemma mine_block_outcome:
  "fst (mine_block P S now a ts k l n) = fst (on_mempool (evict_by_policy P ts) n) \<or>
   (\<exists>b. fst (mine_block P S now a ts k l n) =
      fst (apply_block P S now b (fst (on_mempool (evict_by_policy P ts) n))))"
  by (auto simp: mine_block_def sbind_def split: sum.split)

lemma mine_block_waits:
  fixes n n0 :: "('tx, 'ldg, 'blk, 'chdr, 'acct, 'fc, 'cons, 'env, 'gen, 'cb) node"
  assumes laws: "fork_laws P" and ok: "node_ok P n"
    and visits: "node_visits P S n" and waits: "waits_for P (failed_connect P S n0) n"
  shows "waits_for P (failed_connect P S n0) (fst (mine_block P S now a ts k l n))"
proof -
  let ?n = "fst (on_mempool (evict_by_policy P ts) n)"
  have ok1: "node_ok P ?n"
    by (rule node_ok_cong [OF _ _ ok])
      (use ok in \<open>simp_all add: on_mempool_def case_prod_beta truncate_iff node_ok_def core_ok_expire\<close>)
  have waits1: "waits_for P (failed_connect P S n0) ?n"
    using waits by (simp add: on_mempool_def case_prod_beta waits_for_def node_known_def)
  show ?thesis
    using mine_block_outcome [of P S now a ts k l n] waits1 apply_block_waits [OF laws ok1 node_visits.evict [OF visits] waits1] by auto
qed

lemma retry_issue_keeps:
  "nd_fork_choice (fst (retry_rollback_issue P S now i n)) = nd_fork_choice n \<and>
   orphan_blocks (fst (retry_rollback_issue P S now i n)) = orphan_blocks n"
proof -
  have "nd_fork_choice (fst (submit_protocol_transaction P now t n)) = nd_fork_choice n \<and>
      orphan_blocks (fst (submit_protocol_transaction P now t n)) = orphan_blocks n" for t n
    by (simp add: submit_protocol_transaction_def on_mempool_def sbind_def split: prod.split sum.split)
  then have "nd_fork_choice (fst (retry_rollback_issue_record P S now issue True n)) = nd_fork_choice n \<and>
      orphan_blocks (fst (retry_rollback_issue_record P S now issue True n)) = orphan_blocks n" for issue
    by (auto simp: retry_rollback_issue_record_def sbind_def on_storage_def Let_def case_prod_beta
        split: sum.split option.split)
  then show ?thesis
    by (auto simp: retry_rollback_issue_def sbind_def split: sum.split option.split)
qed

lemma drain_loop_keeps:
  "nd_fork_choice (fst (drain_loop now rest ready hs n)) = nd_fork_choice n \<and>
   orphan_blocks (fst (drain_loop now rest ready hs n)) = orphan_blocks n"
  by (induction hs arbitrary: rest ready n) auto

lemma quiet_steps:
  "nd_fork_choice (fst (submit_protocol_transaction P now t n)) = nd_fork_choice n" "orphan_blocks (fst (submit_protocol_transaction P now t n)) = orphan_blocks n"
  "nd_fork_choice (fst (node_drain_missing_parent_requests now n)) = nd_fork_choice n" "orphan_blocks (fst (node_drain_missing_parent_requests now n)) = orphan_blocks n"
  "nd_fork_choice (node_retry_missing_parent_request P now h n) = nd_fork_choice n" "orphan_blocks (node_retry_missing_parent_request P now h n) = orphan_blocks n"
  "nd_fork_choice (stage_compact_block h compact n) = nd_fork_choice n" "orphan_blocks (stage_compact_block h compact n) = orphan_blocks n"
  "nd_fork_choice (fst (take_compact_block h n)) = nd_fork_choice n" "orphan_blocks (fst (take_compact_block h n)) = orphan_blocks n"
  "nd_fork_choice (fst (snapshot_bytes P n)) = nd_fork_choice n" "orphan_blocks (fst (snapshot_bytes P n)) = orphan_blocks n"
  "nd_fork_choice (fst (flush_to_storage P S n)) = nd_fork_choice n" "orphan_blocks (fst (flush_to_storage P S n)) = orphan_blocks n"
  by (auto simp: submit_protocol_transaction_def on_mempool_def node_drain_missing_parent_requests_def
      drain_missing_parent_requests_at_def node_retry_missing_parent_request_def retry_missing_parent_request_def
      stage_compact_block_def take_compact_block_def snapshot_bytes_def flush_to_storage_def on_storage_def
      case_prod_beta Let_def drain_loop_keeps
      queue_missing_parent_request_at_def split: option.split sum.split)

lemma waits_for_fields:
  "nd_fork_choice n' = nd_fork_choice n \<Longrightarrow> orphan_blocks n' = orphan_blocks n \<Longrightarrow>
   waits_for P Q n \<Longrightarrow> waits_for P Q n'"
  by (simp add: waits_for_def node_known_def)

lemma init_or_load_orphans:
  assumes "init_or_load P S consensus env = (env', Inr n)"
  shows "orphan_blocks n = []"
proof -
  obtain env1 ledger accounts n1 where n1: "try_with_genesis_accounts P ledger env1 consensus accounts = Inr n1"
    and "fst (index_stored_blocks P S n1) = n"
    using assms by (auto simp: init_or_load_def sbind_Inr_iff rbind_Inr_iff case_prod_beta)
  moreover have "orphan_blocks n1 = []"
    using n1 by (cases "snd (index_chain P ledger (ldg_headers P ledger) (fc_new P))")
      (auto simp: try_with_genesis_accounts_def rbind_Inr_iff case_prod_beta)
  ultimately show ?thesis
    by (auto simp: index_stored_blocks_def sbind_def prune_finalized_forks_def on_fork_def
        split: sum.split prod.split option.split)
qed

lemma node_reachable_waits:
  fixes n n0 :: "('tx, 'ldg, 'blk, 'chdr, 'acct, 'fc, 'cons, 'env, 'gen, 'cb) node"
  assumes "fork_laws P" "node_reachable P S n"
  shows "waits_for P (failed_connect P S n0) n"
  using assms(2,1)
proof (induction rule: node_reachable.induct)
  case (start P S consensus env env' n)
  then show ?case using init_or_load_orphans [OF start(1)] by (simp add: waits_for_def bt_get_def)
next
  case (block P S n now b)
  then have "waits_for P (failed_connect P S n0) n" by blast
  with block(1,3) show ?case by (blast intro: apply_block_waits node_reachable_ok node_visits.call)
next
  case (mine P S n now a ts k l)
  then have "waits_for P (failed_connect P S n0) n" by blast
  with mine(1,3) show ?case by (blast intro: mine_block_waits node_reachable_ok node_visits.call)
qed (rule waits_for_fields; simp add: quiet_steps retry_issue_keeps)+

lemma sample_fc_get_append: "sample_fc_get (fc @ [b]) h = (case sample_fc_get fc h of Some c \<Rightarrow> Some c | None \<Rightarrow> if [sb_id b] = h then Some b else None)"
  by (induction fc) (auto simp: sample_fc_get_def)

lemma fork_laws_sample: "fork_laws sample_node"
  by (auto simp: fork_laws_def sample_node_def chain_api.defs node_api.defs sample_api_def sample_fc_insert_def
      sample_fc_get_append split: option.splits if_splits)



end
