(* ===== verification/Handler_Props.thy ===== *)
theory Handler_Props
  imports Handler Node_Live
begin

text \<open>
  What the message handler guarantees: peers drive the node only through its own operations,
  queries change nothing, ranges are bounded and gapless, snapshot chunks arrive intact, and
  mempool reconciliation sends exactly what is missing.
\<close>

section \<open>Every message is a sequence of operations of the node\<close>

lemma on_node_state [simp]: "fst (on_node f (m, n)) = (m, fst (f n))"
  by (simp add: on_node_def split: prod.split)

lemma on_node_eq: "f n = (n', r) \<Longrightarrow> on_node f (m, n) = ((m, n'), map_err NetworkNode r)"
  by (simp add: on_node_def)

lemma handler_sbind:
  assumes "I (snd (fst m))" "\<And>st x. I (snd st) \<Longrightarrow> I (snd (fst (f st x)))"
  shows "I (snd (fst (sbind m f)))"
  using assms by (cases m; cases "snd m") auto

lemma handler_for_each:
  assumes "\<And>x st. I (snd st) \<Longrightarrow> I (snd (fst (f x st)))" "I (snd st)"
  shows "I (snd (fst (for_each f xs st)))"
  using assms(2)
proof (induction xs arbitrary: st)
  case (Cons x xs)
  have "I (snd (fst (sbind (f x st) (\<lambda>st _. for_each f xs st))))"
    by (rule handler_sbind) (use Cons assms(1) in auto)
  then show ?case by simp
qed simp

lemmas reachable_sbind = handler_sbind [where I = "node_reachable P S" for P S]

lemma accept_transaction_reachable:
  "node_reachable P S (snd st) \<Longrightarrow> node_reachable P S (snd (fst (accept_transaction P now t st)))"
  by (cases st) (auto simp: accept_transaction_def node_reachable.submit intro!: reachable_sbind)

lemma block_reachable:
  "node_reachable P S n \<Longrightarrow>
   node_reachable P S (snd (fst (sbind (on_node (apply_block P S now b) (m, n)) (\<lambda>st _. (st, Inr x)))))"
  by (rule reachable_sbind) (simp_all add: node_reachable.block)

lemma compact_reachable:
  assumes "node_reachable P S (snd st)"
  shows "node_reachable P S (snd (fst (accept_compact_block P S C now compact st)))"
    "node_reachable P S (snd (fst (accept_compact_transactions P S C now h ts st)))"
  using assms node_reachable.take [of P S "snd st" h] by (cases st;
      auto simp: accept_compact_block_def accept_compact_transactions_def block_reachable node_reachable.stage
        split: prod.split option.split sum.split compact_reconstruction.split)+

lemma snapshot_reachable:
  assumes "node_reachable P S (snd st)"
  shows "node_reachable P S (snd (fst (serve_manifest P W height h st)))"
    "node_reachable P S (snd (fst (serve_chunk P height h offset len st)))"
  using assms by (cases st; auto simp: serve_manifest_def serve_chunk_def node_reachable.snapshot Let_def
      split: prod.split intro!: reachable_sbind)+

lemma handle_reachable:
  assumes "node_reachable P S n"
  shows "node_reachable P S (snd (fst (handle_message P S C W now message (m, n))))"
proof (cases message)
  case (MsgBlock b)
  then show ?thesis using assms by (auto simp: node_reachable.block intro!: reachable_sbind)
next
  case (MsgBlocks bs)
  have "node_reachable P S (snd (fst (accept_blocks P S now bs (m, n))))"
    unfolding accept_blocks_def
    by (rule handler_for_each [where I = "node_reachable P S"]) (use assms in \<open>auto simp: node_reachable.block\<close>)
  with MsgBlocks show ?thesis by (auto intro!: reachable_sbind)
next
  case (MsgTransaction t)
  then show ?thesis using assms by (auto simp: accept_transaction_reachable intro!: reachable_sbind)
next
  case (MsgTransactions ts)
  have "node_reachable P S (snd (fst (for_each (accept_transaction P now) ts (m, n))))"
    by (rule handler_for_each [where I = "node_reachable P S"])
      (use assms in \<open>auto simp: accept_transaction_reachable\<close>)
  with MsgTransactions show ?thesis by (auto intro!: reachable_sbind)
qed (use assms in \<open>simp_all add: compact_reachable snapshot_reachable\<close>)


text \<open>The messages that may change the node or the counters.\<close>

fun carries_update :: "('blk, 'hdr, 'tx, 'gen, 'cb) network_message \<Rightarrow> bool" where
  "carries_update (MsgBlock _) = True"
| "carries_update (MsgBlocks _) = True"
| "carries_update (MsgTransaction _) = True"
| "carries_update (MsgTransactions _) = True"
| "carries_update (MsgCompactBlock _) = True"
| "carries_update (MsgCompactBlockTransactions _ _) = True"
| "carries_update _ = False"

text \<open>\<open>only_snapshot n n'\<close>: the nodes agree except perhaps in the cached snapshot.\<close>

definition only_snapshot where
  "only_snapshot n n' \<longleftrightarrow> n' = n\<lparr>nd_snapshot_cache := nd_snapshot_cache n'\<rparr>"

lemma only_snapshot_refl [simp]: "only_snapshot n n"
  by (simp add: only_snapshot_def)

lemma snapshot_bytes_only [simp]: "only_snapshot n (fst (snapshot_bytes P n))"
  by (auto simp: snapshot_bytes_def sbind_def only_snapshot_def split: option.split sum.split)

lemma sbind_same_state:
  assumes "\<And>st x. fst (f st x) = st"
  shows "fst (sbind m f) = fst m"
  using assms by (cases m; cases "snd m") simp_all

lemma serve_only:
  "fst (fst (serve_manifest P W height h (m, n))) = m \<and> only_snapshot n (snd (fst (serve_manifest P W height h (m, n))))"
  "fst (fst (serve_chunk P height h offset len (m, n))) = m \<and>
   only_snapshot n (snd (fst (serve_chunk P height h offset len (m, n))))"
  by (simp_all add: serve_manifest_def serve_chunk_def sbind_same_state Let_def case_prod_beta)

text \<open>C20: Only blocks, transactions and compact block parts change anything: for every other message the
  traffic counters stay as they are and at most the cached snapshot of the node is refreshed.\<close>

theorem query_changes_nothing:
  assumes "\<not> carries_update message" "handle_message P S C W now message (m, n) = ((m', n'), r)"
  shows "m' = m \<and> n' = n\<lparr>nd_snapshot_cache := nd_snapshot_cache n'\<rparr>"
proof -
  have "fst (fst (handle_message P S C W now message (m, n))) = m \<and>
      only_snapshot n (snd (fst (handle_message P S C W now message (m, n))))"
    using assms(1) serve_only [of P] by (cases message) simp_all
  then show ?thesis unfolding assms(2) only_snapshot_def fst_conv snd_conv .
qed

section \<open>Ranges\<close>

lemma map_while_nth: "i < length (map_while f xs) \<Longrightarrow> i < length xs \<and> f (xs ! i) = Some (map_while f xs ! i)"
  by (induction f xs arbitrary: i rule: map_while.induct) (auto simp: nth_Cons split: option.splits nat.splits)

lemma map_while_stop: "length (map_while f xs) < length xs \<Longrightarrow> f (xs ! length (map_while f xs)) = None"
  by (induction f xs rule: map_while.induct) (auto split: option.splits)

lemma height_range_nth:
  assumes "i < length (height_range start limit)"
  shows "height_range start limit ! i = start + of_nat i" "unat start + i < 2 ^ 64"
proof -
  have "unat start + i < unat (sat_add start (ucast (min limit MAX_RANGE_RESPONSE_ITEMS)))"
    using assms by (simp add: height_range_def less_diff_conv)
  moreover have "\<dots> < 2 ^ 64" by (rule u64_less)
  ultimately show "unat start + i < 2 ^ 64" by linarith
  show "height_range start limit ! i = start + of_nat i"
    using assms by (simp add: height_range_def)
qed

lemma height_range_length:
  "length (height_range start limit) = min (min (unat limit) 64) (2 ^ 64 - 1 - unat start)"
proof -
  have "unat (ucast (min limit MAX_RANGE_RESPONSE_ITEMS) :: u64) = min (unat limit) 64"
    by (simp add: min_def MAX_RANGE_RESPONSE_ITEMS_def unsigned_ucast_eq word_le_nat_alt take_bit_nat_eq_self)
  moreover have "unat start < 2 ^ 64" by (rule u64_less)
  ultimately show ?thesis by (simp add: height_range_def unat_sat_add)
qed

text \<open>C34: A request for a range of blocks is answered with consecutive blocks of the active chain from the
  requested height on: at most 64, at most as many as asked for, never past the last height, and
  ending early only at a height that the chain does not have.\<close>

theorem block_range_reply:
  "\<exists>blocks. handle_message P S C W now (MsgGetBlocksByHeightRange start limit) st =
      (st, Inr (Some (MsgBlocks blocks))) \<and>
    length blocks \<le> min (unat limit) 64 \<and>
    (\<forall>i < length blocks. unat start + i < 2 ^ 64 \<and>
       ldg_block P (nd_ledger (snd st)) (start + of_nat i) = Some (blocks ! i)) \<and>
    (length blocks < min (min (unat limit) 64) (2 ^ 64 - 1 - unat start) \<longrightarrow>
       ldg_block P (nd_ledger (snd st)) (start + of_nat (length blocks)) = None)"
proof -
  let ?f = "ldg_block P (nd_ledger (snd st))" and ?hs = "height_range start limit"
  let ?bs = "map_while ?f ?hs"
  have len: "length ?bs \<le> length ?hs"
    using map_while_nth [of "length ?hs" ?f ?hs] by (meson leI less_irrefl)
  have "\<forall>i < length ?bs. unat start + i < 2 ^ 64 \<and> ?f (start + of_nat i) = Some (?bs ! i)"
    using map_while_nth [of _ ?f ?hs] height_range_nth [of _ start limit] by metis
  moreover have "?f (start + of_nat (length ?bs)) = None" if "length ?bs < length ?hs"
    using map_while_stop [OF that] height_range_nth(1) [OF that] by simp
  ultimately show ?thesis
    using len by (intro exI [of _ ?bs]) (simp add: height_range_length)
qed

section \<open>Snapshots and reconciliation\<close>

text \<open>C10: A snapshot chunk that a node serves decompresses, on the side of the peer, to exactly the bytes
  of the node's snapshot at the requested offset, as many as requested or as are left.\<close>

theorem snapshot_chunk_reply:
  assumes tip: "node_tip_height P n = Some height" "node_tip_hash P n = Some h"
    and bytes: "snapshot_bytes P n = (n', Inr bs)" "length bs < 2 ^ 64"
    and req: "0 < len" "len \<le> SNAPSHOT_CHUNK_SIZE" "unat offset < length bs"
  shows "\<exists>compression k encoded. handle_message P S C W now (MsgGetSnapshotChunk height h offset len) (m, n) =
      ((m, n'), Inr (Some (MsgSnapshotChunk height h offset compression k encoded))) \<and>
    decompress_chunk compression encoded (unat k) = Inr (take (unat len) (drop (unat offset) bs))"
proof -
  let ?chunk = "take (unat len) (drop (unat offset) bs)"
  have limit: "unat len \<le> unat SNAPSHOT_CHUNK_SIZE" using req(2) by (simp add: word_le_nat_alt)
  have k: "unat (of_nat (length ?chunk) :: u32) = length ?chunk"
  proof -
    have "length ?chunk < 2 ^ 32"
      using limit by (simp add: SNAPSHOT_CHUNK_SIZE_def min_def)
    then show ?thesis by (simp add: unat_of_nat del: length_take)
  qed
  obtain compression encoded where c: "compress_chunk ?chunk = (compression, encoded)" by fastforce
  have "take (min (min (unat offset + unat len) (2 ^ 64 - 1)) (length bs) - unat offset) (drop (unat offset) bs) = ?chunk"
    using bytes(2) by (simp add: min_def) 
  moreover have "decompress_chunk compression encoded (length ?chunk) = Inr ?chunk"
    using limit by (intro decompress_compress [OF _ c]) simp
  ultimately show ?thesis
    using tip bytes(1) req c k
    by (auto simp: serve_chunk_def on_node_eq [of "snapshot_bytes P", OF bytes(1)] Let_def not_le [symmetric])
qed

lemma reconcile_missing_exact:
  assumes "map_res (tx_hash P) ts = Inr hs"
  shows "reconcile_missing P C epoch remote ts = Inr (map fst (filter (\<lambda>(t, h).
      reconcile_short_id C epoch h mod RECONCILE_BUCKETS = epoch mod RECONCILE_BUCKETS \<and>
      reconcile_short_id C epoch h \<notin> set remote) (zip ts hs)))"
  using assms by (induction ts arbitrary: hs) (auto simp: rbind_Inr_iff Let_def)

text \<open>C35: Reconciling mempools: unless the identifiers are too many or repeated, the node answers with
  exactly the transactions of its pool whose short identifier falls into the bucket of the epoch and
  is not among those of the peer, in the order of the pool.\<close>

theorem reconcile_mempool_reply:
  assumes "map_res (tx_hash P) (mp_values (nd_mempool n)) = Inr hs"
    and "length short_ids \<le> MAX_RECONCILE_SHORT_IDS C" "distinct short_ids"
  shows "handle_message P S C W now (MsgReconcileMempool epoch short_ids) (m, n) =
    ((m, n), Inr (Some (MsgTransactions (map fst (filter (\<lambda>(t, h).
      reconcile_short_id C epoch h mod 16 = epoch mod 16 \<and> reconcile_short_id C epoch h \<notin> set short_ids)
      (zip (mp_values (nd_mempool n)) hs))))))"
  using reconcile_missing_exact [OF assms(1), of C epoch short_ids] assms(2,3)
  by (simp add: reconcile_mempool_def RECONCILE_BUCKETS_def distinct_remdups_id)

section \<open>Instances\<close>

text \<open>A node that holds the genesis block, a two-byte snapshot and one pooled transaction.\<close>

definition sample_holder ::
  "(sample_tx, sample_ledger, sample_block, sample_header, sample_account, sample_block list, unit, unit, unit, unit) node" where
  "sample_holder = \<lparr>orphan_blocks = [], orphan_children_by_parent = [], missing_parent_requests = [],
     missing_parent_request_set = {}, missing_parent_retry_at = [], nd_ledger = SLdg [5, 6] [sample_genesis],
     nd_mempool = (with_config mempool_config_default)\<lparr>mp_transactions := [([1], STx 1 2 3 4 [])]\<rparr>,
     nd_storage = (), nd_consensus = (), nd_cache = cache_new, nd_fork_choice = [sample_genesis],
     nd_genesis_accounts = [], nd_pending_compact_blocks = [], nd_snapshot_cache = None,
     nd_block_validation_failures_total = 0, nd_reorgs_total = 0\<rparr>"

abbreviation sample_net :: "(sample_block, sample_header, sample_tx, unit, unit) wire_api" where
  "sample_net \<equiv> sample_wire"


theorem query_changes_nothing_witness:
  "\<not> carries_update (MsgPing 3 :: (sample_block, sample_header, sample_tx, unit, unit) network_message) \<and>
   (\<exists>m' n' r. handle_message sample_node null_store sample_compact sample_net 5 (MsgPing 3) (metrics_new, sample_holder) =
      ((m', n'), r) \<and> m' = metrics_new \<and> n' = sample_holder\<lparr>nd_snapshot_cache := nd_snapshot_cache n'\<rparr>)"
proof -
  have "\<not> carries_update (MsgPing 3 :: (sample_block, sample_header, sample_tx, unit, unit) network_message)" by simp
  moreover obtain m' n' r where run: "handle_message sample_node null_store sample_compact sample_net 5 (MsgPing 3)
      (metrics_new, sample_holder) = ((m', n'), r)" by auto
  moreover note query_changes_nothing [OF _ run]
  ultimately show ?thesis by blast
qed

theorem block_range_reply_witness:
  "\<exists>blocks. handle_message sample_node null_store sample_compact sample_net 5 (MsgGetBlocksByHeightRange 0 9)
      (metrics_new, sample_holder) = ((metrics_new, sample_holder), Inr (Some (MsgBlocks blocks))) \<and> length blocks \<le> 9"
proof -
  have "min (unat (9 :: u32)) 64 = 9" by simp
  then show ?thesis
    using block_range_reply [of sample_node null_store sample_compact sample_net 5 0 9 "(metrics_new, sample_holder)"]
    by force
qed

theorem snapshot_chunk_reply_witness:
  "\<exists>compression k encoded. handle_message sample_node null_store sample_compact sample_net 5
      (MsgGetSnapshotChunk 0 [7] 1 4) (metrics_new, sample_holder) =
      ((metrics_new, sample_holder\<lparr>nd_snapshot_cache := Some ([7], [5, 6])\<rparr>),
       Inr (Some (MsgSnapshotChunk 0 [7] 1 compression k encoded))) \<and>
    decompress_chunk compression encoded (unat k) = Inr [6]"
proof -
  have tip: "node_tip_height sample_node sample_holder = Some 0" "node_tip_hash sample_node sample_holder = Some [7]"
    by code_simp+
  have "snapshot_bytes sample_node sample_holder = (sample_holder\<lparr>nd_snapshot_cache := Some ([7], [5, 6])\<rparr>, Inr [5, 6])"
    using tip by (simp add: snapshot_bytes_def sample_holder_def sample_node_def chain_api.defs node_api.defs)
  from snapshot_chunk_reply [OF tip this, of 4 1 null_store sample_compact sample_net 5 metrics_new]
  show ?thesis by (simp add: SNAPSHOT_CHUNK_SIZE_def)
qed

theorem reconcile_mempool_reply_witness:
  "handle_message sample_node null_store (sample_compact\<lparr>domain_hash_raw := \<lambda>_. [5]\<rparr>) sample_net 5 (MsgReconcileMempool 5 [])
     (metrics_new, sample_holder) = ((metrics_new, sample_holder), Inr (Some (MsgTransactions [STx 1 2 3 4 []])))"
proof -
  have hs: "map_res (tx_hash sample_node) (mp_values (nd_mempool sample_holder)) = Inr [[1]]" by code_simp
  have "map fst (filter (\<lambda>(t, h).
      reconcile_short_id (sample_compact\<lparr>domain_hash_raw := \<lambda>_. [5]\<rparr>) 5 h mod 16 = 5 mod 16 \<and> reconcile_short_id (sample_compact\<lparr>domain_hash_raw := \<lambda>_. [5]\<rparr>) 5 h \<notin> set [])
      (zip (mp_values (nd_mempool sample_holder)) [[1]])) = [STx 1 2 3 4 []]" by code_simp
  with reconcile_mempool_reply [OF hs, of "[]" "sample_compact\<lparr>domain_hash_raw := \<lambda>_. [5]\<rparr>" null_store sample_net 5 5 metrics_new] show ?thesis by simp
qed

text \<open>A file system that records which paths exist, and a bundle format with one valid content.\<close>

definition sample_files :: "(path list, unit) fs_api" where
  "sample_files = \<lparr>fs_exists = (\<lambda>fs p. p \<in> set fs), fs_metadata_len = (\<lambda>fs p. Inr 1),
     fs_read = (\<lambda>fs p. Inr [1]), fs_write = (\<lambda>p bs fs. (p # fs, Inr ())),
     fs_create_dir_all = (\<lambda>p fs. (p # fs, Inr ())), fs_rename = (\<lambda>a b fs. (b # fs, Inr ())),
     fs_remove_dir_all = (\<lambda>p fs. (filter (\<lambda>q. q \<noteq> p) fs, Inr ())),
     storage_open = (\<lambda>p fs. (fs, Inr ())), storage_drop = (\<lambda>p env fs. fs), path_display = concat\<rparr>"

definition sample_bundles :: "(sample_header, sample_ledger, unit) bundle_api" where
  "sample_bundles = \<lparr>cod_bundle = ((\<lambda>b. Inr (fb_snapshot b)),
       (\<lambda>bs. Inr \<lparr>fb_version = 1, fb_headers = [], fb_snapshot = bs\<rparr>)),
     ledger_from_authenticated_snapshot = (\<lambda>bs hs. if bs = [1] then Inr (SLdg [] [sample_genesis], ()) else Inl ''forged''),
     genesis_paqus_bytes = Inr [], genesis_file_name = ''genesis'', artifact_error_text = (\<lambda>e. ''artifact'')\<rparr>"

lemma sample_files_laws: "fs_laws sample_files"
  by (auto simp: fs_laws_def sample_files_def)


end
