(* ===== verification/Peer_Props.thy ===== *)
theory Peer_Props
  imports Peers Handler_Props
begin

text \<open>
  Properties of the peer bookkeeping: reputations and sync windows stay in range, the request
  budget holds, the gossip memory is bounded, the locator spans the chain and a parallel download
  plan covers its range.
\<close>

section \<open>The reputation stays in range\<close>

inductive peer_reachable :: "peer_state \<Rightarrow> bool" where
  new: "peer_reachable (peer_new now time a)"
| ok: "peer_reachable p \<Longrightarrow> peer_reachable (mark_ok now time tip p)"
| synced: "peer_reachable p \<Longrightarrow> peer_reachable (mark_synced now time height blocks p)"
| failed: "peer_reachable p \<Longrightarrow> peer_reachable (mark_failed now time p)"
| latency: "peer_reachable p \<Longrightarrow> peer_reachable (set_latency time l p)"

definition peer_ok :: "peer_state \<Rightarrow> bool" where
  "peer_ok p \<longleftrightarrow> 0 \<le> pe_score p \<and> pe_score p < 2 ^ 31 \<and> 32 \<le> unat (pe_sync_window p) \<and> unat (pe_sync_window p) \<le> 256"

lemma peer_reachable_wf: "peer_reachable p \<Longrightarrow> peer_ok p"
proof (induction rule: peer_reachable.induct)
  case (synced p now time height blocks)
  have "unat (min (sat_mul (pe_sync_window p) 2) MAX_BLOCKS_PER_SYNC) = min (2 * unat (pe_sync_window p)) 256"
    using synced.IH by (simp add: peer_ok_def min_def word_le_nat_alt unat_sat_mul MAX_BLOCKS_PER_SYNC_def)
  with synced.IH show ?case
    by (auto simp: peer_ok_def mark_synced_def i32_sat_def PEER_SYNC_REWARD_def)
next
  case (failed p now time)
  have "unat (max (pe_sync_window p div 2) MIN_BLOCKS_PER_SYNC) = max (unat (pe_sync_window p) div 2) 32"
    by (simp add: max_def word_le_nat_alt unat_div MIN_BLOCKS_PER_SYNC_def)
  with failed.IH show ?case
    by (auto simp: peer_ok_def mark_failed_def Let_def i32_sat_def PEER_FAILURE_PENALTY_def)
qed (auto simp: peer_ok_def peer_new_def mark_ok_def set_latency_def i32_sat_def peer_constants)

lemma retry_secs_cases: "retry_secs f \<in> {2, 4, 8, 16, 32, 60}"
proof -
  have "unat (min (sat_sub f 1) 5) \<le> 5" by (simp add: min_def word_le_nat_alt)
  then have "unat (min (sat_sub f 1) 5) \<in> {0, 1, 2, 3, 4, 5}" by auto
  then show ?thesis
    by (auto simp: retry_secs_def peer_constants push_bit_eq_mult sat_mul_def min_def)
qed

text \<open>C36: However often peers answer, deliver blocks or fail, a peer's score is a non-negative 32-bit number and
  its sync window lies between 32 and 256 blocks; a failure delays the next attempt by 2 to 60
  seconds and, from a score of 80 on, bans the peer for ten minutes.\<close>

theorem peer_reachable_consistent:
  assumes "peer_reachable p"
  shows "0 \<le> pe_score p \<and> pe_score p < 2 ^ 31 \<and> 32 \<le> unat (pe_sync_window p) \<and> unat (pe_sync_window p) \<le> 256 \<and>
    now + 2000 \<le> pe_next_attempt (mark_failed now time p) \<and>
    pe_next_attempt (mark_failed now time p) \<le> now + 60000 \<and>
    (80 \<le> pe_score p \<longrightarrow> (\<forall>t < now + 600000. is_banned t (mark_failed now time p)))"
proof -
  have ok: "peer_ok p" by (rule peer_reachable_wf [OF assms])
  have "2 \<le> unat (retry_secs f) \<and> unat (retry_secs f) \<le> 60" for f
    using retry_secs_cases [of f] by auto
  moreover have "is_banned t (mark_failed now time p)" if "80 \<le> pe_score p" "t < now + 600000" for t
    using ok that by (auto simp: peer_ok_def is_banned_def mark_failed_def Let_def i32_sat_def peer_constants)
  ultimately show ?thesis
    using ok by (auto simp: peer_ok_def mark_failed_def Let_def)
qed

theorem peer_reachable_consistent_witness:
  "peer_reachable (mark_failed 5 1 (peer_new 0 1 ''peer'')) \<and>
   unat (pe_sync_window (mark_failed 5 1 (peer_new 0 1 ''peer''))) \<le> 256"
proof -
  have "peer_reachable (mark_failed 5 1 (peer_new 0 1 ''peer''))"
    by (intro peer_reachable.intros)
  with peer_reachable_consistent [OF this] show ?thesis by blast
qed

section \<open>The request budget holds\<close>

fun budget_run :: "request_budget \<Rightarrow> instant list \<Rightarrow> (string + unit) list" where
  "budget_run b [] = []"
| "budget_run b (t # ts) = (case check_request_budget t b of (b, r) \<Rightarrow> r # budget_run b ts)"

lemma budget_run_window:
  assumes "\<forall>t \<in> set ts. t - rq_window_started b < 10000"
  shows "length (filter (\<lambda>r. r = Inr ()) (budget_run b ts)) = min (64 - unat (rq_count b)) (length ts)"
  using assms
proof (induction ts arbitrary: b)
  case (Cons t ts)
  let ?b = "b\<lparr>rq_count := sat_add (rq_count b) 1\<rparr>"
  have step: "check_request_budget t b =
      (?b, if 64 \<le> unat (rq_count b) then Inl ''peer request rate limit exceeded'' else Inr ())"
    using Cons.prems u64_less
    by (auto simp: check_request_budget_def PEER_REQUEST_WINDOW_def MAX_PEER_REQUESTS_PER_WINDOW_def Let_def
        word_less_nat_alt unat_sat_add)
  have "unat (sat_add (rq_count b) 1) = min (unat (rq_count b) + 1) (2 ^ 32 - 1)" by (simp add: unat_sat_add)
  with Cons.IH [of ?b] Cons.prems show ?case by (auto simp: step)
qed simp

text \<open>C37: Within one ten-second window exactly the first 64 requests to a peer pass the budget.\<close>

theorem request_budget_window:
  assumes "rq_count b = 0" "\<forall>t \<in> set ts. t - rq_window_started b < 10000"
  shows "length (filter (\<lambda>r. r = Inr ()) (budget_run b ts)) = min 64 (length ts)"
  using budget_run_window [of ts b] assms by simp

theorem request_budget_window_witness:
  "length (filter (\<lambda>r. r = Inr ()) (budget_run \<lparr>rq_window_started = 0, rq_count = 0\<rparr> (replicate 70 3))) = 64"
proof -
  have "length (filter (\<lambda>r. r = Inr ()) (budget_run \<lparr>rq_window_started = 0, rq_count = 0\<rparr> (replicate 70 3))) =
      min 64 (length (replicate 70 (3 :: nat)))"
    by (rule request_budget_window) simp_all
  then show ?thesis by simp
qed

section \<open>Gossip memory\<close>

definition seen_ok :: "nat \<Rightarrow> 'a set \<Rightarrow> 'a list \<Rightarrow> bool" where
  "seen_ok capacity seen order \<longleftrightarrow> seen = set order \<and> distinct order \<and> length order \<le> capacity"

lemma evict_seen_drop:
  "seen = set order \<Longrightarrow> distinct order \<Longrightarrow>
   evict_seen capacity seen order = (set (drop (length order - capacity) order), drop (length order - capacity) order)"
proof (induction capacity seen order rule: evict_seen.induct)
  case (2 capacity seen x order)
  then show ?case
    by (cases "capacity < card seen") (auto simp: distinct_card Suc_diff_le)
qed simp

lemma mark_seen_spec:
  assumes "seen_ok capacity seen order" "0 < capacity" "mark_seen capacity seen order v = ((seen', order'), fresh)"
  shows "seen_ok capacity seen' order' \<and> v \<in> seen' \<and> (fresh \<longleftrightarrow> v \<notin> set order) \<and>
    order' = (if fresh then drop (Suc (length order) - capacity) (order @ [v]) else order)"
proof (cases "v \<in> seen")
  case True
  with assms show ?thesis by (auto simp: mark_seen_def seen_ok_def)
next
  case False
  have "evict_seen capacity (insert v seen) (order @ [v]) =
      (set (drop (Suc (length order) - capacity) (order @ [v])), drop (Suc (length order) - capacity) (order @ [v]))"
    using evict_seen_drop [of "insert v seen" "order @ [v]" capacity] assms(1) False
    by (simp add: seen_ok_def)
  then have eq: "seen' = set order'" "order' = drop (Suc (length order) - capacity) (order @ [v])" "fresh"
    using assms(2,3) False by (auto simp: mark_seen_def)
  have le: "Suc (length order) - capacity \<le> length order" using assms(2) by simp
  then have v: "order' = drop (Suc (length order) - capacity) order @ [v]" using eq(2) by simp
  have "distinct order'" using assms(1) False v by (auto simp: seen_ok_def dest: in_set_dropD)
  with eq v assms False show ?thesis by (auto simp: seen_ok_def)
qed

lemma dedupe_loop_spec:
  "distinct (dedupe_loop seen ps) \<and> set (dedupe_loop seen ps) = set ps - seen"
  by (induction ps arbitrary: seen) (auto simp: insert_Diff_if)

lemma dedupe_peers_spec: "distinct (dedupe_peers ps) \<and> set (dedupe_peers ps) = set ps"
  using dedupe_loop_spec [of "{}" ps] by (simp add: dedupe_peers_def)

section \<open>The locator reaches from the tip to genesis\<close>

text \<open>What the loop returns: the hash at its height, if any, then hashes of headers below.\<close>

lemma locator_loop_spec:
  assumes "locator_loop P ledger height step locator = Inr hs" "length locator < 32"
  shows "\<exists>rest. hs = locator @ rest \<and> length hs \<le> 32 \<and>
    (\<forall>header h. ldg_header P ledger height = Some header \<and> hdr_hash P header = Inr h \<longrightarrow> rest \<noteq> [] \<and> hd rest = h) \<and>
    (\<forall>h \<in> set rest. \<exists>height' header. height' \<le> height \<and> ldg_header P ledger height' = Some header \<and>
       hdr_hash P header = Inr h)"
  using assms
proof (induction P ledger height step locator rule: locator_loop.induct)
  case (1 P ledger height step locator)
  obtain locator1 where l1: "(case ldg_header P ledger height of None \<Rightarrow> Inr locator
      | Some header \<Rightarrow> rbind (map_err (txt_codec (error_fmt_api P)) (hdr_hash P header)) (\<lambda>h. Inr (locator @ [h]))) =
      (Inr locator1 :: string + hash list)"
    and rest: "(if height = 0 \<or> step = 0 \<or> MAX_BLOCK_LOCATOR_HASHES \<le> length locator1 then Inr locator1
      else locator_loop P ledger (sat_sub height step)
             (if 10 \<le> length locator1 then sat_mul step 2 else step) locator1) = Inr hs"
    using "1.prems"(1) by (subst (asm) locator_loop.simps) (auto simp: rbind_Inr_iff)
  have head: "locator1 = locator \<and> ldg_header P ledger height = None \<or>
      (\<exists>header h. ldg_header P ledger height = Some header \<and> hdr_hash P header = Inr h \<and> locator1 = locator @ [h])"
    using l1 by (auto simp: rbind_Inr_iff split: option.splits)
  have here: "\<exists>height' \<le> height. \<exists>header. ldg_header P ledger height' = Some header \<and> hdr_hash P header = Inr h"
    if "ldg_header P ledger height = Some header" "hdr_hash P header = Inr h" for header h
    using that by blast
  show ?case
  proof (cases "height = 0 \<or> step = 0 \<or> MAX_BLOCK_LOCATOR_HASHES \<le> length locator1")
    case True
    with rest head "1.prems"(2) show ?thesis by (auto simp: MAX_BLOCK_LOCATOR_HASHES_def intro: here)
  next
    case False
    then have "length locator1 < 32" by (simp add: MAX_BLOCK_LOCATOR_HASHES_def)
    with False rest "1.IH" [OF l1 False] obtain more where more: "hs = locator1 @ more" "length hs \<le> 32"
      "\<forall>h \<in> set more. \<exists>height' header. height' \<le> sat_sub height step \<and> ldg_header P ledger height' = Some header \<and>
        hdr_hash P header = Inr h" by auto
    then have "\<forall>h \<in> set more. \<exists>height' header. height' \<le> height \<and> ldg_header P ledger height' = Some header \<and>
        hdr_hash P header = Inr h"
      using sat_sub_le [of height step] by (meson order_trans)
    with more head show ?thesis by (auto intro: here)
  qed
qed

text \<open>C38: The block locator that a node sends has at most 33 hashes, all of headers of its chain; when the
  chain has the headers, it begins with the hash of the tip and ends with the hash of genesis.\<close>

theorem block_locator_spans:
  assumes run: "block_locator P n = Inr hs" and tip: "node_tip_height P n = Some height"
  shows "length hs \<le> 33 \<and>
    (\<forall>h \<in> set hs. \<exists>height' header. ldg_header P (nd_ledger n) height' = Some header \<and> hdr_hash P header = Inr h) \<and>
    (\<forall>header h. ldg_header P (nd_ledger n) height = Some header \<and> hdr_hash P header = Inr h \<longrightarrow>
       hs \<noteq> [] \<and> hd hs = h) \<and>
    (\<forall>genesis g. ldg_header P (nd_ledger n) 0 = Some genesis \<and> hdr_hash P genesis = Inr g \<and> hs \<noteq> [] \<longrightarrow> last hs = g)"
proof -
  obtain locator where loop: "locator_loop P (nd_ledger n) height 1 [] = Inr locator"
    and rest: "(case ldg_header P (nd_ledger n) 0 of None \<Rightarrow> Inr locator
      | Some genesis \<Rightarrow> if locator \<noteq> [] \<and> hdr_hash P genesis \<noteq> Inr (last locator)
          then rbind (map_err (txt_codec (error_fmt_api P)) (hdr_hash P genesis)) (\<lambda>h. Inr (locator @ [h]))
          else Inr locator) = Inr hs"
    using run tip by (auto simp: block_locator_def rbind_Inr_iff)
  have hs: "hs = locator \<and> (\<forall>genesis. ldg_header P (nd_ledger n) 0 = Some genesis \<and> locator \<noteq> [] \<longrightarrow>
        hdr_hash P genesis = Inr (last locator)) \<or>
      (\<exists>genesis g. ldg_header P (nd_ledger n) 0 = Some genesis \<and> hdr_hash P genesis = Inr g \<and> hs = locator @ [g] \<and> locator \<noteq> [])"
    using rest by (auto simp: rbind_Inr_iff split: option.splits if_splits)
  with locator_loop_spec [OF loop] show ?thesis by (fastforce simp: hd_append)
qed

section \<open>A plan covers the range\<close>

text \<open>\<open>chained start target ranges\<close>: batches of at most 32 heights that follow each other from
  \<open>start\<close> to \<open>target\<close>, each with one header per height.\<close>

fun chained :: "nat \<Rightarrow> nat \<Rightarrow> 'hdr sync_range list \<Rightarrow> bool" where
  "chained start target [] \<longleftrightarrow> start = target + 1"
| "chained start target (r # rs) \<longleftrightarrow>
     unat (sr_start r) = start \<and> start \<le> unat (sr_target r) \<and> unat (sr_target r) \<le> target \<and>
     length (sr_headers r) = unat (sr_target r) - start + 1 \<and> length (sr_headers r) \<le> 32 \<and>
     chained (unat (sr_target r) + 1) target rs"

lemma plan_loop_spec:
  assumes "available \<noteq> []" "unat height \<le> unat target + 1" "target \<noteq> - 1"
    and "unat target + 1 - unat height \<le> length headers"
  shows "\<exists>rs. plan_loop available target headers i height = Some rs \<and> chained (unat height) (unat target) rs \<and>
    concat (map sr_headers rs) = take (unat target + 1 - unat height) headers \<and>
    (\<forall>r \<in> set rs. sr_peer r \<in> set available)"
  using assms
proof (induction available target headers i height rule: plan_loop.induct)
  case (1 available target headers i height)
  have max: "unat target < 2 ^ 64 - 1"
  proof -
    have "unat target \<noteq> unat (- 1 :: u64)" using "1.prems"(3) by (simp add: word_unat_eq_iff)
    then show ?thesis using u64_less [of target] by (simp add: unsigned_minus_1_eq_mask mask_eq_exp_minus_1)
  qed
  show ?case
  proof (cases "height \<le> target")
    case False
    then have "unat height = unat target + 1" using "1.prems"(2) by (simp add: word_le_nat_alt)
    with False show ?thesis by (subst plan_loop.simps) simp
  next
    case True
    then have le: "unat height \<le> unat target" by (simp add: word_le_nat_alt)
    with max have ne: "height \<noteq> - 1" by (auto simp: unsigned_minus_1_eq_mask mask_eq_exp_minus_1)
    define n where "n = min (sat_add (sat_sub target height) 1) MAX_BLOCKS_PER_BATCH"
    have n: "unat n = min (unat target - unat height + 1) 32"
      using max by (simp add: n_def min_def word_le_nat_alt unat_sat_add unat_sat_sub MAX_BLOCKS_PER_BATCH_def)
    have next_h: "unat (sat_add height n) = unat height + unat n"
      using max le n by (simp add: unat_sat_add)
    have target': "unat (sat_sub (sat_add height n) 1) = unat height + unat n - 1"
      using next_h by (simp add: unat_sat_sub)
    have p2: "unat (sat_add height n) \<le> unat target + 1"
      using next_h n le by linarith
    have p4: "unat target + 1 - unat (sat_add height n) \<le> length (drop (unat n) headers)"
      using next_h "1.prems"(4) by simp
    have len: "unat n \<le> length headers" "unat height + unat n \<le> unat target + 1" "0 < unat n" "unat n \<le> 32"
      using n "1.prems"(4) le by auto
    obtain rs where rs: "plan_loop available target (drop (unat n) headers) (Suc i) (sat_add height n) = Some rs"
        "chained (unat (sat_add height n)) (unat target) rs"
        "concat (map sr_headers rs) = take (unat target + 1 - unat (sat_add height n)) (drop (unat n) headers)"
        "\<forall>r \<in> set rs. sr_peer r \<in> set available"
      using "1.IH" [OF _ refl n_def] True ne "1.prems"(1,3) p2 p4 len(1) by auto
    have eq: "plan_loop available target headers i height =
        Some (\<lparr>sr_peer = available ! (i mod length available), sr_start = height,
           sr_target = sat_sub (sat_add height n) 1, sr_headers = take (unat n) headers\<rparr> # rs)"
      using True ne len(1) rs(1) by (subst plan_loop.simps) (simp add: n_def Let_def)
    have "take (unat n) headers @ take (unat target + 1 - (unat height + unat n)) (drop (unat n) headers) =
        take (unat target + 1 - unat height) headers"
      using len by (simp add: take_add [symmetric])
    moreover have "available ! (i mod length available) \<in> set available" using "1.prems"(1) by simp
    ultimately show ?thesis
      using rs len target' next_h by (simp add: eq) arith
  qed
qed

lemma set_insert_by: "set (insert_by cmp x xs) = insert x (set xs)"
  by (induction xs) auto

lemma set_sort_by: "set (sort_by cmp xs) = set xs"
  by (induction xs) (auto simp: sort_by_def set_insert_by)

text \<open>C17: A parallel download plan covers the heights from start to target without gap or overlap in
  batches of at most 32, gives each batch the matching slice of the headers, and assigns it to a
  peer whose chain is high enough.\<close>

theorem plan_parallel_ranges_covers:
  assumes "start \<le> target" "target \<noteq> - 1" "unat target + 1 - unat start \<le> length headers"
    and "\<exists>(a, tip) \<in> set candidates. target \<le> ti_height tip"
  shows "\<exists>ranges. plan_parallel_ranges cmp start target headers candidates = Some ranges \<and>
    chained (unat start) (unat target) ranges \<and>
    concat (map sr_headers ranges) = take (unat target + 1 - unat start) headers \<and>
    (\<forall>r \<in> set ranges. \<exists>tip. (sr_peer r, tip) \<in> set candidates \<and> target \<le> ti_height tip)"
proof -
  let ?available = "map fst (sort_by (\<lambda>(_, left) (_, right). compare_tips cmp right left)
      (filter (\<lambda>(_, tip). target \<le> ti_height tip) candidates))"
  have set: "set ?available = fst ` {(a, tip) \<in> set candidates. target \<le> ti_height tip}"
    by (auto simp: set_sort_by)
  with assms(4) have ne: "?available \<noteq> []" by fastforce
  have "unat start \<le> unat target + 1" using assms(1) by (simp add: word_le_nat_alt)
  note spec = plan_loop_spec [OF ne this assms(2,3), of 0]
  have plan: "plan_parallel_ranges cmp start target headers candidates = plan_loop ?available target headers 0 start"
    using ne by (simp add: plan_parallel_ranges_def)
  have "\<exists>tip. (a, tip) \<in> set candidates \<and> target \<le> ti_height tip" if "a \<in> set ?available" for a
    using that unfolding set by auto
  with spec show ?thesis unfolding plan by blast
qed

theorem plan_parallel_ranges_covers_witness:
  "\<exists>ranges. plan_parallel_ranges (\<lambda>_ _ _ _. Equal) 5 7 [''a'', ''b'', ''c''] [(''peer'', \<lparr>ti_height = 9, ti_hash = [], ti_work = []\<rparr>)] = Some ranges \<and>
   chained 5 7 ranges \<and> concat (map sr_headers ranges) = [''a'', ''b'', ''c'']"
  using plan_parallel_ranges_covers [of 5 7 "[''a'', ''b'', ''c'']" "[(''peer'', \<lparr>ti_height = 9, ti_hash = [], ti_work = []\<rparr>)]"
      "\<lambda>_ _ _ _. Equal"]
  by auto

theorem block_locator_spans_witness:
  "\<exists>hs. block_locator sample_node sample_holder = Inr hs \<and> length hs \<le> 33 \<and> hs \<noteq> [] \<and> last hs = [7]"
proof -
  have run: "block_locator sample_node sample_holder = Inr [[7]]" by code_simp
  have tip: "node_tip_height sample_node sample_holder = Some 0" by code_simp
  show ?thesis using block_locator_spans [OF run tip] run by auto
qed

end
