(* ===== verification/Connection.thy ===== *)
theory Connection
  imports Peer_Props
begin

text \<open>
  Connections to peers (\<open>p2p/mod.rs\<close>, \<open>rpc/transport.rs\<close>): the reader of a connection, requests on it
  with the messages a peer sends in between, compact blocks and their fallback. What a request finds
  in its channel is given as a list of events, so that every order of arrival is covered.
\<close>

section \<open>The reader of a connection\<close>

text \<open>Every read that delivers something or fails uses up part of the stream.\<close>

fun stream_weight :: "read_event list \<Rightarrow> nat" where
  "stream_weight [] = 0"
| "stream_weight (Arrived bytes # events) = Suc (length bytes) + stream_weight events"
| "stream_weight (Failed _ _ # events) = Suc (stream_weight events)"

lemma reader_read_weight:
  "reader_read n events = (events', Inr bytes) \<Longrightarrow> 0 < n \<Longrightarrow>
     stream_weight events' \<le> stream_weight events \<and> (bytes \<noteq> [] \<longrightarrow> stream_weight events' < stream_weight events)"
  "reader_read n events = (events', Inl e) \<Longrightarrow> stream_weight events' < stream_weight events"
  by (induction n events rule: reader_read.induct) (auto split: if_splits)

text \<open>A read that timed out; the reader of a connection goes on after it.\<close>

fun timed_out :: "network_error \<Rightarrow> bool" where
  "timed_out (NetworkIo (IoFailure kind _)) \<longleftrightarrow> kind = WouldBlock \<or> kind = TimedOut"
| "timed_out _ \<longleftrightarrow> False"

lemma read_exact_weight:
  "read_exact_logged phase expected received events = (events', r) \<Longrightarrow>
     stream_weight events' \<le> stream_weight events \<and>
     ((\<exists>x. r = Inr x \<and> length received < expected) \<or> (\<exists>e. r = Inl e \<and> timed_out e) \<longrightarrow>
       stream_weight events' < stream_weight events)"
proof (induction phase expected received events arbitrary: events' r rule: read_exact_logged.induct)
  case (1 phase expected received events)
  show ?case
  proof (cases "length received < expected")
    case True
    obtain evs r0 where read: "reader_read (expected - length received) events = (evs, r0)" by fastforce
    show ?thesis
    proof (cases r0)
      case (Inl e)
      then show ?thesis
        using "1.prems" "1.IH"(1) [OF True read [symmetric], of e "fst e" "snd e" events' r] True
          reader_read_weight(2) [of "expected - length received" events evs e] read
        by (subst (asm) read_exact_logged.simps) (auto split: prod.splits if_splits)
    next
      case (Inr bytes)
      then show ?thesis
        using "1.prems" "1.IH"(2) [OF True read [symmetric], of bytes events' r] True
          reader_read_weight(1) [of "expected - length received" events evs bytes] read
        by (subst (asm) read_exact_logged.simps) (auto split: if_splits)
    qed
  next
    case False
    with "1.prems" show ?thesis by (subst (asm) read_exact_logged.simps) auto
  qed
qed

lemma read_message_weight:
  assumes "read_message W (m, events) = ((m', events'), r)"
  shows "(\<exists>x. r = Inr x) \<or> (\<exists>e. r = Inl e \<and> timed_out e) \<Longrightarrow> stream_weight events' < stream_weight events"
proof -
  obtain e1 r1 where first: "read_exact_logged ''length'' MESSAGE_LENGTH_SIZE [] events = (e1, r1)" by fastforce
  note w1 = read_exact_weight [OF first, unfolded MESSAGE_LENGTH_SIZE_def]
  show "stream_weight events' < stream_weight events" if ok: "(\<exists>x. r = Inr x) \<or> (\<exists>e. r = Inl e \<and> timed_out e)"
  proof (cases r1)
    case (Inl e)
    then show ?thesis using assms first w1 ok by (auto simp: read_message_def)
  next
    case (Inr bytes)
    obtain e2 r2 where second: "read_exact_logged ''payload'' (be_value bytes) [] e1 = (e2, r2)" by fastforce
    have "stream_weight e2 \<le> stream_weight e1" using read_exact_weight [OF second] by simp
    moreover have "events' = e1 \<or> events' = e2"
      using assms first second Inr
      by (auto simp: read_message_def Let_def sbind_def split: if_splits sum.splits)
    ultimately show ?thesis using w1 Inr by auto
  qed
qed

text \<open>
  The loop of the reader thread: what it passes to its channel, as long as neither a shutdown nor the
  end of the receiver stops it.
\<close>

function peer_reader where
  "peer_reader W st =
     (case read_message W st of
        (st', Inr envelope) \<Rightarrow> envelope # peer_reader W st'
      | (st', Inl e) \<Rightarrow> if timed_out e then peer_reader W st' else [])"
  by pat_completeness auto
termination
  by (relation "measure (\<lambda>(W, m, events). stream_weight events)") (auto dest!: read_message_weight [OF sym])

declare peer_reader.simps [simp del]

section \<open>Connections\<close>

text \<open>
  What a waiting request finds at its successive turns: an envelope the reader thread passed on, a
  poll interval in which nothing came, the end of the channel, its own deadline, or the shutdown of
  the node.
\<close>

datatype ('blk, 'hdr, 'tx, 'gen, 'cb) peer_event =
  Delivered "('blk, 'hdr, 'tx, 'gen, 'cb) network_envelope"
| Quiet
| Disconnected string
| DeadlinePassed
| ShutdownSeen

text \<open>
  A connection: \<open>responses\<close> is there on connections the node opened itself (\<open>pc_routed\<close>), fed by the
  reader thread; \<open>pc_inbox\<close> is what it will find there. On an accepted connection the answers are read
  from the stream, whose reads are \<open>pc_reads\<close>. \<open>pc_stream\<close> is the side that is written.
\<close>

record ('blk, 'hdr, 'tx, 'gen, 'cb, 'w) peer_connection = request_budget +
  pc_addr :: addr
  pc_stream :: 'w
  pc_reads :: "read_event list"
  pc_handshaken :: bool
  pc_request_ids :: u64
  pc_routed :: bool
  pc_inbox :: "('blk, 'hdr, 'tx, 'gen, 'cb) peer_event list"
  pc_pending_responses :: "(u64, ('blk, 'hdr, 'tx, 'gen, 'cb) network_message) btree"
  pc_attached :: bool

text \<open>
  What a call on a connection works on: the counters, the shared node, the shutdown flag, the
  clock (milliseconds of the monotonic clock, seconds of the wall clock) and the connection.
\<close>

record ('node, 'conn) session =
  ss_metrics :: network_metrics
  ss_node :: 'node
  ss_shutdown :: bool
  ss_instant :: instant
  ss_time :: u64
  ss_conn :: 'conn

definition connection_new ::
  "bool \<Rightarrow> instant \<Rightarrow> addr \<Rightarrow> 'w \<Rightarrow> read_event list \<Rightarrow> ('blk, 'hdr, 'tx, 'gen, 'cb) peer_event list \<Rightarrow>
   ('blk, 'hdr, 'tx, 'gen, 'cb, 'w) peer_connection" where
  "connection_new routed now addr stream reads inbox =
     \<lparr>rq_window_started = now, rq_count = 0, pc_addr = addr, pc_stream = stream, pc_reads = reads,
      pc_handshaken = False, pc_request_ids = 1, pc_routed = routed, pc_inbox = inbox,
      pc_pending_responses = [], pc_attached = False\<rparr>"

text \<open>\<open>connect_peer\<close> and the stream options are calls of the operating system.\<close>

definition connection_connect where
  "connection_connect open_stream now addr =
     rbind (open_stream addr) (\<lambda>(stream, inbox). Inr (connection_new True now addr stream [] inbox))"

definition connection_from_stream where
  "connection_from_stream configure now addr stream reads =
     rbind (configure stream) (\<lambda>_. Inr (connection_new False now addr stream reads []))"

definition mark_handshaken where
  "mark_handshaken c = c\<lparr>pc_handshaken := True\<rparr>"

definition attach_node where
  "attach_node c = c\<lparr>pc_attached := True\<rparr>"

section \<open>Calls on the parts of a session\<close>

definition on_conn where
  "on_conn f s = (case f (ss_conn s) of (c, r) \<Rightarrow> (s\<lparr>ss_conn := c\<rparr>, r))"

definition put_envelope where
  "put_envelope P W write_all what envelope s =
     (case write_message W write_all envelope (ss_metrics s, pc_stream (ss_conn s)) of
        ((m, w), r) \<Rightarrow> (s\<lparr>ss_metrics := m, ss_conn := (ss_conn s)\<lparr>pc_stream := w\<rparr>\<rparr>,
          map_err (\<lambda>e. what @ network_error_fmt (error_fmt_api P) e) r))"

definition handle_on ::
  "_ \<Rightarrow> _ \<Rightarrow> _ \<Rightarrow> ('blk, 'hdr, 'tx, 'gen, 'cb, _) wire_api_scheme \<Rightarrow> string \<Rightarrow>
   ('blk, 'hdr, 'tx, 'gen, 'cb) network_message \<Rightarrow>
   ((_, _, _, _, _, _, _, _, _, _) node, ('blk, 'hdr, 'tx, 'gen, 'cb, _) peer_connection) session \<Rightarrow> _" where
  "handle_on P S C W what message s =
     (case handle_message P S C W (ss_time s) message (ss_metrics s, ss_node s) of
        ((m, n), r) \<Rightarrow> (s\<lparr>ss_metrics := m, ss_node := n\<rparr>,
          map_err (\<lambda>e. what @ network_error_fmt (error_fmt_api P) e) r))"

definition apply_on where
  "apply_on P S what block s =
     (case apply_block P S (ss_time s) block (ss_node s) of
        (n, r) \<Rightarrow> (s\<lparr>ss_node := n\<rparr>, map_err (\<lambda>e. what @ node_error_fmt (error_fmt_api P) e) r))"

definition send_message where
  "send_message P W write_all message s =
     (if ss_shutdown s then (s, Inl ''node shutdown requested'')
      else sbind (on_conn (check_request_budget (ss_instant s)) s) (\<lambda>s _.
        put_envelope P W write_all ''send failed: '' (to_envelope W message) s))"

section \<open>Requests on an accepted connection\<close>

function await_on_stream where
  "await_on_stream P W st =
     (case read_message W st of
        (st', Inl e) \<Rightarrow> (st', Inl (''read failed: '' @ network_error_fmt (error_fmt_api P) e))
      | (st', Inr envelope) \<Rightarrow>
          if ne_response_to envelope = 1 \<or> ne_response_to envelope = 0 then (st', Inr (ne_message envelope))
          else await_on_stream P W st')"
  by pat_completeness auto
termination
  by (relation "measure (\<lambda>(P, W, m, events). stream_weight events)") (auto dest!: read_message_weight [OF sym])

declare await_on_stream.simps [simp del]

definition request_on_stream where
  "request_on_stream P W write_all message s =
     sbind (put_envelope P W write_all ''send failed: '' (envelope_request W 1 message) s) (\<lambda>s _.
       case await_on_stream P W (ss_metrics s, pc_reads (ss_conn s)) of
         ((m, events), r) \<Rightarrow> (s\<lparr>ss_metrics := m, ss_conn := (ss_conn s)\<lparr>pc_reads := events\<rparr>\<rparr>, r))"

section \<open>Requests with their unsolicited messages\<close>

text \<open>
  While a request waits, the peer may send messages of its own. Handling one may itself request
  something, on the same connection: \<open>request\<close> is that request.
\<close>

definition fetch_full_compact_fallback where
  "fetch_full_compact_fallback P S request block_hash s =
     (let s = s\<lparr>ss_metrics := (ss_metrics s)\<lparr>nm_compact_fallback := nm_compact_fallback (ss_metrics s) + 1\<rparr>\<rparr> in
      sbind (request (MsgGetBlockByHash block_hash) s) (\<lambda>s response.
      sbind (s, case response of
          MsgBlock block \<Rightarrow> Inr block
        | MsgBlocks blocks \<Rightarrow>
            (case blocks of [block] \<Rightarrow> Inr block
             | _ \<Rightarrow> Inl ''compact full-block fallback returned invalid response'')
        | MsgReject _ message \<Rightarrow> Inl (''compact full-block fallback rejected: '' @ message)
        | _ \<Rightarrow> Inl ''compact full-block fallback returned invalid response'') (\<lambda>s block.
      sbind (s, map_err (\<lambda>e. ''fallback block hash failed: '' @ txt_codec (error_fmt_api P) e) (blk_hash P block)) (\<lambda>s h.
        if h \<noteq> block_hash then (s, Inl ''compact full-block fallback hash mismatch'')
        else apply_on P S ''fallback block rejected: '' block s))))"

definition apply_compact where
  "apply_compact P S block s =
     sbind (apply_on P S ''compact block rejected: '' block s) (\<lambda>s _.
       (s\<lparr>ss_metrics := (ss_metrics s)\<lparr>nm_compact_success := nm_compact_success (ss_metrics s) + 1\<rparr>\<rparr>, Inr ()))"

text \<open>The second pass, with the transactions the peer supplied.\<close>

definition recover_compact_block where
  "recover_compact_block P S C request block_hash compact missing s =
     (case request (MsgGetCompactBlockTransactions block_hash missing) s of
        (s, Inl _) \<Rightarrow> fetch_full_compact_fallback P S request block_hash s
      | (s, Inr response) \<Rightarrow>
          (case response of
             MsgCompactBlockTransactions response_hash transactions \<Rightarrow>
               if response_hash \<noteq> block_hash then fetch_full_compact_fallback P S request block_hash s
               else (case reconstruct P C compact (nd_mempool (ss_node s)) transactions of
                   Inr (CompactComplete block) \<Rightarrow> apply_compact P S block s
                 | _ \<Rightarrow> fetch_full_compact_fallback P S request block_hash s)
           | _ \<Rightarrow> fetch_full_compact_fallback P S request block_hash s))"

definition handle_compact_block where
  "handle_compact_block P S C request compact s =
     sbind (s, map_err (\<lambda>e. ''invalid compact block: '' @ compact_block_error_fmt e) (compact_block_hash P compact))
       (\<lambda>s block_hash.
        if \<not> pc_attached (ss_conn s) then (s, Inr ())
        else (case reconstruct P C compact (nd_mempool (ss_node s)) [] of
            Inr (CompactComplete block) \<Rightarrow> apply_compact P S block s
          | Inr (CompactMissing indexes) \<Rightarrow>
              let s = s\<lparr>ss_metrics := (ss_metrics s)\<lparr>nm_compact_missing_transactions :=
                    nm_compact_missing_transactions (ss_metrics s) + of_nat (length indexes)\<rparr>\<rparr> in
              if MAX_COMPACT_RECOVERY_TRANSACTIONS < length indexes \<or>
                 length (cb_short_ids compact) * 3 < length indexes * 4
              then fetch_full_compact_fallback P S request block_hash s
              else recover_compact_block P S C request block_hash compact indexes s
          | Inl _ \<Rightarrow> fetch_full_compact_fallback P S request block_hash s))"

text \<open>The answer to a message the node has handled: a request of ours for the data a peer announced,
  or a response.\<close>

definition answer_unsolicited where
  "answer_unsolicited P S C W write_all request request_id response s =
     (case response of
        MsgGetData items \<Rightarrow>
          sbind (request (MsgGetData items) s) (\<lambda>s data.
          sbind (handle_on P S C W ''unsolicited data response handling failed: '' data s) (\<lambda>s follow_up.
            case follow_up of
              None \<Rightarrow> (s, Inr ())
            | Some message \<Rightarrow> send_message P W write_all message s))
      | response \<Rightarrow> put_envelope P W write_all ''unsolicited response send failed: ''
          (envelope_response W request_id response) s)"

definition handle_unsolicited where
  "handle_unsolicited P S C W write_all request request_id message s =
     (case message of
        MsgCompactBlock compact \<Rightarrow> handle_compact_block P S C request compact s
      | message \<Rightarrow>
          if \<not> pc_attached (ss_conn s) then (s, Inr ())
          else sbind (handle_on P S C W ''unsolicited message handling failed: '' message s) (\<lambda>s response.
            case response of
              None \<Rightarrow> (s, Inr ())
            | Some response \<Rightarrow> answer_unsolicited P S C W write_all request request_id response s))"

text \<open>A request, given the loop that waits for the answer to its identifier.\<close>

definition request_with where
  "request_with P W write_all await message s =
     (if ss_shutdown s then (s, Inl ''node shutdown requested'')
      else sbind (on_conn (check_request_budget (ss_instant s)) s) (\<lambda>s _.
        if \<not> pc_routed (ss_conn s) then request_on_stream P W write_all message s
        else
          let request_id = pc_request_ids (ss_conn s);
              s = s\<lparr>ss_conn := (ss_conn s)\<lparr>pc_request_ids := request_id + 1\<rparr>\<rparr> in
          sbind (put_envelope P W write_all ''send failed: '' (envelope_request W request_id message) s)
            (\<lambda>s _. await request_id s)))"

text \<open>
  One turn of the waiting loop; \<open>again\<close> is the rest of the loop and \<open>request\<close> a request made on the
  way. Both see an inbox that is shorter by one event.
\<close>

definition await_turn where
  "await_turn P S C W write_all request again request_id s =
     (case bt_get (pc_pending_responses (ss_conn s)) request_id of
        Some message \<Rightarrow>
          (s\<lparr>ss_conn := (ss_conn s)\<lparr>pc_pending_responses :=
             bt_remove request_id (pc_pending_responses (ss_conn s))\<rparr>\<rparr>, Inr message)
      | None \<Rightarrow>
          (case pc_inbox (ss_conn s) of
             [] \<Rightarrow> (s, Inl ''peer request timed out'')
           | event # events \<Rightarrow>
               let s = s\<lparr>ss_conn := (ss_conn s)\<lparr>pc_inbox := events\<rparr>\<rparr> in
               (case event of
                  ShutdownSeen \<Rightarrow> (s\<lparr>ss_shutdown := True\<rparr>, Inl ''node shutdown requested'')
                | DeadlinePassed \<Rightarrow> (s, Inl ''peer request timed out'')
                | Quiet \<Rightarrow> again request_id s
                | Disconnected e \<Rightarrow> (s, Inl (''read failed: '' @ e))
                | Delivered envelope \<Rightarrow>
                    if ne_response_to envelope = request_id then (s, Inr (ne_message envelope))
                    else if ne_response_to envelope \<noteq> 0
                    then again request_id (s\<lparr>ss_conn := (ss_conn s)\<lparr>pc_pending_responses :=
                      bt_insert (ne_response_to envelope) (ne_message envelope) (pc_pending_responses (ss_conn s))\<rparr>\<rparr>)
                    else sbind (handle_unsolicited P S C W write_all request (ne_request_id envelope) (ne_message envelope) s)
                      (\<lambda>s _. again request_id s))))"

text \<open>The loop, with fuel for the requests made inside it; one more than the events in the inbox is
  always enough.\<close>

primrec await_response where
  "await_response P S C W write_all 0 = (\<lambda>request_id s. (s, Inl ''peer request timed out''))"
| "await_response P S C W write_all (Suc k) =
     await_turn P S C W write_all (request_with P W write_all (await_response P S C W write_all k))
       (await_response P S C W write_all k)"

definition request_fuelled where
  "request_fuelled P S C W write_all k = request_with P W write_all (await_response P S C W write_all k)"

definition peer_request where
  "peer_request P S C W write_all message s =
     request_fuelled P S C W write_all (Suc (length (pc_inbox (ss_conn s)))) message s"

end
