(* ===== verification/Connection_Props.thy ===== *)
theory Connection_Props
  imports Connection
begin

text \<open>
  Properties of connections: what every request keeps, that a request ends, whose answer it returns,
  and what a read timeout inside a frame does.
\<close>

section \<open>What a request keeps\<close>

text \<open>The answers among the events of an inbox, by the request they answer.\<close>

definition answers where
  "answers events = {(ne_response_to e, ne_message e) | e. Delivered e \<in> set events}"

text \<open>How a connection changes: events are used up, and pending responses come from them.\<close>

definition evolves where
  "evolves c c' \<longleftrightarrow> length (pc_inbox c') \<le> length (pc_inbox c) \<and> set (pc_inbox c') \<subseteq> set (pc_inbox c) \<and>
     set (pc_pending_responses c') \<subseteq> set (pc_pending_responses c) \<union> answers (pc_inbox c)"

lemma evolves_refl [simp]: "evolves c c"
  by (simp add: evolves_def)

lemma answers_mono: "set xs \<subseteq> set ys \<Longrightarrow> answers xs \<subseteq> answers ys"
  by (auto simp: answers_def)

lemma evolves_trans: "evolves a b \<Longrightarrow> evolves b c \<Longrightarrow> evolves a c"
  unfolding evolves_def using answers_mono [of "pc_inbox b" "pc_inbox a"]
  by (meson le_sup_iff order_trans subset_Un_eq sup.mono sup_ge1 sup_ge2)

lemma evolves_same:
  "pc_inbox c' = pc_inbox c \<Longrightarrow> pc_pending_responses c' = pc_pending_responses c \<Longrightarrow> evolves c c'"
  by (simp add: evolves_def)

lemma set_bt_insert_sub: "set (bt_insert k v m) \<subseteq> insert (k, v) (set m)"
  by (induction k v m rule: bt_insert.induct) auto

lemma evolves_pend:
  assumes "pc_inbox c = Delivered e # events"
  shows "evolves c (c\<lparr>pc_inbox := events, pc_pending_responses :=
    bt_insert (ne_response_to e) (ne_message e) (pc_pending_responses c)\<rparr>)"
proof -
  have "(ne_response_to e, ne_message e) \<in> answers (pc_inbox c)" by (auto simp: answers_def assms)
  then have "set (bt_insert (ne_response_to e) (ne_message e) (pc_pending_responses c)) \<subseteq>
      set (pc_pending_responses c) \<union> answers (pc_inbox c)"
    using set_bt_insert_sub [of "ne_response_to e" "ne_message e" "pc_pending_responses c"] by blast
  then show ?thesis by (auto simp: evolves_def assms)
qed

text \<open>
  What every call on a session keeps, when the elementary changes keep it: the counters, the shutdown
  flag and the connection as it evolves, and the node under messages and blocks.
\<close>

locale session_invariant =
  fixes P S C W I
  assumes inv_metrics: "I s \<Longrightarrow> I (s\<lparr>ss_metrics := m\<rparr>)"
    and inv_shutdown: "I s \<Longrightarrow> I (s\<lparr>ss_shutdown := b\<rparr>)"
    and inv_conn: "I s \<Longrightarrow> evolves (ss_conn s) c \<Longrightarrow> I (s\<lparr>ss_conn := c\<rparr>)"
    and inv_handle: "I s \<Longrightarrow> I (fst (handle_on P S C W what message s))"
    and inv_apply: "I s \<Longrightarrow> I (fst (apply_on P S what block s))"
begin

lemma inv_put: "I s \<Longrightarrow> I (fst (put_envelope P W write_all what e s))"
  by (auto simp: put_envelope_def evolves_same split: prod.split intro!: inv_conn inv_metrics)

lemma inv_sbind: "I (fst x) \<Longrightarrow> (\<And>s y. I s \<Longrightarrow> I (fst (f s y))) \<Longrightarrow> I (fst (sbind x f))"
  by (rule sbind_invariant [of I])

lemma inv_budget: "I s \<Longrightarrow> I (fst (on_conn (check_request_budget now) s))"
  by (auto simp: on_conn_def check_request_budget_def Let_def evolves_same intro!: inv_conn)

lemma inv_send: "I s \<Longrightarrow> I (fst (send_message P W write_all message s))"
  by (auto simp: send_message_def intro!: inv_sbind inv_budget inv_put)

lemma inv_on_stream: "I s \<Longrightarrow> I (fst (request_on_stream P W write_all message s))"
  by (auto simp: request_on_stream_def evolves_same split: prod.split
      intro!: inv_sbind inv_put inv_conn inv_metrics)

lemma inv_compact: "I s \<Longrightarrow> I (fst (apply_compact P S block s))"
  by (auto simp: apply_compact_def intro!: inv_sbind inv_apply inv_metrics)

lemma inv_fallback:
  assumes req: "\<And>message s. I s \<Longrightarrow> I (fst (request message s))" and "I s"
  shows "I (fst (fetch_full_compact_fallback P S request h s))"
  using assms(2) by (auto simp: fetch_full_compact_fallback_def Let_def
      intro!: inv_sbind req inv_apply inv_metrics)

lemma inv_recover:
  assumes req: "\<And>message s. I s \<Longrightarrow> I (fst (request message s))" and "I s"
  shows "I (fst (recover_compact_block P S C request h compact missing s))"
proof -
  obtain s' r where r: "request (MsgGetCompactBlockTransactions h missing) s = (s', r)" by fastforce
  with req [OF assms(2), of "MsgGetCompactBlockTransactions h missing"] have I: "I s'" by simp
  note fall = inv_fallback [where request = request and h = h, OF req I]
  show ?thesis
  proof (cases "\<exists>ts. r = Inr (MsgCompactBlockTransactions h ts)")
    case True
    then show ?thesis using fall I
      by (auto simp: recover_compact_block_def r inv_compact split: sum.split compact_reconstruction.split)
  next
    case False
    then show ?thesis using fall
      by (auto simp: recover_compact_block_def r split: sum.split network_message.split)
  qed
qed

lemma inv_compact_block:
  assumes req: "\<And>message s. I s \<Longrightarrow> I (fst (request message s))" and "I s"
  shows "I (fst (handle_compact_block P S C request compact s))"
  using assms(2) inv_recover [where request = request, OF req] inv_fallback [where request = request, OF req]
  by (auto simp: handle_compact_block_def Let_def inv_compact inv_metrics
      split: sum.split compact_reconstruction.split intro!: inv_sbind)

lemma inv_answer:
  assumes req: "\<And>message s. I s \<Longrightarrow> I (fst (request message s))" and "I s"
  shows "I (fst (answer_unsolicited P S C W write_all request request_id response s))"
  using assms(2) by (cases response)
    (auto simp: answer_unsolicited_def inv_put inv_handle inv_send split: option.split intro!: inv_sbind req)

lemma inv_unsolicited:
  assumes req: "\<And>message s. I s \<Longrightarrow> I (fst (request message s))" and "I s"
  shows "I (fst (handle_unsolicited P S C W write_all request request_id message s))"
proof (cases "\<exists>compact. message = MsgCompactBlock compact")
  case True
  then show ?thesis using inv_compact_block [where request = request, OF req assms(2)] by (auto simp: handle_unsolicited_def)
next
  case False
  have "I (fst (sbind (handle_on P S C W what message s) (\<lambda>s response.
        case response of None \<Rightarrow> (s, Inr ())
        | Some response \<Rightarrow> answer_unsolicited P S C W write_all request request_id response s)))" for what
    using assms(2) inv_answer [where request = request, OF req] by (auto simp: inv_handle split: option.split intro!: inv_sbind)
  with False assms(2) show ?thesis by (cases message) (simp_all add: handle_unsolicited_def)
qed

lemma inv_request_with:
  assumes "\<And>request_id s. I s \<Longrightarrow> I (fst (await request_id s))" and "I s"
  shows "I (fst (request_with P W write_all await message s))"
  using assms by (auto simp: request_with_def Let_def inv_on_stream evolves_same
      intro!: inv_sbind inv_budget inv_put inv_conn)

lemma inv_turn:
  assumes req: "\<And>message s. I s \<Longrightarrow> I (fst (request message s))"
    and again: "\<And>request_id s. I s \<Longrightarrow> I (fst (again request_id s))" and "I s"
  shows "I (fst (await_turn P S C W write_all request again request_id s))"
proof (cases "bt_get (pc_pending_responses (ss_conn s)) request_id")
  case (Some message)
  then show ?thesis using assms(3)
    by (auto simp: await_turn_def evolves_def set_bt_remove intro!: inv_conn)
next
  case None
  show ?thesis
  proof (cases "pc_inbox (ss_conn s)")
    case Nil
    with None assms(3) show ?thesis by (simp add: await_turn_def)
  next
    case (Cons event events)
    let ?s = "s\<lparr>ss_conn := (ss_conn s)\<lparr>pc_inbox := events\<rparr>\<rparr>"
    have I: "I ?s" using assms(3) Cons by (auto simp: evolves_def intro!: inv_conn)
    have pend: "I (s\<lparr>ss_conn := (ss_conn s)\<lparr>pc_inbox := events, pc_pending_responses :=
          bt_insert (ne_response_to e) (ne_message e) (pc_pending_responses (ss_conn s))\<rparr>\<rparr>)"
      if "event = Delivered e" for e
      using Cons that by (auto intro!: inv_conn assms(3) evolves_pend)
    note uns = inv_unsolicited [where request = request and write_all = write_all, OF req I]
    show ?thesis using None Cons I pend uns
      by (auto simp: await_turn_def Let_def inv_shutdown again split: peer_event.split intro!: inv_sbind)
  qed
qed

lemma inv_await: "I s \<Longrightarrow> I (fst (await_response P S C W write_all k request_id s))"
proof (induction k arbitrary: request_id s)
  case (Suc k)
  show ?case unfolding await_response.simps
    by (rule inv_turn [OF inv_request_with]) (use Suc in auto)
qed simp

lemma inv_request: "I s \<Longrightarrow> I (fst (request_fuelled P S C W write_all k message s))"
  unfolding request_fuelled_def by (rule inv_request_with) (simp_all add: inv_await)

end

text \<open>A request only evolves its connection, and leaves a reachable node reachable.\<close>

interpretation evo: session_invariant P S C W "\<lambda>s. evolves c0 (ss_conn s)" for P S C W c0
proof
  show "evolves c0 (ss_conn (s\<lparr>ss_conn := c\<rparr>))" if "evolves c0 (ss_conn s)" "evolves (ss_conn s) c" for s c
    using evolves_trans [OF that] by simp
qed (auto simp: handle_on_def apply_on_def split: prod.split)

interpretation reach: session_invariant P S C W "\<lambda>s. node_reachable P S (ss_node s)" for P S C W
proof
  show "node_reachable P S (ss_node (fst (handle_on P S C W what message s)))"
    if "node_reachable P S (ss_node s)" for what message s
    using handle_reachable [OF that, of C W "ss_time s" message "ss_metrics s"]
    by (simp add: handle_on_def case_prod_beta)
  show "node_reachable P S (ss_node (fst (apply_on P S what block s)))"
    if "node_reachable P S (ss_node s)" for what block s
    using node_reachable.block [OF that, of "ss_time s" block] by (simp add: apply_on_def case_prod_beta)
qed simp_all

section \<open>The fuel is enough\<close>

abbreviation waiting where
  "waiting s \<equiv> length (pc_inbox (ss_conn s))"

text \<open>Two requests that agree on sessions with at most \<open>n\<close> waiting events, the first of which adds none.\<close>

definition agree where
  "agree n request request' \<longleftrightarrow>
     (\<forall>message s. waiting s \<le> n \<longrightarrow> request message s = request' message s \<and> waiting (fst (request message s)) \<le> n)"

lemma agreeD:
  "agree n request request' \<Longrightarrow> waiting s \<le> n \<Longrightarrow> request message s = request' message s"
  "agree n request request' \<Longrightarrow> waiting s \<le> n \<Longrightarrow> waiting (fst (request message s)) \<le> n"
  unfolding agree_def by blast+

lemma handle_on_conn [simp]: "ss_conn (fst (handle_on P S C W what message s)) = ss_conn s"
  by (simp add: handle_on_def case_prod_beta)

lemma fallback_agree:
  assumes "agree n request request'" "waiting s \<le> n"
  shows "fetch_full_compact_fallback P S request h s = fetch_full_compact_fallback P S request' h s"
  using assms(2) by (simp add: fetch_full_compact_fallback_def Let_def agreeD(1) [OF assms(1)])

lemma recover_agree:
  assumes "agree n request request'" "waiting s \<le> n"
  shows "recover_compact_block P S C request h compact missing s =
    recover_compact_block P S C request' h compact missing s"
proof -
  obtain s' r where r: "request (MsgGetCompactBlockTransactions h missing) s = (s', r)" by fastforce
  with agreeD [OF assms, of "MsgGetCompactBlockTransactions h missing"]
  have r': "request' (MsgGetCompactBlockTransactions h missing) s = (s', r)" and "waiting s' \<le> n"
    by (metis fst_conv)+
  note fall = fallback_agree [OF assms(1) this(2)]
  show ?thesis unfolding recover_compact_block_def r r' prod.case fall by (rule refl)
qed

lemma compact_block_agree:
  assumes "agree n request request'" "waiting s \<le> n"
  shows "handle_compact_block P S C request compact s = handle_compact_block P S C request' compact s"
proof -
  have "fetch_full_compact_fallback P S request h (s\<lparr>ss_metrics := m\<rparr>) =
      fetch_full_compact_fallback P S request' h (s\<lparr>ss_metrics := m\<rparr>)"
    "recover_compact_block P S C request h compact missing (s\<lparr>ss_metrics := m\<rparr>) =
      recover_compact_block P S C request' h compact missing (s\<lparr>ss_metrics := m\<rparr>)" for h m missing
    by (rule fallback_agree [OF assms(1)] recover_agree [OF assms(1)], simp add: assms(2))+
  with fallback_agree [OF assms, of P S] show ?thesis
    unfolding handle_compact_block_def
    by (cases "compact_block_hash P compact") (simp_all add: Let_def split: sum.split compact_reconstruction.split)
qed

lemma answer_agree:
  assumes "agree n request request'" "waiting s \<le> n"
  shows "answer_unsolicited P S C W write_all request request_id response s =
    answer_unsolicited P S C W write_all request' request_id response s"
  by (cases response) (simp_all add: answer_unsolicited_def agreeD(1) [OF assms])

lemma unsolicited_agree:
  assumes "agree n request request'" "waiting s \<le> n"
  shows "handle_unsolicited P S C W write_all request request_id message s =
    handle_unsolicited P S C W write_all request' request_id message s"
proof -
  have bind: "sbind (handle_on P S C W what msg s) (\<lambda>s response. case response of None \<Rightarrow> (s, Inr ())
        | Some response \<Rightarrow> answer_unsolicited P S C W write_all request request_id response s) =
      sbind (handle_on P S C W what msg s) (\<lambda>s response. case response of None \<Rightarrow> (s, Inr ())
        | Some response \<Rightarrow> answer_unsolicited P S C W write_all request' request_id response s)" for what msg
  proof (rule sbind_cong [OF refl])
    fix s' r
    assume "handle_on P S C W what msg s = (s', Inr r)"
    with handle_on_conn [of P S C W what msg s] have "ss_conn s' = ss_conn s" by simp
    then show "(case r of None \<Rightarrow> (s', Inr ())
          | Some response \<Rightarrow> answer_unsolicited P S C W write_all request request_id response s') =
        (case r of None \<Rightarrow> (s', Inr ())
          | Some response \<Rightarrow> answer_unsolicited P S C W write_all request' request_id response s')"
      using answer_agree [OF assms(1), of s' P S C W write_all request_id] assms(2) by (simp split: option.split)
  qed
  show ?thesis
    by (cases message) (simp_all only: handle_unsolicited_def network_message.simps bind compact_block_agree [OF assms])
qed

lemma waiting_kept:
  assumes "\<And>message s. evolves (ss_conn s) (ss_conn (fst (request message s)))"
  shows "waiting (fst (handle_unsolicited P S C W write_all request request_id message s)) \<le> waiting s"
proof -
  have "evolves (ss_conn s) (ss_conn (fst (handle_unsolicited P S C W write_all request request_id message s)))"
    by (rule evo.inv_unsolicited) (auto intro: evolves_trans assms)
  then show ?thesis by (simp add: evolves_def)
qed

lemma request_with_agree:
  assumes "\<And>request_id s. waiting s \<le> n \<Longrightarrow> await request_id s = await' request_id s" "waiting s \<le> n"
  shows "request_with P W write_all await message s = request_with P W write_all await' message s"
proof -
  have put: "waiting (fst (put_envelope P W write_all what e s)) = waiting s" for what e s
    by (simp add: put_envelope_def case_prod_beta)
  have budget: "waiting (fst (on_conn (check_request_budget now) s)) = waiting s" for now s
    by (simp add: on_conn_def check_request_budget_def Let_def)
  show ?thesis
    unfolding request_with_def Let_def
    by (intro if_cong refl sbind_cong assms(1))
      (use assms(2) in \<open>auto dest!: arg_cong [where f = "\<lambda>r. waiting (fst r)"] simp: put budget\<close>)
qed

lemma turn_agree:
  assumes "agree n request request'"
    and "\<And>message s. evolves (ss_conn s) (ss_conn (fst (request message s)))"
    and again: "\<And>request_id s. waiting s \<le> n \<Longrightarrow> again request_id s = again' request_id s"
    and "waiting s \<le> Suc n"
  shows "await_turn P S C W write_all request again request_id s = await_turn P S C W write_all request' again' request_id s"
proof (cases "pc_inbox (ss_conn s)")
  case (Cons event events)
  let ?s = "s\<lparr>ss_conn := (ss_conn s)\<lparr>pc_inbox := events\<rparr>\<rparr>"
  have le: "waiting ?s \<le> n" using assms(4) Cons by simp
  have "sbind (handle_unsolicited P S C W write_all request i m ?s) (\<lambda>s _. again request_id s) =
      sbind (handle_unsolicited P S C W write_all request' i m ?s) (\<lambda>s _. again' request_id s)" for i m
  proof (rule sbind_cong)
    show "handle_unsolicited P S C W write_all request i m ?s = handle_unsolicited P S C W write_all request' i m ?s"
      by (rule unsolicited_agree [OF assms(1) le])
    fix s' x
    assume "handle_unsolicited P S C W write_all request' i m ?s = (s', Inr x)"
    then have "handle_unsolicited P S C W write_all request i m ?s = (s', Inr x)"
      using unsolicited_agree [OF assms(1) le, of P S C W write_all i m] by simp
    with waiting_kept [where request = request, OF assms(2), of P S C W write_all i m ?s] le have "waiting s' \<le> n" by simp
    then show "again request_id s' = again' request_id s'" by (rule again)
  qed
  with le again Cons show ?thesis
    by (simp add: await_turn_def Let_def split: option.split peer_event.split)
qed (simp add: await_turn_def split: option.split)

lemma request_fuelled_evolves: "evolves (ss_conn s) (ss_conn (fst (request_fuelled P S C W write_all k message s)))"
  by (rule evo.inv_request) simp

lemma await_agree:
  "waiting s < k \<Longrightarrow> waiting s < k' \<Longrightarrow>
   await_response P S C W write_all k request_id s = await_response P S C W write_all k' request_id s"
proof (induction k arbitrary: k' request_id s)
  case (Suc j)
  then obtain j' where k': "k' = Suc j'" by (cases k') auto
  let ?n = "waiting s - 1"
  have le: "i < j \<and> i < j'" if "i \<le> ?n" "0 < waiting s" for i
    using that Suc.prems unfolding k' by linarith
  show ?case
  proof (cases "waiting s = 0")
    case True
    then show ?thesis by (simp add: k' await_turn_def split: option.split)
  next
    case False
    have again: "await_response P S C W write_all j i t = await_response P S C W write_all j' i t"
      if "waiting t \<le> ?n" for i t
      using Suc.IH [of t j' i] le [OF that] False by simp
    have "request_fuelled P S C W write_all j message t = request_fuelled P S C W write_all j' message t"
      if "waiting t \<le> ?n" for message t
      unfolding request_fuelled_def by (rule request_with_agree [OF again that])
    moreover have "waiting (fst (request_fuelled P S C W write_all j message t)) \<le> ?n"
      if "waiting t \<le> ?n" for message t
      using that request_fuelled_evolves [of t P S C W write_all j message] by (simp add: evolves_def)
    ultimately have "agree ?n (request_fuelled P S C W write_all j) (request_fuelled P S C W write_all j')"
      unfolding agree_def by blast
    then show ?thesis
      unfolding k' await_response.simps request_fuelled_def [symmetric]
      by (rule turn_agree) (use request_fuelled_evolves again in auto)
  qed
qed simp


section \<open>Whose answer a request returns\<close>

lemma evolves_answers:
  "evolves c c' \<Longrightarrow> x \<in> set (pc_pending_responses c') \<union> answers (pc_inbox c') \<Longrightarrow>
   x \<in> set (pc_pending_responses c) \<union> answers (pc_inbox c)"
  unfolding evolves_def using answers_mono [of "pc_inbox c'" "pc_inbox c"] by blast

lemma await_answer:
  "await_response P S C W write_all k request_id s = (s', Inr reply) \<Longrightarrow>
   (request_id, reply) \<in> set (pc_pending_responses (ss_conn s)) \<union> answers (pc_inbox (ss_conn s))"
proof (induction k arbitrary: s)
  case (Suc k)
  let ?turn = "await_turn P S C W write_all (request_fuelled P S C W write_all k) (await_response P S C W write_all k) request_id s"
  have turn: "?turn = (s', Inr reply)" using Suc.prems by (simp add: request_fuelled_def)
  have later: ?case if "evolves (ss_conn s) (ss_conn t)" "await_response P S C W write_all k request_id t = (s', Inr reply)" for t
    using evolves_answers [OF that(1)] Suc.IH [OF that(2)] by blast
  show ?case
  proof (cases "bt_get (pc_pending_responses (ss_conn s)) request_id")
    case (Some message)
    with turn have "message = reply" by (simp add: await_turn_def)
    with Some show ?thesis by (simp add: bt_get_def map_of_SomeD)
  next
    case None
    show ?thesis
    proof (cases "pc_inbox (ss_conn s)")
      case Nil
      with None turn show ?thesis by (simp add: await_turn_def)
    next
      case (Cons event events)
      let ?s = "s\<lparr>ss_conn := (ss_conn s)\<lparr>pc_inbox := events\<rparr>\<rparr>"
      have evolves: "evolves (ss_conn s) (ss_conn ?s)" using Cons by (auto simp: evolves_def)
      show ?thesis
      proof (cases event)
        case (Delivered e)
        consider "ne_response_to e = request_id" | "ne_response_to e \<noteq> request_id" "ne_response_to e \<noteq> 0"
          | "ne_response_to e \<noteq> request_id" "ne_response_to e = 0" by blast
        then show ?thesis
        proof cases
          case 1
          with None Cons Delivered turn have "reply = ne_message e" by (simp add: await_turn_def Let_def)
          with 1 Cons Delivered show ?thesis by (auto simp: answers_def)
        next
          case 2
          with None Cons Delivered turn show ?thesis
            using evolves_pend [of "ss_conn s" e events]
            by (intro later) (simp_all add: await_turn_def Let_def)
        next
          case 3
          with None Cons Delivered turn obtain t where
            t: "handle_unsolicited P S C W write_all (request_fuelled P S C W write_all k) (ne_request_id e) (ne_message e) ?s = (t, Inr ())"
               "await_response P S C W write_all k request_id t = (s', Inr reply)"
            by (auto simp: await_turn_def Let_def sbind_Inr_iff)
          have "evolves (ss_conn s) (ss_conn (fst (handle_unsolicited P S C W write_all
              (request_fuelled P S C W write_all k) (ne_request_id e) (ne_message e) ?s)))"
            by (rule evo.inv_unsolicited) (use evolves in \<open>auto intro: evo.inv_request\<close>)
          with t show ?thesis by (intro later) simp_all
        qed
      next
        case Quiet
        with None Cons turn evolves show ?thesis by (intro later) (simp_all add: await_turn_def Let_def)
      qed (use None Cons turn in \<open>simp_all add: await_turn_def Let_def\<close>)
    qed
  qed
qed simp

lemma request_with_Inr:
  assumes "pc_routed (ss_conn s)" "request_with P W write_all await message s = (s', Inr reply)"
  shows "\<exists>t. evolves (ss_conn s) (ss_conn t) \<and> await (pc_request_ids (ss_conn s)) t = (s', Inr reply)"
proof -
  have found: ?thesis if "await (pc_request_ids (ss_conn s)) t = (s', Inr reply)"
      "pc_inbox (ss_conn t) = pc_inbox (ss_conn s)"
      "pc_pending_responses (ss_conn t) = pc_pending_responses (ss_conn s)" for t
    using that evolves_same by blast
  show ?thesis using assms
    by (auto simp: request_with_def Let_def sbind_Inr_iff on_conn_def check_request_budget_def put_envelope_def
        split: if_splits prod.splits dest!: found)
qed

text \<open>C4: A request on a connection the node opened returns only an answer to its own identifier: the
  message of an envelope that arrived for it, now or while an earlier request waited, whatever else
  the peer sends in between and whatever requests handling that takes.\<close>

theorem request_answers_own_id:
  assumes "pc_routed (ss_conn s)" "peer_request P S C W write_all message s = (s', Inr reply)"
  shows "(pc_request_ids (ss_conn s), reply) \<in>
    set (pc_pending_responses (ss_conn s)) \<union> answers (pc_inbox (ss_conn s))"
proof -
  obtain t k where t: "evolves (ss_conn s) (ss_conn t)"
      "await_response P S C W write_all k (pc_request_ids (ss_conn s)) t = (s', Inr reply)"
    using request_with_Inr [OF assms(1) assms(2) [unfolded peer_request_def request_fuelled_def]] by blast
  from evolves_answers [OF t(1)] await_answer [OF t(2)] show ?thesis by blast
qed

lemma request_keeps_reachable:
  "node_reachable P S (ss_node s) \<Longrightarrow> node_reachable P S (ss_node (fst (peer_request P S C W write_all message s)))"
  unfolding peer_request_def by (rule reach.inv_request)

section \<open>Timeouts inside a frame\<close>

lemma read_exact_timeout:
  assumes "kind = WouldBlock \<or> kind = TimedOut" "0 < length bytes" "length received + length bytes < expected"
  shows "\<exists>t. read_exact_logged phase expected received (Arrived bytes # Failed kind message # events) =
    (events, Inl (NetworkIo (IoFailure kind t)))"
  using assms by (subst read_exact_logged.simps, simp, subst read_exact_logged.simps) auto

lemma read_exact_fails:
  assumes "kind = WouldBlock \<or> kind = TimedOut" "length received < expected"
  shows "\<exists>t. read_exact_logged phase expected received (Failed kind message # events) =
    (events, Inl (NetworkIo (IoFailure kind t)))"
  using assms by (subst read_exact_logged.simps) auto

lemma read_exact_whole:
  assumes "0 < expected" "length bytes = expected"
  shows "read_exact_logged phase expected [] (Arrived bytes # events) = (events, Inr bytes)"
    "rest \<noteq> [] \<Longrightarrow> read_exact_logged phase expected [] (Arrived (bytes @ rest) # events) = (Arrived rest # events, Inr bytes)"
  using assms by (subst read_exact_logged.simps, auto, subst read_exact_logged.simps, auto)+

text \<open>C39: A read timeout inside a frame loses the frame's beginning: the reader thread drops what it has read
  and takes the next byte for the start of a frame. The reads of a connection time out after
  250 ms, so this is an ordinary event for a frame that arrives in two parts.\<close>

theorem timeout_drops_partial_frame:
  assumes "kind = WouldBlock \<or> kind = TimedOut" "length payload \<le> 8388608"
    and "frame = be_bytes 4 (length payload) @ payload" "0 < k" "k < length frame"
  shows "peer_reader W (m, [Arrived (take k frame), Failed kind message, Arrived (drop k frame)]) =
    peer_reader W (m, [Arrived (drop k frame)])"
proof -
  let ?events = "[Arrived (take k frame), Failed kind message, Arrived (drop k frame)]"
  have "\<exists>t. read_message W (m, ?events) = ((m, [Arrived (drop k frame)]), Inl (NetworkIo (IoFailure kind t)))"
  proof (cases "k < 4")
    case True
    have "0 < length (take k frame)" "length ([] :: bytes) + length (take k frame) < 4" using assms(4,5) True by auto
    from read_exact_timeout [OF assms(1) this, of "''length''" message "[Arrived (drop k frame)]"]
    show ?thesis by (auto simp: read_message_def MESSAGE_LENGTH_SIZE_def)
  next
    case False
    define body where "body = take (k - 4) payload"
    have frame: "take k frame = be_bytes 4 (length payload) @ body" using False by (simp add: assms(3) body_def)
    have len: "length body < length payload" using assms(3,5) False by (simp add: body_def)
    obtain rest where first: "read_exact_logged ''length'' 4 [] ?events = (rest, Inr (be_bytes 4 (length payload)))"
      and rest: "rest = (if body = [] then [Failed kind message, Arrived (drop k frame)]
        else [Arrived body, Failed kind message, Arrived (drop k frame)])"
      using read_exact_whole [where expected = 4 and bytes = "be_bytes 4 (length payload)" and phase = "''length''"] unfolding frame
      by (cases "body = []") auto
    obtain t where "read_exact_logged ''payload'' (length payload) [] rest =
        ([Arrived (drop k frame)], Inl (NetworkIo (IoFailure kind t)))"
      using read_exact_timeout [OF assms(1), of body "[]" "length payload"] read_exact_fails [OF assms(1), of "[]" "length payload"]
        len unfolding rest by (cases "body = []") force+
    with first assms(2) show ?thesis
      by (auto simp: read_message_def MESSAGE_LENGTH_SIZE_def max_message)
  qed
  then show ?thesis using assms(1) by (subst peer_reader.simps) auto
qed

section \<open>Sample sessions\<close>

definition sample_post :: "bytes \<Rightarrow> bytes \<Rightarrow> bytes \<times> (net_io + unit)" where
  "sample_post bytes w = (w @ bytes, Inr ())"

definition sample_link where
  "sample_link = sample_net\<lparr>cod_envelope := (\<lambda>e. Inr [1], \<lambda>bs. Inl (IoOther 0))\<rparr>"

text \<open>A session whose peer first pings the node itself and then answers request 1.\<close>

definition sample_session :: "(_, (sample_block, sample_header, sample_tx, unit, unit, bytes) peer_connection) session" where
  "sample_session = \<lparr>ss_metrics = metrics_new, ss_node = sample_holder, ss_shutdown = False, ss_instant = 0,
     ss_time = 5, ss_conn = attach_node (connection_new True 0 ''peer'' [] []
       [Delivered (sample_ping 4), Quiet,
        Delivered \<lparr>ne_magic = [9], ne_request_id = 0, ne_response_to = 1, ne_message = MsgPong 3\<rparr>])\<rparr>"

theorem timeout_drops_partial_frame_witness:
  "let frame = be_bytes 4 (length [7 :: u8]) @ [7] in
   peer_reader sample_net (metrics_new, [Arrived (take 2 frame), Failed WouldBlock [], Arrived (drop 2 frame)]) =
   peer_reader sample_net (metrics_new, [Arrived (drop 2 frame)])"
  using timeout_drops_partial_frame [of WouldBlock "[7]" "be_bytes 4 (length [7 :: u8]) @ [7]" 2 sample_net metrics_new "[]"]
  by (simp add: Let_def)


theorem request_answers_own_id_witness:
  "\<exists>s'. peer_request sample_node null_store sample_compact sample_link sample_post (MsgPing 3) sample_session =
      (s', Inr (MsgPong 3)) \<and>
    (1, MsgPong 3) \<in> set (pc_pending_responses (ss_conn sample_session)) \<union> answers (pc_inbox (ss_conn sample_session))"
proof -
  have run: "snd (peer_request sample_node null_store sample_compact sample_link sample_post (MsgPing 3) sample_session) =
      Inr (MsgPong 3)"
    by (simp add: sample_session_def peer_request_def request_fuelled_def request_with_def on_conn_def check_request_budget_def
        put_envelope_def write_message_def envelope_to_bytes_def sample_link_def sample_post_def await_turn_def Let_def
        handle_unsolicited_def handle_on_def answer_unsolicited_def connection_new_def attach_node_def max_message
        bt_get_def sample_ping_def PEER_REQUEST_WINDOW_def MAX_PEER_REQUESTS_PER_WINDOW_def sat_add_def)
  obtain s' where s': "peer_request sample_node null_store sample_compact sample_link sample_post (MsgPing 3) sample_session =
      (s', Inr (MsgPong 3))" using run by (metis prod.collapse)
  have "pc_routed (ss_conn sample_session)" "pc_request_ids (ss_conn sample_session) = 1"
    by (simp_all add: sample_session_def connection_new_def attach_node_def)
  with request_answers_own_id [OF this(1) s'] s' show ?thesis by auto
qed

end
