(* ===== verification/Spec2Isabelle.thy ===== *)
theory Spec2Isabelle
  imports Connection_Props
begin

text \<open>
  A verification development of the Paqus node.

  \<^bold>\<open>The program.\<close> The node (crate \<open>node\<close>, with the wallet crates beside it) runs the \<open>paqus\<close> protocol
  crate: the crate owns transactions, blocks, ledgers and consensus rules, and the node keeps a
  mempool, a store, a chain tip with fork choice, a miner and a peer-to-peer service around them. A
  block comes from the miner or from a peer; \<open>Node::apply_block\<close> connects it, keeps it as an orphan
  until its parent arrives, or reorganises the chain, and updates store, cache and mempool. A peer's
  message goes through \<open>handle_message\<close>, either as a request of the peer or while a request of the
  node waits for its answer.

  \<^bold>\<open>Conventions.\<close> The crate, LMDB, borsh, the file system and sockets are not part of the repository;
  their functions are fields of parameter records, and what the proofs need of them is a named
  hypothesis (\<open>lmdb_laws\<close>, \<open>block_body_laws\<close>, \<open>codec_ok\<close>, \<open>fs_laws\<close>, \<open>fork_laws\<close>), shown satisfiable by the sample
  instances. \<open>Result\<close> is a sum with the error on the left; a method with \<open>&mut self\<close> returns the new state
  beside its result, also when it fails. Machine integers are words. Clock readings are arguments.

  \<^bold>\<open>Theories.\<close>
  \<^item> \<open>Prelude\<close>, \<open>Ordered_Maps\<close>, \<open>Params\<close>: integers, byte strings, results and loops; \<open>BTreeMap\<close> as a sorted
    association list behind the locale \<open>ordered_map\<close>; the constants of \<open>runtime/mod.rs\<close>.
  \<^item> \<open>Protocol\<close>, \<open>Node_Api\<close>, \<open>Storage_Api\<close>: the interfaces of the crate and of LMDB, and the texts of
    errors. \<open>Sample\<close>, \<open>Sample_Store\<close>, \<open>Sample_Node\<close>: small instances for the witnesses.
  \<^item> \<open>Mempool\<close> (\<open>runtime/mempool/extension.rs\<close>): the indexes agree in every reachable pool; admission,
    rejection, expiry and confirmation change exactly what they should; block selection equals a
    greedy reference; filled blocks respect the limits; the fee market stays in its bounds.
  \<^item> \<open>Cache\<close>, \<open>Recovery\<close> (\<open>runtime/cache.rs\<close>, \<open>runtime/recovery.rs\<close>): the block cache agrees with the ledger
    it is built from; rollback records.
  \<^item> \<open>Storage\<close>, \<open>Storage_Laws\<close>, \<open>Storage_Props\<close> (\<open>runtime/storage/storage.rs\<close>): what is saved is loaded
    again, failed writes change nothing, the integrity check is sound, prefix scans are exact.
  \<^item> \<open>Orphans\<close>, \<open>Miner\<close>, \<open>Compact\<close>, \<open>Node\<close>, \<open>Node_Props\<close>, \<open>Node_Live\<close> (\<open>runtime/node/node.rs\<close>,
    \<open>runtime/miner/miner.rs\<close>, \<open>runtime/network/compact.rs\<close>): every operation of the node keeps its parts
    consistent; a block waits only for a parent that is missing or failed; the nonce search finds the
    first passing nonce; compact blocks are rebuilt exactly.
  \<^item> \<open>Messages\<close>, \<open>Snapshot\<close>, \<open>Handler\<close>, \<open>Handler_Props\<close> (\<open>runtime/network\<close>, \<open>snapshot.rs\<close>): frames are read
    back under any fragmentation; snapshot chunks round-trip; a failed import leaves no database;
    no message takes the node out of the states its own operations reach.
  \<^item> \<open>Peers\<close>, \<open>Peer_Props\<close> (\<open>p2p/mod.rs\<close>, \<open>p2p/gossip.rs\<close>): reputation, request budget, gossip memory, block
    locator and the plan of a parallel download.
  \<^item> \<open>Connection\<close>, \<open>Connection_Props\<close> (\<open>p2p/mod.rs\<close>, \<open>rpc/transport.rs\<close>): the reader thread, and requests
    with everything that may arrive while they wait. The locale \<open>session_invariant\<close> says once what such
    a request keeps; it is interpreted for the connection and for reachable nodes.

  \<^bold>\<open>Bounds and fuel.\<close> Loops are total functions with a measure. A request and the requests made while
  it waits call each other, so they are defined with fuel; each turn uses one event of the channel,
  and it is proved that one more than the waiting events is always enough. The events
  of a channel and the reads of a stream are lists, so every order and fragmentation of arrival is
  covered; one clock reading serves a whole request. Height counters saturate: for a target of
  \<open>u64::MAX\<close> the planning loop of the source does not end, and the claim about it excludes that target.

  \<^bold>\<open>Not modelled.\<close> The synchronisation rounds on top of requests and the broadcast to peers; the
  mining thread; the HTTP, gRPC, gateway and NAT adapters, which render node state or call the
  operating system; configuration files, start-up and terminal output; the wallet crates. Lock
  poisoning and process death are outside the model, as is the interleaving of threads within one
  operation, which the mutex of the node excludes.
\<close>

end
